(* ===== verification/Prelude.thy ===== *)
theory Prelude
  imports Main "HOL-Library.Char_ord" "HOL-Library.List_Lexorder" "HOL-Library.Sublist"
begin

text \<open>
  The part of C++ and its standard library that the clients use, as executable functions:
  sizes of 64 bits with their wrap-around, the string searches and \<open>substr\<close>, the
  character classes, the number parsers (\<open>strtol\<close>, \<open>strtoul\<close>, \<open>atoi\<close>, stream extraction),
  decimal output, and \<open>int\<close> of 32 bits. Every component theory imports this one.

  A \<open>std::string\<close> is a list of bytes, so it is an Isabelle \<open>string\<close>. A signed integer is an
  \<open>int\<close> that is wrapped (\<open>wrap32\<close>) where the source narrows or increments it; a
  \<open>size_type\<close> is an \<open>int\<close> whose arithmetic (\<open>sz_add\<close>, \<open>sz_sub\<close>) is taken modulo \<open>2 ^ 64\<close>.
\<close>

named_theorems size_arith \<comment> \<open>facts on wrapped sizes\<close>
named_theorems cpp_string \<comment> \<open>facts on searches and substrings\<close>

subsection \<open>Errors\<close>

text \<open>
  The exceptions the source raises or lets through. \<open>Bad_access\<close> marks a read outside a
  container or of an uninitialised variable, or a division by zero, which C++ leaves undefined: a model that returns it says the
  code may do anything there.
\<close>

datatype cpp_exn =
    Out_of_range
  | Length_error
  | Conversion_error
  | Timer_expired string
  | Io_exception string
  | Bad_access

type_synonym 'a result = "cpp_exn + 'a"

definition res_bind :: "'a result \<Rightarrow> ('a \<Rightarrow> 'b result) \<Rightarrow> 'b result" where
  "res_bind r f = (case r of Inl e \<Rightarrow> Inl e | Inr x \<Rightarrow> f x)"

lemma res_bind_simps [simp]:
  "res_bind (Inl e) f = Inl e"
  "res_bind (Inr x) f = f x"
  by (simp_all add: res_bind_def)

lemma res_bind_eq_Inr: "res_bind r f = Inr y \<longleftrightarrow> (\<exists>x. r = Inr x \<and> f x = Inr y)"
  by (cases r) auto

subsection \<open>Sizes\<close>

type_synonym size_t = int

definition npos :: size_t where
  "npos = 2 ^ 64 - 1"

definition sz_add :: "size_t \<Rightarrow> size_t \<Rightarrow> size_t" where
  "sz_add a b = (a + b) mod 2 ^ 64"

definition sz_sub :: "size_t \<Rightarrow> size_t \<Rightarrow> size_t" where
  "sz_sub a b = (a - b) mod 2 ^ 64"

lemma sz_add_small [size_arith]: "0 \<le> a + b \<Longrightarrow> a + b < 2 ^ 64 \<Longrightarrow> sz_add a b = a + b"
  by (simp add: sz_add_def)

lemma sz_sub_small [size_arith]: "b \<le> a \<Longrightarrow> a - b < 2 ^ 64 \<Longrightarrow> sz_sub a b = a - b"
  by (simp add: sz_sub_def)

lemma sz_sub_wrap:
  assumes "a < b" and "b \<le> a + 2 ^ 64"
  shows "sz_sub a b = 2 ^ 64 - (b - a)"
proof -
  have "(a - b) mod 2 ^ 64 = (a - b + 2 ^ 64) mod 2 ^ 64"
    by simp
  also have "\<dots> = a - b + 2 ^ 64"
    using assms by (intro mod_pos_pos_trivial) auto
  finally show ?thesis
    by (simp add: sz_sub_def)
qed

lemma sz_add_npos_1 [simp]: "sz_add npos 1 = 0"
  by (simp add: sz_add_def npos_def)

lemma sz_sub_npos_1: "0 \<le> a \<Longrightarrow> a < 2 ^ 64 \<Longrightarrow> sz_sub (sz_sub a npos) 1 = a"
  by (simp add: sz_sub_def npos_def mod_diff_left_eq)

lemma sz_sub_twice: "sz_sub (sz_sub a b) c = sz_sub a (b + c)"
  by (simp add: sz_sub_def mod_diff_left_eq diff_diff_eq)

lemma sz_range: "0 \<le> sz_sub a b" "sz_sub a b < 2 ^ 64" "0 \<le> sz_add a b" "sz_add a b < 2 ^ 64"
  by (simp_all add: sz_sub_def sz_add_def)

text \<open>
  The longest possible \<open>std::string\<close> (\<open>max_size()\<close>) is shorter than \<open>2 ^ 63\<close>, so a position in
  a string is never \<open>npos\<close>.
\<close>

definition cpp_size :: "string \<Rightarrow> bool" where
  "cpp_size s = (int (length s) < 2 ^ 63)"

subsection \<open>Substrings and searches\<close>

text \<open>
  \<open>s.substr(pos, n)\<close> throws \<open>std::out_of_range\<close> when \<open>pos\<close> is past the end and clips
  \<open>n\<close> otherwise.
\<close>

definition cpp_substr :: "string \<Rightarrow> size_t \<Rightarrow> size_t \<Rightarrow> string result" where
  "cpp_substr s pos n =
     (if int (length s) < pos then Inl Out_of_range
      else Inr (take (nat (min n (int (length s)))) (drop (nat pos) s)))"

definition cpp_substr_from :: "string \<Rightarrow> size_t \<Rightarrow> string result" where
  "cpp_substr_from s pos = cpp_substr s pos npos"

text \<open>
  \<open>find_at pat s i\<close> is the first occurrence of \<open>pat\<close> in the suffix \<open>s\<close> whose own first
  position is \<open>i\<close>; \<open>cpp_find\<close> is \<open>std::string::find(pat, pos)\<close>, with \<open>npos\<close> for none.
\<close>

fun find_at :: "string \<Rightarrow> string \<Rightarrow> nat \<Rightarrow> nat option" where
  "find_at pat [] i = (if pat = [] then Some i else None)"
| "find_at pat (c # cs) i = (if prefix pat (c # cs) then Some i else find_at pat cs (Suc i))"

definition find_opt :: "string \<Rightarrow> string \<Rightarrow> nat \<Rightarrow> nat option" where
  "find_opt s pat pos = (if length s < pos then None else find_at pat (drop pos s) pos)"

definition pos_of :: "nat option \<Rightarrow> size_t" where
  "pos_of r = (case r of None \<Rightarrow> npos | Some i \<Rightarrow> int i)"

definition cpp_find :: "string \<Rightarrow> string \<Rightarrow> size_t \<Rightarrow> size_t" where
  "cpp_find s pat pos = (if int (length s) < pos then npos else pos_of (find_opt s pat (nat pos)))"

text \<open>\<open>find_first_of(set, pos)\<close>: the first position at or after \<open>pos\<close> whose character is in \<open>set\<close>.\<close>

fun find_of_at :: "string \<Rightarrow> string \<Rightarrow> nat \<Rightarrow> nat option" where
  "find_of_at cs [] i = None"
| "find_of_at cs (x # xs) i = (if x \<in> set cs then Some i else find_of_at cs xs (Suc i))"

definition find_first_of :: "string \<Rightarrow> string \<Rightarrow> nat \<Rightarrow> nat option" where
  "find_first_of s cs pos = find_of_at cs (drop pos s) pos"

lemma pos_of_simps [simp]: "pos_of None = npos" "pos_of (Some i) = int i"
  by (simp_all add: pos_of_def)

lemma find_at_shift: "find_at pat s (i + k) = map_option (\<lambda>j. j + k) (find_at pat s i)"
  by (induction pat s i rule: find_at.induct) auto

lemma find_at_Some:
  "find_at pat s i = Some j \<Longrightarrow>
     i \<le> j \<and> j \<le> i + length s \<and> prefix pat (drop (j - i) s)"
proof (induction pat s i rule: find_at.induct)
  case (2 pat c cs i)
  show ?case
  proof (cases "prefix pat (c # cs)")
    case False
    with 2 have ih: "Suc i \<le> j" "j \<le> Suc i + length cs" "prefix pat (drop (j - Suc i) cs)"
      by auto
    then have "j - i = Suc (j - Suc i)" by simp
    with ih show ?thesis by simp
  qed (use 2 in auto)
qed (auto split: if_splits)

lemma find_at_bounds:
  assumes "find_at pat s i = Some j"
  shows "i \<le> j" and "j + length pat \<le> i + length s"
proof -
  have a: "i \<le> j" "j \<le> i + length s" "prefix pat (drop (j - i) s)"
    using find_at_Some [OF assms] by auto
  then show "i \<le> j" by simp
  from a(3) have "length pat \<le> length s - (j - i)"
    using prefix_length_le by force
  with a(1,2) show "j + length pat \<le> i + length s" by linarith
qed

lemma find_at_minimal:
  "find_at pat s i = Some j \<Longrightarrow> i \<le> k \<Longrightarrow> k < j \<Longrightarrow> \<not> prefix pat (drop (k - i) s)"
proof (induction pat s i arbitrary: k rule: find_at.induct)
  case (2 pat c cs i)
  show ?case
  proof (cases "k = i")
    case True
    with "2.prems" show ?thesis by (auto split: if_splits)
  next
    case False
    then have k: "k - i = Suc (k - Suc i)" using "2.prems"(2) by simp
    from "2.prems" False have "find_at pat cs (Suc i) = Some j" "Suc i \<le> k" "\<not> prefix pat (c # cs)"
      by (auto split: if_splits)
    then have "\<not> prefix pat (drop (k - Suc i) cs)"
      using "2.IH" "2.prems"(3) by blast
    then show ?thesis by (simp add: k)
  qed
qed (auto split: if_splits)

lemma find_at_None: "find_at pat s i = None \<longleftrightarrow> \<not> sublist pat s"
  by (induction pat s i rule: find_at.induct) (auto simp: sublist_Cons_right)

lemma sublist_single: "sublist [c] s \<longleftrightarrow> c \<in> set s"
  by (induction s) (auto simp: sublist_Cons_right)

text \<open>Searching for one character, the common case in the source.\<close>

lemma prefix_single [cpp_string]: "prefix [c] s \<longleftrightarrow> (\<exists>r. s = c # r)"
  by (cases s) auto

lemma find_at_char_None [cpp_string]: "c \<notin> set s \<Longrightarrow> find_at [c] s i = None"
  by (induction s arbitrary: i) auto

lemma find_at_char_append [cpp_string]:
  "c \<notin> set u \<Longrightarrow> find_at [c] (u @ c # v) i = Some (i + length u)"
  by (induction u arbitrary: i) auto

lemma find_at_char_append_eq [cpp_string]:
  "c \<notin> set u \<Longrightarrow> find_at [c] (u @ v) i = find_at [c] v (i + length u)"
  by (induction u arbitrary: i) auto

lemma find_opt_drop [cpp_string]:
  "find_opt (u @ v) pat (length u) = find_at pat v (length u)"
  by (simp add: find_opt_def)

lemma cpp_substr_nat [cpp_string]:
  "i \<le> length s \<Longrightarrow> cpp_substr s (int i) (int n) = Inr (take n (drop i s))"
  by (simp add: cpp_substr_def min_def)

lemma cpp_substr_zero [cpp_string]: "cpp_substr s 0 (int n) = Inr (take n s)"
  using cpp_substr_nat [of 0 s n] by simp

lemma cpp_substr_long:
  "0 \<le> pos \<Longrightarrow> pos \<le> int (length s) \<Longrightarrow> int (length s) \<le> n \<Longrightarrow>
     cpp_substr s pos n = Inr (drop (nat pos) s)"
  by (simp add: cpp_substr_def min_def)

lemma cpp_substr_from_nat [cpp_string]:
  "cpp_size s \<Longrightarrow> i \<le> length s \<Longrightarrow> cpp_substr_from s (int i) = Inr (drop i s)"
  by (simp add: cpp_substr_from_def cpp_substr_long npos_def cpp_size_def)

lemma cpp_substr_ok: "pos \<le> int (length s) \<Longrightarrow> \<exists>v. cpp_substr s pos n = Inr v"
  by (simp add: cpp_substr_def)

lemma cpp_find_nat: "i \<le> length s \<Longrightarrow> cpp_find s pat (int i) = pos_of (find_at pat (drop i s) i)"
  by (simp add: cpp_find_def find_opt_def)

lemma cpp_find_zero: "cpp_find s pat 0 = pos_of (find_at pat s 0)"
  using cpp_find_nat [of 0 s pat] by simp

lemma cpp_find_bounds:
  assumes "cpp_find s pat pos \<noteq> npos" and "0 \<le> pos"
  shows "pos \<le> cpp_find s pat pos" and "cpp_find s pat pos + int (length pat) \<le> int (length s)"
proof -
  from assms obtain j where j: "find_at pat (drop (nat pos) s) (nat pos) = Some j"
    and le: "pos \<le> int (length s)" and eq: "cpp_find s pat pos = int j"
    by (cases "find_at pat (drop (nat pos) s) (nat pos)")
       (auto simp: cpp_find_def find_opt_def split: if_splits)
  from find_at_bounds [OF j] le eq assms(2)
  show "pos \<le> cpp_find s pat pos" and "cpp_find s pat pos + int (length pat) \<le> int (length s)"
    by auto
qed

lemma find_of_at_Some:
  "find_of_at cs s i = Some j \<Longrightarrow> i \<le> j \<and> j < i + length s \<and> s ! (j - i) \<in> set cs \<and>
     (\<forall>c \<in> set (take (j - i) s). c \<notin> set cs)"
proof (induction cs s i rule: find_of_at.induct)
  case (2 cs x xs i)
  show ?case
  proof (cases "x \<in> set cs")
    case False
    with 2 have ih: "Suc i \<le> j \<and> j < Suc i + length xs \<and> xs ! (j - Suc i) \<in> set cs \<and>
      (\<forall>c \<in> set (take (j - Suc i) xs). c \<notin> set cs)" by simp
    then have "j - i = Suc (j - Suc i)" by linarith
    with ih False show ?thesis by simp
  qed (use 2 in auto)
qed simp

lemma find_first_of_bounds:
  assumes "find_first_of s cs pos = Some j"
  shows "pos \<le> j" and "j < length s"
  using find_of_at_Some [of cs "drop pos s" pos j] assms
  by (auto simp: find_first_of_def)

subsection \<open>Character classes and case\<close>

text \<open>
  \<open>isspace\<close>, \<open>isdigit\<close> and \<open>tolower\<close> of the "C" locale. The source applies
  \<open>std::transform(.., ::tolower)\<close> to whole strings, which is \<open>lower\<close>.
\<close>

definition code_of :: "char \<Rightarrow> int" where
  "code_of c = of_char c"

definition is_space :: "char \<Rightarrow> bool" where
  "is_space c = (code_of c = 32 \<or> (9 \<le> code_of c \<and> code_of c \<le> 13))"

definition is_digit :: "char \<Rightarrow> bool" where
  "is_digit c = (48 \<le> code_of c \<and> code_of c \<le> 57)"

definition to_lower :: "char \<Rightarrow> char" where
  "to_lower c = (if 65 \<le> code_of c \<and> code_of c \<le> 90 then char_of (code_of c + 32) else c)"

definition to_upper :: "char \<Rightarrow> char" where
  "to_upper c = (if 97 \<le> code_of c \<and> code_of c \<le> 122 then char_of (code_of c - 32) else c)"

definition lower :: "string \<Rightarrow> string" where
  "lower s = map to_lower s"

lemma code_of_char_of: "0 \<le> n \<Longrightarrow> n < 256 \<Longrightarrow> code_of (char_of n) = n"
  by (simp add: code_of_def)

lemma to_lower_idem [simp]: "to_lower (to_lower c) = to_lower c"
proof (cases "65 \<le> code_of c \<and> code_of c \<le> 90")
  case True
  then have "code_of (to_lower c) = code_of c + 32"
    by (simp add: to_lower_def code_of_char_of)
  with True have "\<not> (65 \<le> code_of (to_lower c) \<and> code_of (to_lower c) \<le> 90)" by simp
  then show ?thesis by (simp only: to_lower_def [of "to_lower c"] if_False)
next
  case False
  then have "to_lower c = c" by (simp only: to_lower_def if_False)
  then show ?thesis by simp
qed

lemma lower_idem [simp]: "lower (lower s) = lower s"
  by (simp add: lower_def)

lemma length_lower [simp]: "length (lower s) = length s"
  by (simp add: lower_def)

subsection \<open>Decimal numbers\<close>

definition digit_value :: "char \<Rightarrow> int" where
  "digit_value c = code_of c - 48"

definition digits_value :: "string \<Rightarrow> int" where
  "digits_value ds = foldl (\<lambda>a c. 10 * a + digit_value c) 0 ds"

text \<open>Decimal output of a number that is not negative, and of any integer.\<close>

function show_nat :: "int \<Rightarrow> string" where
  "show_nat n = (if n < 10 then [char_of (48 + max 0 n)] else show_nat (n div 10) @ [char_of (48 + n mod 10)])"
  by pat_completeness auto
termination
  by (relation "measure nat") auto

declare show_nat.simps [simp del]

definition show_int :: "int \<Rightarrow> string" where
  "show_int i = (if i < 0 then CHR ''-'' # show_nat (- i) else show_nat i)"

lemma is_digit_char_of [simp]: "0 \<le> (n :: int) \<Longrightarrow> n < 10 \<Longrightarrow> is_digit (char_of (48 + n))"
  by (simp add: is_digit_def code_of_char_of)

lemma digit_value_char_of [simp]: "0 \<le> n \<Longrightarrow> n < 10 \<Longrightarrow> digit_value (char_of (48 + n)) = n"
  by (simp add: digit_value_def code_of_char_of)

lemma show_nat_digits: "\<forall>c \<in> set (show_nat n). is_digit c"
proof (induction n rule: show_nat.induct)
  case (1 n)
  show ?case
  proof (cases "n < 10")
    case False
    with "1.IH" have "\<forall>c \<in> set (show_nat (n div 10)). is_digit c" by simp
    with False show ?thesis by (subst show_nat.simps) auto
  qed (subst show_nat.simps, simp)
qed

lemma show_nat_nonempty [simp]: "show_nat n \<noteq> []"
  by (subst show_nat.simps) simp

lemma digits_value_snoc: "digits_value (ds @ [c]) = 10 * digits_value ds + digit_value c"
  by (simp add: digits_value_def)

lemma digits_value_show_nat [simp]: "0 \<le> n \<Longrightarrow> digits_value (show_nat n) = n"
proof (induction n rule: show_nat.induct)
  case (1 n)
  show ?case
  proof (cases "n < 10")
    case True
    with "1.prems" show ?thesis by (subst show_nat.simps) (simp add: digits_value_def max_def)
  next
    case False
    with "1.IH" have "digits_value (show_nat (n div 10)) = n div 10" by simp
    with False show ?thesis by (subst show_nat.simps) (simp add: digits_value_snoc)
  qed
qed

text \<open>
  The common scan of \<open>strtol\<close> and of \<open>operator>>\<close>: white space, an optional sign, then
  the longest run of digits.
\<close>

definition scan_sign :: "string \<Rightarrow> bool \<times> string" where
  "scan_sign s = (case s of [] \<Rightarrow> (False, [])
     | c # r \<Rightarrow> if c = CHR ''-'' then (True, r) else if c = CHR ''+'' then (False, r) else (False, c # r))"

definition scan_int :: "string \<Rightarrow> int option" where
  "scan_int s =
     (let (neg, u) = scan_sign (dropWhile is_space s); ds = takeWhile is_digit u
      in if ds = [] then None
         else Some (if neg then - digits_value ds else digits_value ds))"

definition LONG_MAX :: int where "LONG_MAX = 2 ^ 63 - 1"
definition LONG_MIN :: int where "LONG_MIN = - (2 ^ 63)"
definition ULONG_MAX :: int where "ULONG_MAX = 2 ^ 64 - 1"
definition INT_MAX :: int where "INT_MAX = 2 ^ 31 - 1"
definition INT_MIN :: int where "INT_MIN = - (2 ^ 31)"
definition UINT32_MAX :: int where "UINT32_MAX = 2 ^ 32 - 1"

lemmas int_limits = LONG_MAX_def LONG_MIN_def ULONG_MAX_def INT_MAX_def INT_MIN_def UINT32_MAX_def

text \<open>\<open>std::strtol(s, NULL, 10)\<close>: no digits give 0, overflow saturates.\<close>

definition strtol :: "string \<Rightarrow> int" where
  "strtol s = (case scan_int s of None \<Rightarrow> 0 | Some v \<Rightarrow> max LONG_MIN (min LONG_MAX v))"

text \<open>
  \<open>std::strtoul(s, NULL, 10)\<close>: a magnitude over \<open>ULONG_MAX\<close> saturates; a minus sign negates
  the result in the unsigned type, so "-1" is \<open>ULONG_MAX\<close>.
\<close>

definition strtoul :: "string \<Rightarrow> int" where
  "strtoul s = (case scan_int s of None \<Rightarrow> 0
     | Some v \<Rightarrow> if \<bar>v\<bar> > ULONG_MAX then ULONG_MAX else v mod 2 ^ 64)"

text \<open>Narrowing to \<open>int32_t\<close> and \<open>uint32_t\<close>, and the wrap of an \<open>int\<close> increment.\<close>

definition wrap32 :: "int \<Rightarrow> int" where
  "wrap32 x = (x + 2 ^ 31) mod 2 ^ 32 - 2 ^ 31"

definition uwrap32 :: "int \<Rightarrow> int" where
  "uwrap32 x = x mod 2 ^ 32"

definition int32 :: "int \<Rightarrow> bool" where
  "int32 x = (INT_MIN \<le> x \<and> x \<le> INT_MAX)"

lemma wrap32_id [simp]: "int32 x \<Longrightarrow> wrap32 x = x"
  by (simp add: wrap32_def int32_def int_limits)

lemma wrap32_int32: "int32 (wrap32 x)"
  by (simp add: wrap32_def int32_def int_limits)

lemma uwrap32_id: "0 \<le> x \<Longrightarrow> x \<le> UINT32_MAX \<Longrightarrow> uwrap32 x = x"
  by (simp add: uwrap32_def int_limits)

definition atoi :: "string \<Rightarrow> int" where
  "atoi s = wrap32 (strtol s)"

text \<open>
  \<open>istringstream(s) >> t\<close> for an integer \<open>t\<close> with range \<open>lo..hi\<close>: \<open>None\<close> when the
  stream fails (no digits, or out of range). For \<open>bool\<close> only 0 and 1 are accepted.
\<close>

definition extract_in :: "int \<Rightarrow> int \<Rightarrow> string \<Rightarrow> int option" where
  "extract_in lo hi s = (case scan_int s of None \<Rightarrow> None
     | Some v \<Rightarrow> if lo \<le> v \<and> v \<le> hi then Some v else None)"

definition extract_long :: "string \<Rightarrow> int option" where
  "extract_long = extract_in LONG_MIN LONG_MAX"

definition extract_int :: "string \<Rightarrow> int option" where
  "extract_int = extract_in INT_MIN INT_MAX"

definition extract_bool :: "string \<Rightarrow> bool option" where
  "extract_bool s = (case extract_long s of Some v \<Rightarrow> if v = 0 then Some False
     else if v = 1 then Some True else None | None \<Rightarrow> None)"

lemma scan_sign_digits: "u \<noteq> [] \<Longrightarrow> \<forall>c \<in> set u. is_digit c \<Longrightarrow> scan_sign u = (False, u)"
  by (cases u) (auto simp: scan_sign_def is_digit_def code_of_def)

lemma is_digit_not_space: "is_digit c \<Longrightarrow> \<not> is_space c"
  by (auto simp: is_digit_def is_space_def)

lemma dropWhile_space_digits: "\<forall>c \<in> set u. is_digit c \<Longrightarrow> dropWhile is_space u = u"
  by (cases u) (auto simp: is_digit_not_space)

lemma scan_int_show_int [simp]: "scan_int (show_int i) = Some i"
proof (cases "i < 0")
  case True
  have "dropWhile is_space (CHR ''-'' # r) = CHR ''-'' # r" for r
    by (simp add: is_space_def code_of_def)
  with True show ?thesis
    using show_nat_digits [of "- i"]
    by (simp add: scan_int_def show_int_def scan_sign_def takeWhile_eq_all_conv [THEN iffD2])
next
  case False
  then show ?thesis
    using show_nat_digits [of i]
    by (simp add: scan_int_def show_int_def dropWhile_space_digits scan_sign_digits
        takeWhile_eq_all_conv [THEN iffD2])
qed

lemma strtol_show_int: "LONG_MIN \<le> i \<Longrightarrow> i \<le> LONG_MAX \<Longrightarrow> strtol (show_int i) = i"
  by (simp add: strtol_def)

lemma strtoul_show_int: "0 \<le> i \<Longrightarrow> i \<le> ULONG_MAX \<Longrightarrow> strtoul (show_int i) = i"
  by (simp add: strtoul_def int_limits)

lemma extract_int_show_int: "int32 i \<Longrightarrow> extract_int (show_int i) = Some i"
  by (simp add: extract_int_def extract_in_def int32_def)

lemma extract_int_range: "extract_int s = Some v \<Longrightarrow> int32 v"
  by (auto simp: extract_int_def extract_in_def int32_def split: option.splits if_splits)

lemma strtoul_range: "0 \<le> strtoul s \<and> strtoul s \<le> ULONG_MAX"
  by (auto simp: strtoul_def int_limits split: option.splits)

end
