(* ===== verification/StdMap.thy ===== *)
theory StdMap
  imports Prelude
begin

text \<open>
  \<open>std::map\<close> as the code uses it: a list of entries in strictly ascending key order, with
  \<open>m[k] = v\<close> (\<open>smap_put\<close>), \<open>find\<close> (\<open>smap_get\<close>) and iteration from \<open>begin()\<close> to \<open>end()\<close> (the list
  itself). String keys are compared as C++ compares them, byte by byte.

  \<open>key_store\<close> is the interface the option values and the sender cache rely on; \<open>ordered_store\<close>
  extends it with iteration, which the formatters rely on. Both are interpreted on \<open>smap\<close>.
\<close>

type_synonym ('k, 'v) smap = "('k \<times> 'v) list"

fun smap_put :: "'k::linorder \<Rightarrow> 'v \<Rightarrow> ('k, 'v) smap \<Rightarrow> ('k, 'v) smap" where
  "smap_put k v [] = [(k, v)]"
| "smap_put k v ((k', v') # r) =
     (if k < k' then (k, v) # (k', v') # r
      else if k = k' then (k, v) # r
      else (k', v') # smap_put k v r)"

definition smap_get :: "('k, 'v) smap \<Rightarrow> 'k \<Rightarrow> 'v option" where
  "smap_get m k = map_of m k"

definition smap_sorted :: "('k::linorder, 'v) smap \<Rightarrow> bool" where
  "smap_sorted m = sorted_wrt (<) (map fst m)"

locale key_store =
  fixes empty :: "'m"
    and put :: "'k \<Rightarrow> 'v \<Rightarrow> 'm \<Rightarrow> 'm"
    and get :: "'m \<Rightarrow> 'k \<Rightarrow> 'v option"
    and invar :: "'m \<Rightarrow> bool"
  assumes get_empty: "get empty = Map.empty"
    and get_put: "invar m \<Longrightarrow> get (put k v m) = (get m)(k \<mapsto> v)"
    and invar_empty: "invar empty"
    and invar_put: "invar m \<Longrightarrow> invar (put k v m)"
begin

lemma get_put_same: "invar m \<Longrightarrow> get (put k v m) k = Some v"
  by (simp add: get_put)

lemma get_put_other: "invar m \<Longrightarrow> k \<noteq> k' \<Longrightarrow> get (put k v m) k' = get m k'"
  by (simp add: get_put)

lemma put_all_invar: "invar m \<Longrightarrow> invar (fold (\<lambda>(k, v). put k v) kvs m)"
  by (induction kvs arbitrary: m) (auto simp: invar_put)

text \<open>Writing a sequence of entries: the last write of a key wins, other keys keep their value.\<close>

lemma put_all_get: "invar m \<Longrightarrow> get (fold (\<lambda>(k, v). put k v) kvs m) = get m ++ map_of (rev kvs)"
proof (induction kvs arbitrary: m)
  case (Cons kv kvs)
  obtain k v where kv: "kv = (k, v)" by (cases kv)
  with Cons.prems have "get (fold (\<lambda>(k, v). put k v) kvs (put k v m)) = get (put k v m) ++ map_of (rev kvs)"
    by (intro Cons.IH) (simp add: invar_put)
  with Cons.prems kv show ?case by (simp add: get_put map_add_assoc)
qed simp

text \<open>Writing a default only where a key is missing, the loop the option parser runs at its end.\<close>

lemma default_get:
  assumes "invar m"
  shows "get (if get m k = None then put k v m else m) = (\<lambda>k'. if k' = k \<and> get m k = None then Some v else get m k')"
  using assms by (auto simp: get_put)

end

locale ordered_store = key_store empty put get invar
  for empty :: "'m" and put :: "'k::linorder \<Rightarrow> 'v \<Rightarrow> 'm \<Rightarrow> 'm" and get invar +
  fixes entries :: "'m \<Rightarrow> ('k \<times> 'v) list"
  assumes entries_get: "invar m \<Longrightarrow> map_of (entries m) = get m"
    and entries_sorted: "invar m \<Longrightarrow> sorted_wrt (<) (map fst (entries m))"
begin

lemma entries_distinct: "invar m \<Longrightarrow> distinct (map fst (entries m))"
  using entries_sorted [of m] strict_sorted_iff by blast

text \<open>Iteration visits every stored entry exactly once.\<close>

lemma entries_set: "invar m \<Longrightarrow> (k, v) \<in> set (entries m) \<longleftrightarrow> get m k = Some v"
  using entries_distinct [of m] entries_get [of m] by (metis map_of_eq_Some_iff)

lemma entries_keys: "invar m \<Longrightarrow> set (map fst (entries m)) = dom (get m)"
  using entries_get [of m] dom_map_of_conv_image_fst [of "entries m"] by simp

end

subsection \<open>The list is such a store\<close>

lemma smap_put_keys: "fst ` set (smap_put k v m) = insert k (fst ` set m)"
  by (induction k v m rule: smap_put.induct) auto

lemma smap_sorted_put: "smap_sorted m \<Longrightarrow> smap_sorted (smap_put k v m)"
proof (induction k v m rule: smap_put.induct)
  case (2 k v k' v' r)
  then have "\<forall>x \<in> fst ` set r. k' < x" "smap_sorted r" by (auto simp: smap_sorted_def)
  with 2 show ?case
    using smap_put_keys [of k v r] by (auto simp: smap_sorted_def)
qed (simp add: smap_sorted_def)

lemma smap_get_put: "smap_get (smap_put k v m) = (smap_get m)(k \<mapsto> v)"
  by (induction k v m rule: smap_put.induct) (auto simp: smap_get_def fun_eq_iff)

lemma smap_empty: "smap_get [] = Map.empty" "smap_sorted []"
  by (auto simp: smap_get_def smap_sorted_def)

interpretation smap: ordered_store "[]" smap_put smap_get smap_sorted "\<lambda>m. m"
proof unfold_locales
qed (auto simp: smap_get_put smap_sorted_put smap_empty, auto simp: smap_get_def smap_sorted_def)

end
