(* ===== verification/StlUtils.thy ===== *)
theory StlUtils
  imports StdMap
begin

text \<open>
  \<open>STLUtils.h\<close> (src/src/common): \<open>split\<close> with its separator set, \<open>convertToMap\<close> and
  \<open>convertPropertiesToMap\<close> with the bound \<open>input.size() - 1\<close> in wrapped arithmetic. The loops are
  the source's, over positions; \<open>split_fields\<close> is the reference they are compared with.
\<close>

subsection \<open>Splitting\<close>

function split_loop :: "string \<Rightarrow> string \<Rightarrow> nat \<Rightarrow> string list \<Rightarrow> string list" where
  "split_loop input sep cur acc =
     (case find_first_of input sep cur of
        Some n \<Rightarrow> split_loop input sep (Suc n) (acc @ [take (n - cur) (drop cur input)])
      | None \<Rightarrow> if cur = 0 \<or> cur < length input then acc @ [drop cur input] else acc)"
  by pat_completeness auto
termination
proof (relation "measure (\<lambda>(input, sep, cur, acc). Suc (length input) - cur)")
  show "((input, sep, Suc n, acc @ [take (n - cur) (drop cur input)]), input, sep, cur, acc)
      \<in> measure (\<lambda>(input, sep, cur, acc). Suc (length input) - cur)"
    if "find_first_of input sep cur = Some n" for input sep cur acc n
    using find_first_of_bounds [OF that] by simp
qed simp

declare split_loop.simps [simp del]

definition split :: "string \<Rightarrow> string \<Rightarrow> string list" where
  "split input sep = split_loop input sep 0 []"

text \<open>
  The reference: the fields between separators, where an empty field at the very end is dropped unless
  it is the only one.
\<close>

fun split_rest :: "string \<Rightarrow> string \<Rightarrow> string list" where
  "split_rest sep [] = [[]]"
| "split_rest sep (c # s) =
     (if c \<in> set sep then [] # split_rest sep s
      else case split_rest sep s of f # fs \<Rightarrow> (c # f) # fs | [] \<Rightarrow> [[c]])"

definition split_fields :: "string \<Rightarrow> string \<Rightarrow> string list" where
  "split_fields sep s =
     (let fs = split_rest sep s
      in if length fs > 1 \<and> last fs = [] then butlast fs else fs)"

lemma split_rest_nonempty [simp]: "split_rest sep s \<noteq> []"
  by (induction sep s rule: split_rest.induct) (auto split: list.splits)

lemma split_rest_None: "find_of_at sep s i = None \<Longrightarrow> split_rest sep s = [s]"
  by (induction sep s i rule: find_of_at.induct) (auto split: if_splits)

lemma split_rest_Some:
  "find_of_at sep s i = Some j \<Longrightarrow>
     split_rest sep s = take (j - i) s # split_rest sep (drop (Suc j - i) s)"
proof (induction sep s i rule: find_of_at.induct)
  case (2 sep c s i)
  show ?case
  proof (cases "c \<in> set sep")
    case False
    with 2 have j: "find_of_at sep s (Suc i) = Some j" by simp
    with find_of_at_Some [OF j] have d: "j - i = Suc (j - Suc i)" "Suc j - i = Suc (Suc j - Suc i)" by auto
    from False j 2 have "split_rest sep s = take (j - Suc i) s # split_rest sep (drop (Suc j - Suc i) s)"
      by simp
    with False d show ?thesis by simp
  qed (use 2 in auto)
qed simp

lemma split_loop_rest:
  "cur \<le> length input \<Longrightarrow> split_loop input sep cur acc =
     acc @ (let fs = split_rest sep (drop cur input)
            in if cur \<noteq> 0 \<and> last fs = [] then butlast fs
               else if length fs > 1 \<and> last fs = [] then butlast fs else fs)"
proof (induction input sep cur acc rule: split_loop.induct)
  case (1 input sep cur acc)
  show ?case
  proof (cases "find_first_of input sep cur")
    case None
    then have "split_rest sep (drop cur input) = [drop cur input]"
      by (auto simp: find_first_of_def intro: split_rest_None)
    with None 1(2) show ?thesis by (subst split_loop.simps) auto
  next
    case (Some n)
    have n: "cur \<le> n" "n < length input" using find_first_of_bounds [OF Some] by auto
    have r: "split_rest sep (drop cur input) = take (n - cur) (drop cur input) # split_rest sep (drop (Suc n) input)"
      using split_rest_Some [of sep "drop cur input" cur n] Some n(1) by (simp add: find_first_of_def)
    show ?thesis
      using 1(1) [OF Some] n Some by (subst split_loop.simps) (auto simp: r Let_def)
  qed
qed

theorem split_fields_eq: "split input sep = split_fields sep input"
  using split_loop_rest [of 0 input sep "[]"] by (simp add: split_def split_fields_def)

lemma split_nonempty [simp]: "split input sep \<noteq> []"
proof -
  have "butlast fs \<noteq> []" if "length fs > 1" for fs :: "string list"
    using that by (cases fs rule: rev_cases) auto
  then show ?thesis by (simp add: split_fields_eq split_fields_def Let_def)
qed

fun join_with :: "string \<Rightarrow> string list \<Rightarrow> string" where
  "join_with sep [] = []"
| "join_with sep [x] = x"
| "join_with sep (x # y # r) = x @ sep @ join_with sep (y # r)"

definition no_sep :: "string \<Rightarrow> string \<Rightarrow> bool" where
  "no_sep sep s = list_all (\<lambda>c. c \<notin> set sep) s"

lemma no_sep_simps [simp]:
  "no_sep sep []" "no_sep sep (c # u) \<longleftrightarrow> c \<notin> set sep \<and> no_sep sep u"
  "no_sep sep (u @ v) \<longleftrightarrow> no_sep sep u \<and> no_sep sep v"
  "no_sep (a # b # r) u \<longleftrightarrow> no_sep [a] u \<and> no_sep (b # r) u"
  by (auto simp: no_sep_def list_all_iff)

lemma split_rest_free: "no_sep sep u \<Longrightarrow> split_rest sep u = [u]"
  by (induction u) (auto simp: no_sep_def)

lemma split_rest_append: "no_sep sep u \<Longrightarrow> c \<in> set sep \<Longrightarrow> split_rest sep (u @ c # v) = u # split_rest sep v"
  by (induction u) (auto simp: no_sep_def)

lemma split_rest_join:
  "list_all (no_sep [c]) fs \<Longrightarrow> fs \<noteq> [] \<Longrightarrow> split_rest [c] (join_with [c] fs) = fs"
  by (induction "[c]" fs rule: join_with.induct) (auto simp: split_rest_append split_rest_free)

lemma split_join:
  assumes "list_all (no_sep [c]) fs" and "fs \<noteq> []" and "length fs = 1 \<or> last fs \<noteq> []"
  shows "split (join_with [c] fs) [c] = fs"
  using assms by (auto simp: split_fields_eq split_fields_def split_rest_join Let_def)

lemma split_free [simp]: "no_sep sep u \<Longrightarrow> split u sep = [u]"
  by (simp add: split_fields_eq split_fields_def split_rest_free)

lemma split_pair:
  "no_sep [c] u \<Longrightarrow> no_sep [c] v \<Longrightarrow> v \<noteq> [] \<Longrightarrow> split (u @ c # v) [c] = [u, v]"
  by (simp add: split_fields_eq split_fields_def split_rest_append split_rest_free)

subsection \<open>Maps from lists of properties\<close>

function convert_loop :: "(string \<Rightarrow> 'v) \<Rightarrow> nat \<Rightarrow> string list \<Rightarrow> (string, 'v) smap \<Rightarrow> (string, 'v) smap result" where
  "convert_loop conv i input out =
     (if int i < sz_sub (int (length input)) 1
      then if Suc i < length input
           then convert_loop conv (i + 2) input (smap_put (input ! i) (conv (input ! Suc i)) out)
           else Inl Bad_access
      else Inr out)"
  by pat_completeness auto
termination
  by (relation "measure (\<lambda>(conv, i, input, out). length input - i)") auto

declare convert_loop.simps [simp del]

definition convert_to_map :: "(string \<Rightarrow> 'v) \<Rightarrow> string list \<Rightarrow> (string, 'v) smap \<Rightarrow> (string, 'v) smap result" where
  "convert_to_map conv input out = convert_loop conv 0 input out"

fun convert_properties ::
    "(string \<Rightarrow> 'v) \<Rightarrow> string \<Rightarrow> string list \<Rightarrow> (string, 'v) smap \<Rightarrow> (string, 'v) smap result" where
  "convert_properties conv sep [] out = Inr out"
| "convert_properties conv sep (p # ps) out =
     res_bind (convert_to_map conv (split p sep) out) (convert_properties conv sep ps)"

fun pair_up :: "'a list \<Rightarrow> ('a \<times> 'a) list" where
  "pair_up (k # v # r) = (k, v) # pair_up r"
| "pair_up _ = []"

definition put_all :: "('k::linorder \<times> 'v) list \<Rightarrow> ('k, 'v) smap \<Rightarrow> ('k, 'v) smap" where
  "put_all kvs m = fold (\<lambda>(k, v). smap_put k v) kvs m"

lemma put_all_simps [simp]:
  "put_all [] m = m" "put_all ((k, v) # r) m = put_all r (smap_put k v m)"
  "put_all (xs @ ys) m = put_all ys (put_all xs m)"
  by (simp_all add: put_all_def)

lemma put_all_sorted [simp]: "smap_sorted m \<Longrightarrow> smap_sorted (put_all kvs m)"
  unfolding put_all_def by (rule smap.put_all_invar)

lemma put_all_lookup: "smap_sorted m \<Longrightarrow> smap_get (put_all kvs m) = smap_get m ++ map_of (rev kvs)"
  unfolding put_all_def by (rule smap.put_all_get)

lemma pair_up_nth: "Suc i < length xs \<Longrightarrow> pair_up (drop i xs) = (xs ! i, xs ! Suc i) # pair_up (drop (i + 2) xs)"
  by (simp add: Cons_nth_drop_Suc [symmetric])

lemma pair_up_short: "length xs \<le> Suc i \<Longrightarrow> pair_up (drop i xs) = []"
proof -
  assume "length xs \<le> Suc i"
  then have "length (drop i xs) < 2" by simp
  then show ?thesis by (cases "drop i xs" rule: pair_up.cases) auto
qed

lemma convert_loop_pairs:
  "input \<noteq> [] \<Longrightarrow> int (length input) < 2 ^ 64 \<Longrightarrow>
     convert_loop conv i input out = Inr (put_all (map (apsnd conv) (pair_up (drop i input))) out)"
proof (induction conv i input out rule: convert_loop.induct)
  case (1 conv i input out)
  have s: "sz_sub (int (length input)) 1 = int (length input) - 1"
    using "1.prems" by (intro sz_sub_small) (cases input, auto)
  show ?case
  proof (cases "Suc i < length input")
    case True
    then have lt: "int i < sz_sub (int (length input)) 1" by (simp add: s)
    from "1.IH" [OF lt True "1.prems"] show ?thesis
      using lt True by (subst convert_loop.simps) (simp add: pair_up_nth)
  next
    case False
    then have "\<not> int i < sz_sub (int (length input)) 1" by (simp add: s)
    with False show ?thesis by (subst convert_loop.simps) (simp add: pair_up_short)
  qed
qed

lemma convert_to_map_pairs:
  "input \<noteq> [] \<Longrightarrow> int (length input) < 2 ^ 64 \<Longrightarrow>
     convert_to_map conv input out = Inr (put_all (map (apsnd conv) (pair_up input)) out)"
  by (simp add: convert_to_map_def convert_loop_pairs)

text \<open>On the empty vector the bound wraps and the loop reads outside the vector.\<close>

lemma convert_to_map_empty: "convert_to_map conv [] out = Inl Bad_access"
  by (simp add: convert_to_map_def convert_loop.simps sz_sub_def)

lemma split_rest_length: "length (split_rest sep s) \<le> Suc (length s)"
  by (induction sep s rule: split_rest.induct) (auto split: list.splits)

lemma split_length: "length (split s sep) \<le> Suc (length s)"
  using split_rest_length [of sep s]
  by (auto simp: split_fields_eq split_fields_def Let_def)

lemma convert_properties_eq:
  "list_all cpp_size ps \<Longrightarrow> convert_properties conv sep ps out =
     Inr (put_all (map (apsnd conv) (concat (map (\<lambda>p. pair_up (split p sep)) ps))) out)"
proof (induction conv sep ps out rule: convert_properties.induct)
  case (2 conv sep p ps out)
  then have "int (length (split p sep)) < 2 ^ 64"
    using split_length [of p sep] by (simp add: cpp_size_def)
  with 2 show ?case by (simp add: convert_to_map_pairs)
qed simp

text \<open>
  C34. The option text of a map, \<open>k1:v1;k2:v2;...\<close>, comes back as the map of its pairs (the last value of a
  repeated key wins), for keys and values without separators and values that are not empty; reading it
  never leaves the vectors.
\<close>

definition render_map :: "(string \<times> string) list \<Rightarrow> string" where
  "render_map kvs = join_with '';'' (map (\<lambda>(k, v). k @ '':'' @ v) kvs)"

theorem map_option_roundtrip:
  assumes "list_all (\<lambda>(k, v). no_sep '';:'' k \<and> no_sep '';:'' v \<and> v \<noteq> [] \<and> cpp_size (k @ CHR '':'' # v)) kvs"
    and "kvs \<noteq> []"
  shows "\<exists>m. convert_properties id '':'' (split (render_map kvs) '';'') [] = Inr m \<and> smap_sorted m
     \<and> smap_get m = map_of (rev kvs)"
proof -
  let ?ps = "map (\<lambda>(k, v). k @ '':'' @ v) kvs"
  have free: "list_all (no_sep '';'') ?ps"
    using assms(1) by (simp add: list_all_iff split_beta)
  have last: "last ?ps \<noteq> []" using assms(2) by (simp add: last_map split_beta)
  have ne: "?ps \<noteq> []" using assms(2) by simp
  have sp: "split (render_map kvs) '';'' = ?ps"
    unfolding render_map_def by (rule split_join [OF free ne disjI2 [OF last]])
  have cc: "concat (map (\<lambda>p. pair_up (split p '':'')) ?ps) = kvs"
    using assms(1)
  proof (induction kvs)
    case (Cons kv kvs)
    then show ?case by (cases kv) (simp add: split_pair)
  qed simp
  have sz: "list_all cpp_size ?ps" using assms(1) by (simp add: list_all_iff split_beta)
  have "convert_properties id '':'' (split (render_map kvs) '';'') [] = Inr (put_all kvs [])"
    unfolding sp convert_properties_eq [OF sz] cc by simp
  then show ?thesis
    using put_all_lookup [of "[]" kvs] by (auto simp: smap_empty)
qed

lemma map_option_roundtrip_witness:
  "\<exists>m. convert_properties id '':'' (split ''b:2;a:1;b:3'' '';'') [] = Inr m \<and> smap_sorted m
     \<and> smap_get m = map_of [(''b'', ''3''), (''a'', ''1''), (''b'', ''2'')]"
proof -
  have "list_all (\<lambda>(k, v). no_sep '';:'' k \<and> no_sep '';:'' v \<and> v \<noteq> [] \<and> cpp_size (k @ CHR '':'' # v))
      [(''b'', ''2''), (''a'', ''1''), (''b'', ''3'')]" by code_simp
  moreover have "render_map [(''b'', ''2''), (''a'', ''1''), (''b'', ''3'')] = ''b:2;a:1;b:3''" by code_simp
  ultimately show ?thesis
    using map_option_roundtrip [of "[(''b'', ''2''), (''a'', ''1''), (''b'', ''3'')]"] by simp
qed

end
