(* ===== verification/Callback.thy ===== *)
theory Callback
  imports StlUtils
begin

text \<open>
  \<open>StringAppendCallback\<close> (src/src/common/options/modern): the option callback behind
  \<open>--msg-property\<close>, \<open>--msg-content-list-item\<close>, \<open>--msg-content-map-item\<close> and the connection
  URLs. It keeps every value of a repeated option in one string, each followed by a semicolon, and
  \<open>getStrings\<close> cuts that string again.
\<close>

record append_callback =
  cb_str :: string

definition callback_new :: append_callback where
  "callback_new = \<lparr>cb_str = ''''\<rparr>"

definition cb_append :: "string \<Rightarrow> append_callback \<Rightarrow> append_callback" where
  "cb_append s c =
     (if 0 < length s then c\<lparr>cb_str := cb_str c @ s @ '';''\<rparr>
      else c\<lparr>cb_str := cb_str c @ [CHR 0x27, CHR 0x27, CHR '';'']\<rparr>)"

text \<open>\<open>operator()(option, opt, val, parser)\<close>: only the value is used.\<close>

definition cb_call :: "string \<Rightarrow> string \<Rightarrow> append_callback \<Rightarrow> append_callback" where
  "cb_call opt val c = cb_append val c"

definition quotes :: string where
  "quotes = [CHR 0x27, CHR 0x27]"

definition cb_part :: "string \<Rightarrow> string list" where
  "cb_part p = (if p = quotes then [''''] else if 0 < length p then [p] else [])"

function cb_loop :: "string \<Rightarrow> nat \<Rightarrow> string list \<Rightarrow> string list result" where
  "cb_loop str start strings =
     (let colon = cpp_find str '';'' (int start)
      in res_bind (cpp_substr str (int start) (sz_sub colon (int start))) (\<lambda>p.
         if colon \<noteq> npos then cb_loop str (Suc (nat colon)) (strings @ cb_part p)
         else Inr (strings @ cb_part p)))"
  by pat_completeness auto
termination
proof (relation "measure (\<lambda>(str, start, strings). Suc (length str) - start)")
  fix str start strings x p
  assume x: "x = cpp_find str '';'' (int start)" "x \<noteq> npos"
  then have "cpp_find str '';'' (int start) \<noteq> npos" by simp
  from cpp_find_bounds [OF this] x
  show "((str, Suc (nat x), strings @ cb_part p), str, start, strings)
    \<in> measure (\<lambda>(str, start, strings). Suc (length str) - start)" by auto
qed simp

declare cb_loop.simps [simp del]

definition get_strings :: "append_callback \<Rightarrow> string list result" where
  "get_strings c =
     (let str = cb_str c
      in if cpp_find str '';'' 0 \<noteq> npos then cb_loop str 0 []
         else if 0 < length str then Inr [str] else Inr [])"

subsection \<open>What comes back\<close>

lemma cb_loop_parts:
  "cpp_size str \<Longrightarrow> start \<le> length str \<Longrightarrow>
     cb_loop str start strings = Inr (strings @ concat (map cb_part (split_rest '';'' (drop start str))))"
proof (induction str start strings rule: cb_loop.induct)
  case (1 str start strings)
  let ?s = "drop start str"
  show ?case
  proof (cases "find_at '';'' ?s start")
    case None
    then have free: "no_sep '';'' ?s"
      by (auto simp: find_at_None no_sep_def list_all_iff sublist_single)
    from None 1(3) have c: "cpp_find str '';'' (int start) = npos" by (simp add: cpp_find_nat)
    have "cpp_substr str (int start) (sz_sub npos (int start)) = Inr ?s"
      using 1(2,3) by (subst cpp_substr_long) (simp_all add: cpp_size_def npos_def sz_sub_small)
    with c free show ?thesis
      by (subst cb_loop.simps) (simp add: Let_def split_rest_free)
  next
    case (Some j)
    note b = find_at_bounds [OF Some] find_at_Some [OF Some]
    have jl: "start \<le> j" "j < length str" using b 1(3) by auto
    then have js: "j - start + start = j" by simp
    have d: "?s = take (j - start) ?s @ CHR '';'' # drop (Suc j) str"
    proof -
      have "prefix '';'' (drop (j - start) ?s)" using b by (simp only: simp_thms)
      then obtain r where r: "drop (j - start) ?s = CHR '';'' # r" by (auto simp: prefix_single)
      then have "drop j str = CHR '';'' # r" by (simp only: drop_drop js)
      then have "r = drop (Suc j) str" by (metis drop_Suc list.sel(3) tl_drop)
      with r show ?thesis by (metis append_take_drop_id)
    qed
    have free: "no_sep '';'' (take (j - start) ?s)"
    proof -
      have "?s ! k \<noteq> CHR '';''" if "k < j - start" for k
      proof -
        have "k < length ?s" using that jl by simp
        then have "drop k ?s = ?s ! k # drop (Suc k) ?s" by (rule Cons_nth_drop_Suc [symmetric])
        moreover have "start + k < j" using that by simp
        ultimately show ?thesis using find_at_minimal [OF Some, of "start + k"] by auto
      qed
      then show ?thesis by (auto simp: no_sep_def list_all_iff in_set_conv_nth)
    qed
    have c: "cpp_find str '';'' (int start) = int j" using Some 1(3) by (simp add: cpp_find_nat)
    have nn: "int j \<noteq> npos" using jl 1(2) by (simp add: cpp_size_def npos_def)
    have "sz_sub (int j) (int start) = int (j - start)"
      using jl 1(2) by (simp add: sz_sub_small cpp_size_def of_nat_diff)
    then have sub: "cpp_substr str (int start) (sz_sub (int j) (int start)) = Inr (take (j - start) ?s)"
      using jl by (simp add: cpp_substr_nat del: of_nat_diff)
    have "cb_loop str (Suc j) (strings @ cb_part (take (j - start) ?s)) =
      Inr ((strings @ cb_part (take (j - start) ?s)) @ concat (map cb_part (split_rest '';'' (drop (Suc j) str))))"
      using 1(1) [OF refl, of "take (j - start) ?s"] c nn 1(2) jl by simp
    moreover have "split_rest '';'' ?s = take (j - start) ?s # split_rest '';'' (drop (Suc j) str)"
      by (subst d, subst split_rest_append [OF free]) simp_all
    ultimately show ?thesis
      using c nn sub by (subst cb_loop.simps) (simp add: Let_def)
  qed
qed

definition cb_all :: "string list \<Rightarrow> append_callback" where
  "cb_all vals = fold (cb_call ''opt'') vals callback_new"

definition cb_value :: "string \<Rightarrow> string" where
  "cb_value v = (if v = '''' then quotes else v) @ '';''"

lemma cb_all_str: "cb_str (fold (cb_call opt) vals c) = cb_str c @ concat (map cb_value vals)"
  by (induction vals arbitrary: c) (auto simp: cb_call_def cb_append_def cb_value_def quotes_def)

lemma split_rest_cut: "split_rest [d] (u @ d # v) = split_rest [d] u @ split_rest [d] v"
  by (induction u) (auto simp: neq_Nil_conv split: list.splits)

lemma parts_values:
  "concat (map cb_part (split_rest '';'' (concat (map cb_value vals)))) =
     concat (map (\<lambda>v. if v = '''' then [''''] else concat (map cb_part (split_rest '';'' v))) vals)"
proof (induction vals)
  case (Cons v vals)
  have "split_rest '';'' (cb_value v @ r) = split_rest '';'' (if v = '''' then quotes else v) @ split_rest '';'' r" for r
    by (simp add: cb_value_def split_rest_cut)
  then have "concat (map cb_part (split_rest '';'' (concat (map cb_value (v # vals))))) =
    concat (map cb_part (split_rest '';'' (if v = '''' then quotes else v))) @
    concat (map cb_part (split_rest '';'' (concat (map cb_value vals))))" by simp
  also have "concat (map cb_part (split_rest '';'' quotes)) = ['''']"
    by (simp add: quotes_def cb_part_def)
  ultimately show ?case using Cons.IH by simp
qed (simp add: cb_part_def quotes_def)

text \<open>Whatever values were appended: each comes back cut at its semicolons, empty pieces dropped.\<close>

lemma get_strings_all:
  assumes "cpp_size (cb_str (cb_all vals))"
  shows "get_strings (cb_all vals) =
    Inr (concat (map (\<lambda>v. if v = '''' then [''''] else concat (map cb_part (split_rest '';'' v))) vals))"
proof (cases vals)
  case Nil
  then show ?thesis by (simp add: get_strings_def cb_all_def callback_new_def cpp_find_zero)
next
  case (Cons v vs)
  have str: "cb_str (cb_all vals) = concat (map cb_value vals)"
    by (simp add: cb_all_def cb_all_str callback_new_def)
  with Cons have "CHR '';'' \<in> set (cb_str (cb_all vals))" by (simp add: cb_value_def)
  then have "sublist '';'' (cb_str (cb_all vals))" by (simp add: sublist_single)
  then obtain j where "find_at '';'' (cb_str (cb_all vals)) 0 = Some j"
    using find_at_None by blast
  then have "cpp_find (cb_str (cb_all vals)) '';'' 0 \<noteq> npos"
    using find_at_bounds assms by (fastforce simp: cpp_find_zero cpp_size_def npos_def)
  then show ?thesis
    using assms by (simp add: get_strings_def cb_loop_parts) (simp add: str parts_values)
qed

text \<open>
  Every value of a repeated callback option comes back unchanged and in order, empty values included,
  provided no value holds a semicolon and none is two quotes.
\<close>

theorem callback_roundtrip:
  assumes "cpp_size (cb_str (cb_all vals))" and "\<forall>v \<in> set vals. no_sep '';'' v \<and> v \<noteq> quotes"
  shows "get_strings (cb_all vals) = Inr vals"
proof -
  have "concat (map (\<lambda>v. if v = '''' then [''''] else concat (map cb_part (split_rest '';'' v))) vals) = vals"
    using assms(2) by (induction vals) (auto simp: split_rest_free cb_part_def)
  with get_strings_all [OF assms(1)] show ?thesis by simp
qed

lemma callback_roundtrip_witness:
  "get_strings (cb_all [''a=1'', '''', ''b~2'']) = Inr [''a=1'', '''', ''b~2'']"
proof -
  have "cpp_size (cb_str (cb_all [''a=1'', '''', ''b~2'']))" by code_simp
  moreover have "\<forall>v \<in> set [''a=1'', '''', ''b~2'']. no_sep '';'' v \<and> v \<noteq> quotes" by code_simp
  ultimately show ?thesis by (rule callback_roundtrip)
qed

text \<open>
  A value that holds a semicolon does not come back: it is cut in two, so one option on the command
  line counts as two items.
\<close>

theorem callback_splits_semicolon:
  assumes "cpp_size (a @ b @ '';;'')" and "no_sep '';'' a" and "no_sep '';'' b"
    and "a \<noteq> ''''" and "b \<noteq> ''''" and "a \<noteq> quotes" and "b \<noteq> quotes"
  shows "get_strings (cb_all [a @ '';'' @ b]) = Inr [a, b]"
proof -
  have "cb_str (cb_all [a @ '';'' @ b]) = a @ '';'' @ b @ '';''"
    by (simp add: cb_all_def cb_call_def cb_append_def callback_new_def)
  then have "cpp_size (cb_str (cb_all [a @ '';'' @ b]))" using assms(1) by (simp add: cpp_size_def)
  from get_strings_all [OF this] assms show ?thesis
    by (simp add: split_rest_append split_rest_free cb_part_def)
qed

lemma callback_splits_semicolon_witness:
  "get_strings (cb_all [''k=a;b'']) = Inr [''k=a'', ''b'']"
proof -
  have "cpp_size (''k=a'' @ ''b'' @ '';;'')" "no_sep '';'' ''k=a''" "no_sep '';'' ''b''"
    "''k=a'' \<noteq> quotes" "''b'' \<noteq> quotes" by code_simp+
  then show ?thesis using callback_splits_semicolon [of "''k=a''" "''b''"] by simp
qed

end
