(* ===== verification/TimerM.thy ===== *)
theory TimerM
  imports Prelude
begin

text \<open>
  \<open>Timer\<close> (src/src/common/Timer.h and Timer.cpp), the count-down behind \<open>--timeout\<close> and
  \<open>--duration\<close>, and the interface the event handlers rely on (\<open>countdown\<close>).
\<close>

record timer =
  t_timeout :: int
  t_remaining :: int
  t_name :: string

definition FOREVER :: int where
  "FOREVER = - 1"

definition timer_new :: "int \<Rightarrow> string \<Rightarrow> timer" where
  "timer_new t name = \<lparr>t_timeout = t, t_remaining = t, t_name = name\<rparr>"

definition timer_reset :: "timer \<Rightarrow> timer" where
  "timer_reset t = t\<lparr>t_remaining := t_timeout t\<rparr>"

definition is_expired :: "timer \<Rightarrow> bool" where
  "is_expired t = (if t_timeout t = FOREVER then False else t_remaining t = 0)"

definition timer_dec :: "timer \<Rightarrow> timer result" where
  "timer_dec t =
     (if t_timeout t = FOREVER then Inr t
      else let t' = t\<lparr>t_remaining := wrap32 (t_remaining t - 1)\<rparr>
           in if t_remaining t' < 0 then Inl (Timer_expired (''The timer '' @ t_name t @ '' has expired''))
              else Inr t')"

text \<open>\<open>timer--\<close>: the copy taken before the decrement, and the timer after it.\<close>

definition timer_postdec :: "timer \<Rightarrow> (timer \<times> timer) result" where
  "timer_postdec t =
     (if t_timeout t = FOREVER then Inr (t, t)
      else let tmp = t in res_bind (timer_dec t) (\<lambda>t'. Inr (tmp, t')))"

lemmas timer_defs = timer_new_def timer_reset_def is_expired_def timer_dec_def timer_postdec_def FOREVER_def

subsection \<open>The interface of the handlers\<close>

text \<open>
  The laws of a count-down: it can run for ever or holds a non-negative rest; it has expired when the rest
  is 0; a tick of a timer that has not expired does not fail and takes one from the rest. The client of the
  interface is the handlers' loop: tick, as long as the timer has not expired.
\<close>

locale countdown =
  fixes expired :: "'t \<Rightarrow> bool"
    and tick :: "'t \<Rightarrow> 't result"
    and restart :: "'t \<Rightarrow> 't"
    and rest :: "'t \<Rightarrow> nat option"
    and ok :: "'t \<Rightarrow> bool"
  assumes expired_rest: "ok t \<Longrightarrow> expired t \<longleftrightarrow> rest t = Some 0"
    and tick_ok: "ok t \<Longrightarrow> \<not> expired t \<Longrightarrow> \<exists>t'. tick t = Inr t' \<and> ok t' \<and> rest t' = map_option (\<lambda>n. n - 1) (rest t)"
    and restart_ok: "ok t \<Longrightarrow> ok (restart t)"
begin

fun guarded_ticks :: "nat \<Rightarrow> 't \<Rightarrow> 't result" where
  "guarded_ticks 0 t = Inr t"
| "guarded_ticks (Suc n) t = (if expired t then Inr t else res_bind (tick t) (guarded_ticks n))"

lemma guarded_ticks_ok: "ok t \<Longrightarrow> \<exists>t'. guarded_ticks n t = Inr t' \<and> ok t'"
proof (induction n arbitrary: t)
  case (Suc n)
  show ?case
  proof (cases "expired t")
    case False
    from tick_ok [OF Suc.prems False] obtain t1 where "tick t = Inr t1" "ok t1" by blast
    with Suc.IH [of t1] False show ?thesis by auto
  qed (use Suc.prems in auto)
qed auto

lemma guarded_ticks_rest:
  "ok t \<Longrightarrow> guarded_ticks n t = Inr t' \<Longrightarrow> rest t' = map_option (\<lambda>k. k - n) (rest t)"
proof (induction n arbitrary: t)
  case 0
  then show ?case by (simp add: option.map_ident)
next
  case (Suc n)
  show ?case
  proof (cases "expired t")
    case True
    with Suc.prems expired_rest show ?thesis by auto
  next
    case False
    from tick_ok [OF Suc.prems(1) False] obtain t1
      where t1: "tick t = Inr t1" "ok t1" "rest t1 = map_option (\<lambda>n. n - 1) (rest t)" by blast
    with Suc.IH [of t1] Suc.prems(2) False show ?thesis by (cases "rest t") auto
  qed
qed

lemma guarded_ticks_expire:
  assumes "ok t" and "rest t = Some k" and "guarded_ticks n t = Inr t'"
  shows "expired t' \<longleftrightarrow> k \<le> n"
proof -
  have "ok t'" using guarded_ticks_ok [OF assms(1), of n] assms(3) by auto
  with guarded_ticks_rest [OF assms(1,3)] assms(2) expired_rest [of t'] show ?thesis by auto
qed

end

subsection \<open>The timer is such a count-down\<close>

definition timer_rest :: "timer \<Rightarrow> nat option" where
  "timer_rest t = (if t_timeout t = FOREVER then None else Some (nat (t_remaining t)))"

definition timer_ok :: "timer \<Rightarrow> bool" where
  "timer_ok t = (t_timeout t = FOREVER \<or>
     (0 \<le> t_timeout t \<and> t_timeout t \<le> INT_MAX \<and> 0 \<le> t_remaining t \<and> t_remaining t \<le> t_timeout t))"

lemma timer_new_ok: "t = FOREVER \<or> 0 \<le> t \<Longrightarrow> t \<le> INT_MAX \<Longrightarrow> timer_ok (timer_new t name)"
  by (auto simp: timer_ok_def timer_new_def)

lemma timer_dec_step:
  assumes "timer_ok t" and "\<not> is_expired t"
  shows "\<exists>t'. timer_dec t = Inr t' \<and> timer_ok t' \<and> timer_rest t' = map_option (\<lambda>n. n - 1) (timer_rest t)"
proof (cases "t_timeout t = FOREVER")
  case False
  with assms have r: "1 \<le> t_remaining t" "t_remaining t \<le> INT_MAX"
    by (auto simp: timer_ok_def is_expired_def)
  then have "wrap32 (t_remaining t - 1) = t_remaining t - 1"
    by (intro wrap32_id) (simp add: int32_def int_limits)
  with r False assms(1) show ?thesis
    by (auto simp: timer_dec_def timer_ok_def timer_rest_def Let_def nat_diff_distrib)
qed (simp add: assms timer_dec_def timer_rest_def)

interpretation timer: countdown is_expired timer_dec timer_reset timer_rest timer_ok
proof unfold_locales
  show "timer_ok t \<Longrightarrow> is_expired t \<longleftrightarrow> timer_rest t = Some 0" for t
    by (auto simp: timer_ok_def is_expired_def timer_rest_def FOREVER_def)
  show "timer_ok t \<Longrightarrow> timer_ok (timer_reset t)" for t
    by (auto simp: timer_ok_def timer_reset_def)
qed (rule timer_dec_step)

text \<open>The guarded ticks of the handlers' loops, on the timer itself.\<close>

fun timer_ticks :: "nat \<Rightarrow> timer \<Rightarrow> timer result" where
  "timer_ticks 0 t = Inr t"
| "timer_ticks (Suc n) t = (if is_expired t then Inr t else res_bind (timer_dec t) (timer_ticks n))"

lemma timer_ticks_eq: "timer.guarded_ticks n t = timer_ticks n t"
  by (induction n arbitrary: t) (auto simp: res_bind_def split: sum.splits)

text \<open>
  A timer of \<open>t \<ge> 0\<close> seconds that is decremented only while it has not expired, as every handler does,
  never throws, and has expired after \<open>n\<close> ticks exactly when \<open>n \<ge> t\<close>.
\<close>

theorem timer_counts_down:
  assumes "0 \<le> t" and "t \<le> INT_MAX"
  shows "\<exists>u. timer_ticks n (timer_new t name) = Inr u \<and> (is_expired u \<longleftrightarrow> nat t \<le> n)"
proof -
  have ok: "timer_ok (timer_new t name)" using assms by (simp add: timer_new_ok)
  have rest: "timer_rest (timer_new t name) = Some (nat t)"
    using assms by (simp add: timer_rest_def timer_new_def FOREVER_def)
  from timer.guarded_ticks_ok [OF ok, of n] timer.guarded_ticks_expire [OF ok rest]
  show ?thesis unfolding timer_ticks_eq by blast
qed

lemma timer_counts_down_witness:
  "\<exists>u. timer_ticks 3 (timer_new 2 ''cond'') = Inr u \<and> is_expired u"
proof -
  have "2 \<le> INT_MAX" by code_simp
  then show ?thesis using timer_counts_down [of 2 3 "''cond''"] by auto
qed

end
