(* ===== verification/OptText.thy ===== *)
theory OptText
  imports StdMap
begin

text \<open>
  The text side of the option parser (src/src/contrib/optparse): the string helpers of
  OptionParser.cpp, an option's declaration (\<open>Option\<close>) with its type check and its line in the
  help screen. \<open>str_format\<close> keeps the wrapped arithmetic of the source; \<open>string(n, ' ')\<close> with a
  wrapped \<open>n\<close> is the exception \<open>Length_error\<close>.
\<close>

abbreviation newline :: string where
  "newline \<equiv> [CHR 0x0A]"

subsection \<open>String helpers\<close>

text \<open>\<open>str_wrap\<close> and \<open>str_join_trans\<close>.\<close>

definition str_wrap :: "string \<Rightarrow> string \<Rightarrow> string \<Rightarrow> string" where
  "str_wrap l r s = l @ s @ r"

fun str_join_from :: "string \<Rightarrow> ('a \<Rightarrow> string) \<Rightarrow> 'a list \<Rightarrow> string" where
  "str_join_from sep f [] = ''''"
| "str_join_from sep f (x # xs) = sep @ f x @ str_join_from sep f xs"

fun str_join_trans :: "string \<Rightarrow> ('a \<Rightarrow> string) \<Rightarrow> 'a list \<Rightarrow> string" where
  "str_join_trans sep f [] = ''''"
| "str_join_trans sep f (x # xs) = f x @ str_join_from sep f xs"

definition str_join :: "string \<Rightarrow> string list \<Rightarrow> string" where
  "str_join sep xs = str_join_trans sep (str_wrap '''' '''') xs"

text \<open>
  \<open>str_replace\<close>: the loop of the source, which does not end on an empty pattern, and the total
  function the callers use, whose patterns are constants.
\<close>

partial_function (option) str_replace_loop :: "string \<Rightarrow> string \<Rightarrow> string \<Rightarrow> nat \<Rightarrow> string option" where
  "str_replace_loop patt repl s pos =
     (case find_opt s patt pos of
        None \<Rightarrow> Some s
      | Some i \<Rightarrow> str_replace_loop patt repl (take i s @ repl @ drop (i + length patt) s) (i + length repl))"

function str_replace :: "string \<Rightarrow> string \<Rightarrow> string \<Rightarrow> string" where
  "str_replace s patt repl =
     (if patt = [] then s
      else case find_at patt s 0 of
             None \<Rightarrow> s
           | Some i \<Rightarrow> take i s @ repl @ str_replace (drop (i + length patt) s) patt repl)"
  by pat_completeness auto
termination
proof (relation "measure (\<lambda>(s, patt, repl). length s)")
  show "((drop (i + length patt) s, patt, repl), s, patt, repl) \<in> measure (\<lambda>(s, patt, repl). length s)"
    if "patt \<noteq> []" "find_at patt s 0 = Some i" for s patt repl :: string and i
    using find_at_bounds(2) [OF that(2)] that(1) by (cases patt) auto
qed simp

declare str_replace.simps [simp del]

lemma str_replace_loop_suffix:
  assumes "patt \<noteq> []"
  shows "str_replace_loop patt repl (u @ s) (length u) = Some (u @ str_replace s patt repl)"
  using assms
proof (induction s patt repl arbitrary: u rule: str_replace.induct)
  case (1 s patt repl)
  show ?case
  proof (cases "find_at patt s 0")
    case None
    then have "find_at patt s (0 + length u) = None" by (subst find_at_shift) simp
    with None 1 show ?thesis
      by (subst str_replace_loop.simps, subst str_replace.simps) (simp add: find_opt_drop)
  next
    case (Some i)
    then have f: "find_at patt s (length u) = Some (i + length u)"
      using find_at_shift [of patt s 0 "length u"] by simp
    have i: "i \<le> length s" using find_at_bounds(2) [OF Some] by simp
    have u: "take (i + length u) (u @ s) @ repl @ drop (i + length u + length patt) (u @ s) =
        (u @ take i s @ repl) @ drop (i + length patt) s"
      by (simp add: add.assoc)
    have "str_replace_loop patt repl ((u @ take i s @ repl) @ drop (i + length patt) s) (length (u @ take i s @ repl)) =
        Some ((u @ take i s @ repl) @ str_replace (drop (i + length patt) s) patt repl)"
      using 1(1) [OF 1(2) Some 1(2)] .
    moreover have "length (u @ take i s @ repl) = i + length u + length repl" using i by simp
    ultimately have "str_replace_loop patt repl (take (i + length u) (u @ s) @ repl @ drop (i + length u + length patt) (u @ s))
        (i + length u + length repl) = Some ((u @ take i s @ repl) @ str_replace (drop (i + length patt) s) patt repl)"
      by (simp only: u)
    then show ?thesis
      using 1(2) Some f by (subst str_replace_loop.simps, subst str_replace.simps) (simp add: find_opt_drop)
  qed
qed

text \<open>
  The replacement loop returns for every pattern that is not empty, and what it returns is the total
  function the rest of the model uses: each occurrence replaced from left to right, the inserted text not
  searched again.
\<close>

theorem str_replace_returns: "patt \<noteq> [] \<Longrightarrow> str_replace_loop patt repl s 0 = Some (str_replace s patt repl)"
  using str_replace_loop_suffix [of patt repl "[]" s] by simp

lemma str_replace_returns_witness:
  "str_replace_loop ''-'' ''_'' ''broker-url-x'' 0 = Some ''broker_url_x''"
proof -
  have "str_replace ''broker-url-x'' ''-'' ''_'' = ''broker_url_x''" by code_simp
  then show ?thesis using str_replace_returns [of "''-''" "''_''" "''broker-url-x''"] by simp
qed

text \<open>\<open>str_format\<close>: breaks \<open>s\<close> into lines of about \<open>len\<close> columns, indented by \<open>pre\<close>.\<close>

function format_loop :: "string \<Rightarrow> nat \<Rightarrow> nat \<Rightarrow> nat \<Rightarrow> nat \<Rightarrow> nat \<Rightarrow> string \<Rightarrow> string \<Rightarrow> string result" where
  "format_loop s pre len pos linestart line p ss =
     (case find_first_of s [CHR '' '', CHR 0x0A, CHR 0x09] pos of
        None \<Rightarrow> res_bind (cpp_substr_from s (int linestart)) (\<lambda>t. Inr (ss @ p @ t @ newline))
      | Some new_pos \<Rightarrow>
          let wrap = (s ! new_pos = CHR 0x0A);
              pos1 = (if wrap then Suc new_pos else pos);
              p1 = (if line = 1 then replicate pre (CHR '' '') else p)
          in if wrap \<or> new_pos + pre > linestart + len
             then res_bind (cpp_substr s (int linestart) (sz_sub (sz_sub (int pos1) (int linestart)) 1))
                    (\<lambda>t. format_loop s pre len (Suc new_pos) pos1 (Suc line) p1 (ss @ p1 @ t @ newline))
             else format_loop s pre len (Suc new_pos) linestart line p1 ss)"
  by pat_completeness auto
termination
proof (relation "measure (\<lambda>(s, pre, len, pos, linestart, line, p, ss). Suc (length s) - pos)")
  fix s :: string and pre len pos linestart line :: nat and p ss :: string and x xa xb xc xd
  assume "find_first_of s [CHR '' '', CHR 0x0A, CHR 0x09] pos = Some x"
  then have "pos \<le> x \<and> x < length s"
    using find_first_of_bounds by blast
  then show "((s, pre, len, Suc x, xb, Suc line, xc, ss @ xc @ xd @ newline), s, pre, len, pos, linestart, line, p, ss)
      \<in> measure (\<lambda>(s, pre, len, pos, linestart, line, p, ss). Suc (length s) - pos)"
    and "((s, pre, len, Suc x, linestart, line, xc, ss), s, pre, len, pos, linestart, line, p, ss)
      \<in> measure (\<lambda>(s, pre, len, pos, linestart, line, p, ss). Suc (length s) - pos)" by auto
qed simp

declare format_loop.simps [simp del]

definition str_format :: "string \<Rightarrow> nat \<Rightarrow> nat \<Rightarrow> bool \<Rightarrow> string result" where
  "str_format s pre len indent_first =
     format_loop s pre len 0 0 0 (if indent_first then replicate pre (CHR '' '') else '''') ''''"

text \<open>
  A help text whose first word does not fit the line is printed twice: the break is taken before the
  first space, where \<open>pos - linestart - 1\<close> wraps and \<open>substr\<close> takes the whole text.
\<close>

theorem str_format_long_word:
  assumes "\<forall>c \<in> set (w @ v). c \<noteq> CHR '' '' \<and> c \<noteq> CHR 0x0A \<and> c \<noteq> CHR 0x09"
    and "length w + pre > len" and "cpp_size (w @ CHR '' '' # v)"
  shows "str_format (w @ CHR '' '' # v) pre len False =
    Inr (w @ CHR '' '' # v @ newline @ w @ CHR '' '' # v @ newline)"
proof -
  let ?s = "w @ CHR '' '' # v" and ?ws = "[CHR '' '', CHR 0x0A, CHR 0x09]"
  have skip: "find_of_at ?ws (u @ t) i = find_of_at ?ws t (i + length u)"
    if "\<forall>c \<in> set u. c \<noteq> CHR '' '' \<and> c \<noteq> CHR 0x0A \<and> c \<noteq> CHR 0x09" for u t i
    using that by (induction u arbitrary: i) auto
  have f0: "find_first_of ?s ?ws 0 = Some (length w)"
    using assms(1) skip [of w "CHR '' '' # v" 0] by (simp add: find_first_of_def)
  have f1: "find_first_of ?s ?ws (Suc (length w)) = None"
    using assms(1) skip [of v "[]" "Suc (length w)"] by (simp add: find_first_of_def)
  have n: "sz_sub (sz_sub 0 0) 1 = npos" by (simp add: sz_sub_def npos_def)
  have sub: "cpp_substr ?s 0 npos = Inr ?s" "cpp_substr_from ?s 0 = Inr ?s"
    using assms(3) cpp_substr_long [of 0 ?s npos] cpp_substr_from_nat [of ?s 0] by (simp_all add: cpp_size_def npos_def)
  show ?thesis
    using assms(2) unfolding str_format_def
    by (subst format_loop.simps, simp add: f0 Let_def n sub)
       (subst format_loop.simps, simp add: f1 sub)
qed

lemma str_format_long_word_witness:
  "str_format ''abcdefgh xyz'' 2 8 False = Inr (''abcdefgh xyz'' @ newline @ ''abcdefgh xyz'' @ newline)"
proof -
  have "\<forall>c \<in> set (''abcdefgh'' @ ''xyz''). c \<noteq> CHR '' '' \<and> c \<noteq> CHR 0x0A \<and> c \<noteq> CHR 0x09" by code_simp
  moreover have "cpp_size (''abcdefgh'' @ CHR '' '' # ''xyz'')" by code_simp
  ultimately show ?thesis using str_format_long_word [of "''abcdefgh''" "''xyz''" 8 2] by simp
qed

text \<open>
  \<open>str_inc\<close>: the long it reads is 0 when there is no number, and saturates; of a text of white space
  nothing is read, and the long is used uninitialised.
\<close>

definition str_inc :: "string \<Rightarrow> string result" where
  "str_inc s =
     (let v = (if s \<noteq> '''' then s else ''0'');
          i = (case scan_int v of None \<Rightarrow> 0 | Some n \<Rightarrow> max LONG_MIN (min LONG_MAX n))
      in if dropWhile is_space v = '''' \<or> i = LONG_MAX then Inl Bad_access else Inr (show_int (i + 1)))"

lemma str_inc_blank: "s \<noteq> '''' \<Longrightarrow> list_all is_space s \<Longrightarrow> str_inc s = Inl Bad_access"
  by (simp add: str_inc_def list_all_iff)

text \<open>
  \<open>cols\<close>: 80, or what the environment variable \<open>COLUMNS\<close> (the argument) holds, read as an
  \<open>unsigned int\<close>: 0 when it is not a number, the maximum when it is too large. Of an empty text, or one
  of white space, nothing is read and the 80 stays.
\<close>

definition cols :: "string option \<Rightarrow> nat" where
  "cols columns =
     (case columns of None \<Rightarrow> 80
      | Some s \<Rightarrow> if dropWhile is_space s = '''' then 80 else
          (case scan_int s of None \<Rightarrow> 0
          | Some n \<Rightarrow> if \<bar>n\<bar> > UINT32_MAX then nat UINT32_MAX else nat (n mod 2 ^ 32)))"

definition path_basename :: "string \<Rightarrow> string" where
  "path_basename s =
     (let b = rev (dropWhile (\<lambda>c. c = CHR ''/'') (rev s))
      in if b = '''' then (case s of c # _ \<Rightarrow> if c = CHR ''/'' then [c] else s | [] \<Rightarrow> s)
         else rev (takeWhile (\<lambda>c. c \<noteq> CHR ''/'') (rev b)))"

subsection \<open>Reading floating point numbers\<close>

text \<open>
  Whether \<open>istringstream(s) >> t\<close> succeeds for a \<open>double\<close>: the characters are collected as the
  library's grammar allows (\<open>float_chars\<close>), and the collected text must be a number that is not too
  large (\<open>float_text\<close>).
\<close>

fun float_chars :: "bool \<Rightarrow> bool \<Rightarrow> bool \<Rightarrow> string \<Rightarrow> string \<times> string" where
  "float_chars mant dec sci [] = ([], [])"
| "float_chars mant dec sci (c # s) =
     (if is_digit c then apfst ((#) c) (float_chars True dec sci s)
      else if c = CHR ''.'' \<and> \<not> dec \<and> \<not> sci then apfst ((#) c) (float_chars mant True sci s)
      else if (c = CHR ''e'' \<or> c = CHR ''E'') \<and> mant \<and> \<not> sci then
        (case s of d # r \<Rightarrow> if d = CHR ''+'' \<or> d = CHR ''-'' then apfst (\<lambda>t. c # d # t) (float_chars mant dec True r)
                            else apfst ((#) c) (float_chars mant dec True s)
         | [] \<Rightarrow> ([c], []))
      else ([], c # s))"

definition float_text :: "string \<Rightarrow> bool" where
  "float_text t =
     (let ip = takeWhile is_digit t; r = dropWhile is_digit t;
          fp = (if r \<noteq> [] \<and> hd r = CHR ''.'' then takeWhile is_digit (tl r) else []);
          ex = (if r \<noteq> [] \<and> hd r = CHR ''.'' then dropWhile is_digit (tl r) else r);
          d = digits_value (ip @ fp);
          e = (if ex = [] then Some 0 else scan_int (tl ex));
          big = 2 ^ 1024 - 2 ^ 970
      in ip @ fp \<noteq> [] \<and> (case e of None \<Rightarrow> False
           | Some x \<Rightarrow> (let k = x - int (length fp)
               in if 0 \<le> k then d * 10 ^ nat k < big else d < big * 10 ^ nat (- k))))"

definition read_double :: "string \<Rightarrow> string option" where
  "read_double s =
     (let (_, u) = scan_sign (dropWhile is_space s); (t, r) = float_chars False False False u
      in if float_text t then Some r else None)"

text \<open>\<open>operator>>\<close> for \<open>complex<double>\<close>: \<open>u\<close>, \<open>(u)\<close> or \<open>(u,v)\<close>.\<close>

definition read_complex :: "string \<Rightarrow> bool" where
  "read_complex s =
     (case dropWhile is_space s of
        [] \<Rightarrow> False
      | c # r \<Rightarrow>
          if c \<noteq> CHR ''('' then read_double (c # r) \<noteq> None
          else (case read_double r of None \<Rightarrow> False
            | Some r1 \<Rightarrow> (case dropWhile is_space r1 of [] \<Rightarrow> False
              | c1 # r2 \<Rightarrow>
                  if c1 = CHR '')'' then True
                  else if c1 = CHR '','' then
                    (case read_double r2 of None \<Rightarrow> False
                     | Some r3 \<Rightarrow> (case dropWhile is_space r3 of [] \<Rightarrow> False | c3 # _ \<Rightarrow> c3 = CHR '')''))
                  else False)))"

lemma read_double_samples: "read_double ''-12.5e3x'' = Some ''x''" "read_double ''1e'' = None"
  "read_complex ''(1, 2.5)''" "\<not> read_complex ''(1;2)''"
  by code_simp+

subsection \<open>An option\<close>

record opt_decl =
  o_short :: "string list"
  o_long :: "string list"
  o_action :: string
  o_type :: string
  o_dest :: string
  o_default :: string
  o_nargs :: nat
  o_const :: string
  o_choices :: "string list"
  o_help :: string
  o_metavar :: string
  o_callback :: "nat option"

definition opt_new :: opt_decl where
  "opt_new = \<lparr>o_short = [], o_long = [], o_action = ''store'', o_type = ''string'', o_dest = '''',
     o_default = '''', o_nargs = 1, o_const = '''', o_choices = [], o_help = '''', o_metavar = '''',
     o_callback = None\<rparr>"

text \<open>\<open>Option::action(a)\<close>: the actions that take no argument also set \<open>nargs\<close>.\<close>

definition set_action :: "string \<Rightarrow> opt_decl \<Rightarrow> opt_decl" where
  "set_action a opt =
     (let opt1 = opt\<lparr>o_action := a\<rparr>
      in if a \<in> set [''store_const'', ''store_true'', ''store_false'', ''append_const'', ''count'', ''help'', ''version'']
         then opt1\<lparr>o_nargs := 0\<rparr> else opt1)"

text \<open>The chained setters, as the calls an option table is made of.\<close>

datatype opt_call =
    Dest string
  | Help string
  | Metavar string
  | Type string
  | Action string
  | Default string
  | Nargs nat
  | Const string
  | Choices "string list"
  | Callback nat

fun opt_apply :: "opt_call \<Rightarrow> opt_decl \<Rightarrow> opt_decl" where
  "opt_apply (Dest d) opt = opt\<lparr>o_dest := d\<rparr>"
| "opt_apply (Help h) opt = opt\<lparr>o_help := h\<rparr>"
| "opt_apply (Metavar m) opt = opt\<lparr>o_metavar := m\<rparr>"
| "opt_apply (Type t) opt = opt\<lparr>o_type := t\<rparr>"
| "opt_apply (Action a) opt = set_action a opt"
| "opt_apply (Default d) opt = opt\<lparr>o_default := d\<rparr>"
| "opt_apply (Nargs n) opt = opt\<lparr>o_nargs := n\<rparr>"
| "opt_apply (Const c) opt = opt\<lparr>o_const := c\<rparr>"
| "opt_apply (Choices cs) opt = opt\<lparr>o_choices := cs, o_type := ''choice''\<rparr>"
| "opt_apply (Callback i) opt = opt\<lparr>o_callback := Some i\<rparr>"

text \<open>\<open>check_type\<close>: the message of a value that does not have the option's type, or nothing.\<close>

abbreviation sq :: string where
  "sq \<equiv> [CHR 0x27]"

definition check_type :: "opt_decl \<Rightarrow> string \<Rightarrow> string \<Rightarrow> string" where
  "check_type opt name val =
     (if o_type opt = ''int'' \<or> o_type opt = ''long'' then
        (if extract_long val = None then ''option '' @ name @ '': invalid integer value: '' @ sq @ val @ sq else '''')
      else if o_type opt = ''float'' \<or> o_type opt = ''double'' then
        (if read_double val = None then ''option '' @ name @ '': invalid floating-point value: '' @ sq @ val @ sq else '''')
      else if o_type opt = ''choice'' then
        (if val \<in> set (o_choices opt) then ''''
         else ''option '' @ name @ '': invalid choice: '' @ sq @ val @ sq @ '' (choose from '' @
           str_join '', '' (map (str_wrap sq sq) (o_choices opt)) @ '')'')
      else if o_type opt = ''complex'' then
        (if read_complex val then '''' else ''option '' @ name @ '': invalid complex value: '' @ sq @ val @ sq)
      else '''')"

text \<open>\<open>Option::format_option_help\<close> and \<open>Option::format_help\<close>.\<close>

definition option_names :: "opt_decl \<Rightarrow> nat \<Rightarrow> string" where
  "option_names opt indent =
     (let mvar = (if o_metavar opt = '''' then map to_upper (o_type opt) else o_metavar opt);
          ms = (if o_nargs opt = 1 then '' '' @ mvar else '''');
          ml = (if o_nargs opt = 1 then ''='' @ mvar else '''')
      in replicate indent (CHR '' '') @
         (if o_short opt = [] then ''''
          else str_join_trans '', '' (str_wrap ''-'' ms) (o_short opt) @ (if o_long opt = [] then '''' else '', '')) @
         (if o_long opt = [] then '''' else str_join_trans '', '' (str_wrap ''--'' ml) (o_long opt)))"

definition option_help :: "string option \<Rightarrow> nat \<Rightarrow> opt_decl \<Rightarrow> string result" where
  "option_help columns indent opt =
     (let h = option_names opt indent;
          width = cols columns;
          opt_width = min (nat (uwrap32 (int width * 3)) div 10) 36;
          long_names = (uwrap32 (int opt_width - 1) \<le> int (length h));
          gap = sz_sub (int opt_width) (int (length h));
          text = (if o_default opt \<noteq> '''' then str_replace (o_help opt) ''%default'' (o_default opt) else o_help opt)
      in if \<not> long_names \<and> gap \<ge> 2 ^ 63 then Inl Length_error
         else let ss = h @ (if long_names then newline
                            else replicate (nat gap) (CHR '' '') @ (if o_help opt = '''' then newline else ''''))
              in if o_help opt = '''' then Inr ss
                 else res_bind (str_format text opt_width width long_names) (\<lambda>t. Inr (ss @ t)))"

lemma format_loop_total:
  "linestart \<le> length s \<Longrightarrow> pos \<le> length s \<Longrightarrow>
     \<exists>t. format_loop s pre len pos linestart line p ss = Inr t"
proof (induction s pre len pos linestart line p ss rule: format_loop.induct)
  case (1 s pre len pos linestart line p ss)
  show ?case
  proof (cases "find_first_of s [CHR '' '', CHR 0x0A, CHR 0x09] pos")
    case None
    then show ?thesis
      using cpp_substr_ok [of "int linestart" s npos] 1(3)
      by (subst format_loop.simps) (auto simp: cpp_substr_from_def)
  next
    case (Some np)
    have b: "pos \<le> np" "np < length s" using find_first_of_bounds [OF Some] by auto
    let ?pos1 = "if s ! np = CHR 0x0A then Suc np else pos"
    let ?p1 = "if line = 1 then replicate pre (CHR '' '') else p"
    obtain t where t: "cpp_substr s (int linestart) (sz_sub (sz_sub (int ?pos1) (int linestart)) 1) = Inr t"
      using cpp_substr_ok [of "int linestart" s] 1(3) by auto
    have ih1: "\<exists>u. format_loop s pre len (Suc np) ?pos1 (Suc line) ?p1 (ss @ ?p1 @ t @ newline) = Inr u"
      if "s ! np = CHR 0x0A \<or> np + pre > linestart + len"
      by (rule 1(1) [OF Some refl refl refl that]) (use b 1(4) in auto)
    have ih2: "\<exists>u. format_loop s pre len (Suc np) linestart line ?p1 ss = Inr u"
      if "\<not> (s ! np = CHR 0x0A \<or> np + pre > linestart + len)"
      by (rule 1(2) [OF Some refl refl refl that]) (use b 1(3) in auto)
    show ?thesis
    proof (cases "s ! np = CHR 0x0A \<or> np + pre > linestart + len")
      case True
      then show ?thesis
        using ih1 [OF True] by (subst format_loop.simps) (simp only: Some option.case Let_def if_True t res_bind_simps)
    next
      case False
      then show ?thesis
        using ih2 [OF False] by (subst format_loop.simps) (simp only: Some option.case Let_def if_False)
    qed
  qed
qed

lemma str_format_total: "\<exists>t. str_format s pre len i = Inr t"
  unfolding str_format_def by (rule format_loop_total) auto

lemma cols_range: "int (cols columns) < 2 ^ 32"
  by (auto simp: cols_def UINT32_MAX_def nat_less_iff split: option.split)

lemma triple_wraps_iff:
  assumes "int n < 2 ^ 32"
  shows "uwrap32 (int n * 3) < 10 \<longleftrightarrow>
    n \<le> 3 \<or> (1431655766 \<le> n \<and> n \<le> 1431655768) \<or> (2863311531 \<le> n \<and> n \<le> 2863311533)"
proof -
  define q r where qr: "q = int n * 3 div 2 ^ 32" "r = int n * 3 mod 2 ^ 32"
  have eq: "int n * 3 = 2 ^ 32 * q + r" "0 \<le> r" "r < 2 ^ 32" unfolding qr by (simp_all add: mult_div_mod_eq)
  then consider "q = 0" | "q = 1" | "q = 2" using assms by (simp only: power_numeral_even) fastforce
  then have "r < 10 \<longleftrightarrow> int n \<le> 3 \<or> (1431655766 \<le> int n \<and> int n \<le> 1431655768) \<or> (2863311531 \<le> int n \<and> int n \<le> 2863311533)"
    using eq assms by cases (simp, presburger)+
  then show ?thesis unfolding uwrap32_def qr by simp
qed

text \<open>
  C39. The help line of an option, whose names are not empty and shorter than \<open>2 ^ 32 - 1\<close>, is built unless three
  times the width of the terminal is below ten in 32-bit arithmetic. This is so for a width of at most three
  (\<open>COLUMNS\<close> is a number that small, or a text that starts with no number) and for the six huge widths whose triple
  wraps to less than ten. Then the width of the option column is 0, the padding wraps and the construction of the
  string throws. An empty or blank \<open>COLUMNS\<close> counts as 80, as no \<open>COLUMNS\<close> does.
\<close>

theorem option_help_fails_iff:
  assumes "option_names opt indent \<noteq> []" and "int (length (option_names opt indent)) < 2 ^ 32 - 1"
  shows "if cols columns \<in> {0..3} \<union> {1431655766..1431655768} \<union> {2863311531..2863311533}
    then option_help columns indent opt = Inl Length_error
    else \<exists>t. option_help columns indent opt = Inr t"
proof -
  let ?h = "option_names opt indent" and ?w = "uwrap32 (int (cols columns) * 3)"
  let ?o = "min (nat ?w div 10) 36"
  have narrow: "cols columns \<in> {0..3} \<union> {1431655766..1431655768} \<union> {2863311531..2863311533} \<longleftrightarrow> ?w < 10"
    unfolding triple_wraps_iff [OF cols_range] by auto
  have w: "0 \<le> ?w" by (simp add: uwrap32_def)
  have h: "1 \<le> int (length ?h)" using assms(1) by (cases ?h) auto
  have "if ?w < 10 then option_help columns indent opt = Inl Length_error
    else \<exists>t. option_help columns indent opt = Inr t"
  proof (cases "?w < 10")
    case True
    then have o: "?o = 0" using w by simp
    have "sz_sub 0 (int (length ?h)) = 2 ^ 64 - int (length ?h)"
      using h assms(2) by (subst sz_sub_wrap) auto
    then show ?thesis
      using True assms(2) o by (simp add: option_help_def Let_def uwrap32_def)
  next
    case False
    then have o: "1 \<le> ?o" "?o \<le> 36" by auto
    have u: "uwrap32 (int ?o - 1) = int ?o - 1" using o by (intro uwrap32_id) (auto simp: int_limits)
    have "sz_sub (int ?o) (int (length ?h)) = int ?o - int (length ?h)" if "\<not> int ?o - 1 \<le> int (length ?h)"
      using that o h by (intro sz_sub_small) auto
    then have g: "\<not> (\<not> int ?o - 1 \<le> int (length ?h) \<and> 2 ^ 63 \<le> sz_sub (int ?o) (int (length ?h)))"
      using o by auto
    obtain f where f: "str_format s p l i = Inr (f s p l i)" for s p l i
      using str_format_total by metis
    show ?thesis
      using False u g f unfolding option_help_def Let_def u by auto
  qed
  then show ?thesis by (simp only: narrow)
qed

lemma option_help_fails_witness:
  "option_help (Some ''3'') 2 (opt_new\<lparr>o_long := [''count''], o_help := ''stop''\<rparr>) = Inl Length_error \<and>
   option_help (Some ''1431655766'') 2 (opt_new\<lparr>o_long := [''count''], o_help := ''stop''\<rparr>) = Inl Length_error \<and>
   (\<exists>t. option_help (Some '' '') 2 (opt_new\<lparr>o_long := [''count''], o_help := ''stop''\<rparr>) = Inr t)"
proof -
  let ?o = "opt_new\<lparr>o_long := [''count''], o_help := ''stop''\<rparr>"
  have ok: "option_names ?o 2 \<noteq> []" "int (length (option_names ?o 2)) < 2 ^ 32 - 1" by code_simp+
  have "scan_int ''3'' = Some 3" "scan_int ''1431655766'' = Some 1431655766"
    "dropWhile is_space ''3'' = ''3''" "dropWhile is_space ''1431655766'' = ''1431655766''" "dropWhile is_space '' '' = ''''"
    by code_simp+
  then have "cols (Some ''3'') = 3" "cols (Some ''1431655766'') = 1431655766" "cols (Some '' '') = 80"
    by (simp_all only: cols_def option.case) (simp_all add: UINT32_MAX_def)
  then show ?thesis
    using option_help_fails_iff [OF ok, of "Some ''3''"] option_help_fails_iff [OF ok, of "Some ''1431655766''"]
      option_help_fails_iff [OF ok, of "Some '' ''"] by simp
qed

end
