(* ===== verification/OptParse.thy ===== *)
theory OptParse
  imports OptText Callback
begin

text \<open>
  \<open>OptionParser\<close>, \<open>OptionGroup\<close> and \<open>Values\<close> (src/src/contrib/optparse): declaring options, the
  help screen, and \<open>parse_args\<close>. An option is kept in the parser's list under a number, which
  stands for its address; the two maps of names hold such numbers, so a name whose number is in no
  list is a dangling pointer (\<open>Bad_access\<close>). \<open>std::exit\<close> is the result \<open>Exit\<close> with the status and
  what was printed. Callback objects (\<open>StringAppendCallback\<close> is the only kind) are a store of the
  parser.
\<close>

subsection \<open>State\<close>

record opt_values =
  v_map :: "(string, string) smap"
  v_append :: "(string, string list) smap"
  v_user :: "string list"

definition values_new :: opt_values where
  "values_new = \<lparr>v_map = [], v_append = [], v_user = []\<rparr>"

definition is_set :: "opt_values \<Rightarrow> string \<Rightarrow> bool" where
  "is_set v d = (smap_get (v_map v) d \<noteq> None)"

text \<open>\<open>options[d]\<close> on a constant \<open>Values\<close>.\<close>

definition value_at :: "opt_values \<Rightarrow> string \<Rightarrow> string" where
  "value_at v d = (case smap_get (v_map v) d of Some s \<Rightarrow> s | None \<Rightarrow> '''')"

definition is_set_by_user :: "opt_values \<Rightarrow> string \<Rightarrow> bool" where
  "is_set_by_user v d = (d \<in> set (v_user v))"

definition set_by_user :: "string \<Rightarrow> bool \<Rightarrow> opt_values \<Rightarrow> opt_values" where
  "set_by_user d yes v =
     (if yes then v\<lparr>v_user := insort_insert d (v_user v)\<rparr> else v\<lparr>v_user := filter (\<lambda>x. x \<noteq> d) (v_user v)\<rparr>)"

text \<open>\<open>_values[d] = s\<close> and \<open>_values.all(d).push_back(s)\<close>.\<close>

definition put_value :: "string \<Rightarrow> string \<Rightarrow> opt_values \<Rightarrow> opt_values" where
  "put_value d s v = v\<lparr>v_map := smap_put d s (v_map v)\<rparr>"

definition push_value :: "string \<Rightarrow> string \<Rightarrow> opt_values \<Rightarrow> opt_values" where
  "push_value d s v = v\<lparr>v_append := smap_put d
     ((case smap_get (v_append v) d of Some xs \<Rightarrow> xs | None \<Rightarrow> []) @ [s]) (v_append v)\<rparr>"

text \<open>\<open>options.get(d)\<close> with its conversions, which read 0 from a value that is missing or no number.\<close>

definition get_bool :: "opt_values \<Rightarrow> string \<Rightarrow> bool" where
  "get_bool v d = (if is_set v d then (case extract_bool (value_at v d) of Some b \<Rightarrow> b | None \<Rightarrow> False) else False)"

definition get_int :: "opt_values \<Rightarrow> string \<Rightarrow> int" where
  "get_int v d = (if is_set v d then (case extract_int (value_at v d) of Some n \<Rightarrow> n | None \<Rightarrow> 0) else 0)"

record opt_group =
  g_opts :: "(nat \<times> opt_decl) list"
  g_defaults :: "(string, string) smap"
  g_title :: string
  g_description :: string

record opt_parser =
  p_usage :: string
  p_version :: string
  p_description :: string
  p_add_help :: bool
  p_add_version :: bool
  p_prog :: string
  p_epilog :: string
  p_interspersed :: bool
  p_values :: opt_values
  p_opts :: "(nat \<times> opt_decl) list"
  p_short :: "(string, nat) smap"
  p_long :: "(string, nat) smap"
  p_defaults :: "(string, string) smap"
  p_groups :: "opt_group list"
  p_remaining :: "string list"
  p_leftover :: "string list"
  p_next :: nat
  p_callbacks :: "(nat, append_callback) smap"
  p_columns :: "string option"

text \<open>\<open>p_next\<close> numbers new options; \<open>p_columns\<close> is the environment variable the help screen reads.\<close>

definition parser_new :: "string option \<Rightarrow> opt_parser" where
  "parser_new columns =
     \<lparr>p_usage = ''%prog [options]'', p_version = '''', p_description = '''', p_add_help = True,
      p_add_version = True, p_prog = '''', p_epilog = '''', p_interspersed = True, p_values = values_new,
      p_opts = [], p_short = [], p_long = [], p_defaults = [], p_groups = [], p_remaining = [],
      p_leftover = [], p_next = 0, p_callbacks = [], p_columns = columns\<rparr>"

datatype opt_stop =
    Exit int string string
  | Throw cpp_exn

subsection \<open>Declaring options\<close>

definition add_name :: "nat \<Rightarrow> string \<Rightarrow> opt_decl \<times> string \<times> opt_parser \<Rightarrow> opt_decl \<times> string \<times> opt_parser" where
  "add_name i nm st =
     (case st of (opt, fallback, p) \<Rightarrow>
        if take 2 nm = ''--''
        then let s = drop 2 nm
             in ((if o_dest opt = '''' then opt\<lparr>o_dest := str_replace s ''-'' ''_''\<rparr> else opt)
                   \<lparr>o_long := insort_insert s (o_long opt)\<rparr>,
                 fallback, p\<lparr>p_long := smap_put s i (p_long p)\<rparr>)
        else let s = take 1 (drop 1 nm)
             in (opt\<lparr>o_short := insort_insert s (o_short opt)\<rparr>,
                 (if fallback = '''' then s else fallback), p\<lparr>p_short := smap_put s i (p_short p)\<rparr>))"

definition add_names :: "nat \<Rightarrow> string list \<Rightarrow> opt_decl \<times> string \<times> opt_parser \<Rightarrow> opt_decl \<times> string \<times> opt_parser" where
  "add_names i nms st = fold (add_name i) nms st"

definition add_option :: "string list \<Rightarrow> opt_parser \<Rightarrow> opt_parser" where
  "add_option nms p =
     (let i = p_next p; (opt, fallback, p1) = add_names i nms (opt_new, '''', p);
          opt1 = (if o_dest opt = '''' then opt\<lparr>o_dest := fallback\<rparr> else opt)
      in p1\<lparr>p_opts := p_opts p1 @ [(i, opt1)], p_next := Suc i\<rparr>)"

text \<open>
  \<open>add_option(names).dest(..).help(..)...\<close>: the setters act on the option that was just appended,
  through the reference \<open>add_option\<close> returns.
\<close>

definition declare_option :: "string list \<times> opt_call list \<Rightarrow> opt_parser \<Rightarrow> opt_parser" where
  "declare_option d p =
     (let p1 = add_option (fst d) p
      in p1\<lparr>p_opts := map (\<lambda>(i, opt). (i, if i = p_next p then fold opt_apply (snd d) opt else opt)) (p_opts p1)\<rparr>)"

definition add_option_group :: "opt_group \<Rightarrow> opt_parser \<Rightarrow> opt_parser" where
  "add_option_group g p =
     fold (\<lambda>(i, opt) q. q\<lparr>p_short := fold (\<lambda>s. smap_put s i) (o_short opt) (p_short q),
                           p_long := fold (\<lambda>s. smap_put s i) (o_long opt) (p_long q)\<rparr>) (g_opts g) p
       \<lparr>p_groups := p_groups p @ [g]\<rparr>"

definition set_defaults :: "string \<Rightarrow> string \<Rightarrow> opt_parser \<Rightarrow> opt_parser" where
  "set_defaults dest val p = p\<lparr>p_defaults := smap_put dest val (p_defaults p)\<rparr>"

subsection \<open>Help, usage, exit\<close>

fun options_help :: "string option \<Rightarrow> nat \<Rightarrow> (nat \<times> opt_decl) list \<Rightarrow> string result" where
  "options_help columns indent [] = Inr ''''"
| "options_help columns indent ((i, opt) # r) =
     (if o_help opt \<noteq> ''SUPPRESSHELP''
      then res_bind (option_help columns indent opt) (\<lambda>t.
           res_bind (options_help columns indent r) (\<lambda>u. Inr (t @ u)))
      else options_help columns indent r)"

definition set_usage :: "string \<Rightarrow> opt_parser \<Rightarrow> opt_parser" where
  "set_usage u p = p\<lparr>p_usage := (if take 7 (lower u) = ''usage: '' then drop 7 u else u)\<rparr>"

definition format_usage :: "string \<Rightarrow> string" where
  "format_usage u = ''Usage: '' @ u @ newline"

definition get_usage :: "opt_parser \<Rightarrow> string" where
  "get_usage p = (if p_usage p = ''SUPPRESSUSAGE'' then ''''
     else format_usage (str_replace (p_usage p) ''%prog'' (p_prog p)))"

definition print_usage :: "opt_parser \<Rightarrow> string" where
  "print_usage p = (let u = get_usage p in if u \<noteq> '''' then u @ newline else '''')"

fun groups_help :: "string option \<Rightarrow> opt_group list \<Rightarrow> string result" where
  "groups_help columns [] = Inr ''''"
| "groups_help columns (g # gs) =
     res_bind (if g_description g \<noteq> ''''
               then res_bind (str_format (g_description g) 4 (cols columns) True) (\<lambda>d. Inr (d @ newline))
               else Inr '''') (\<lambda>d.
     res_bind (options_help columns 4 (g_opts g)) (\<lambda>t.
     res_bind (groups_help columns gs) (\<lambda>u.
       Inr (newline @ ''  '' @ g_title g @ '':'' @ newline @ d @ t @ u))))"

definition format_help :: "opt_parser \<Rightarrow> string result" where
  "format_help p =
     (let c = p_columns p
      in res_bind (if p_description p \<noteq> ''''
                   then res_bind (str_format (p_description p) 0 (cols c) True) (\<lambda>d. Inr (d @ newline))
                   else Inr '''') (\<lambda>d.
         res_bind (options_help c 2 (p_opts p)) (\<lambda>t.
         res_bind (groups_help c (p_groups p)) (\<lambda>g.
         res_bind (if p_epilog p \<noteq> ''''
                   then res_bind (str_format (p_epilog p) 0 (cols c) True) (\<lambda>e. Inr (newline @ e))
                   else Inr '''') (\<lambda>e.
           Inr ((if p_usage p \<noteq> ''SUPPRESSUSAGE'' then get_usage p @ newline else '''') @ d @
             ''Options:'' @ newline @ t @ g @ e))))))"

definition get_version :: "opt_parser \<Rightarrow> string" where
  "get_version p = str_replace (p_version p) ''%prog'' (p_prog p)"

definition opt_error :: "string \<Rightarrow> opt_parser \<Rightarrow> opt_stop" where
  "opt_error msg p = Exit 2 '''' (print_usage p @ p_prog p @ '': error: '' @ msg @ newline)"

definition opt_exit :: "opt_parser \<Rightarrow> opt_stop" where
  "opt_exit p = Exit 2 '''' ''''"

definition help_exit :: "opt_parser \<Rightarrow> opt_stop" where
  "help_exit p = (case format_help p of Inl e \<Rightarrow> Throw e | Inr t \<Rightarrow> Exit 0 t '''')"

definition version_exit :: "opt_parser \<Rightarrow> opt_stop" where
  "version_exit p = Exit 0 (get_version p @ newline) ''''"

subsection \<open>Handling one argument\<close>

definition find_decl :: "opt_parser \<Rightarrow> nat \<Rightarrow> opt_stop + opt_decl" where
  "find_decl p i =
     (case map_of (p_opts p @ concat (map g_opts (p_groups p))) i of
        Some opt \<Rightarrow> Inr opt | None \<Rightarrow> Inl (Throw Bad_access))"

definition lookup_short_opt :: "string \<Rightarrow> opt_parser \<Rightarrow> opt_stop + opt_decl" where
  "lookup_short_opt opt p =
     (case smap_get (p_short p) opt of
        None \<Rightarrow> Inl (opt_error (''no such option: -'' @ opt) p)
      | Some i \<Rightarrow> find_decl p i)"

definition lookup_long_opt :: "string \<Rightarrow> opt_parser \<Rightarrow> opt_stop + opt_decl" where
  "lookup_long_opt opt p =
     (let matching = filter (\<lambda>nm. nm = opt) (map fst (p_long p))
      in if 1 < length matching then
           Inl (opt_error (''ambiguous option: --'' @ opt @ '' ('' @ str_join '', '' matching @ ''?)'') p)
         else (case matching of
             [] \<Rightarrow> Inl (opt_error (''no such option: --'' @ opt) p)
           | nm # _ \<Rightarrow> (case smap_get (p_long p) nm of
               None \<Rightarrow> Inl (Throw Bad_access) | Some i \<Rightarrow> find_decl p i)))"

text \<open>The three statements that store an option's value.\<close>

definition store_value :: "opt_decl \<Rightarrow> string \<Rightarrow> opt_parser \<Rightarrow> opt_parser" where
  "store_value opt s p = p\<lparr>p_values := set_by_user (o_dest opt) True (put_value (o_dest opt) s (p_values p))\<rparr>"

definition append_value :: "opt_decl \<Rightarrow> string \<Rightarrow> opt_parser \<Rightarrow> opt_parser" where
  "append_value opt s p = p\<lparr>p_values := set_by_user (o_dest opt) True
     (push_value (o_dest opt) s (put_value (o_dest opt) s (p_values p)))\<rparr>"

definition run_callback :: "opt_decl \<Rightarrow> string \<Rightarrow> string \<Rightarrow> opt_parser \<Rightarrow> opt_stop + opt_parser" where
  "run_callback opt name val p =
     (case o_callback opt of None \<Rightarrow> Inr p
      | Some c \<Rightarrow> (case smap_get (p_callbacks p) c of None \<Rightarrow> Inl (Throw Bad_access)
          | Some cb \<Rightarrow> Inr (p\<lparr>p_callbacks := smap_put c (cb_call name val cb) (p_callbacks p)\<rparr>)))"

definition callback_at :: "opt_parser \<Rightarrow> nat \<Rightarrow> append_callback" where
  "callback_at p i = (case smap_get (p_callbacks p) i of Some c \<Rightarrow> c | None \<Rightarrow> callback_new)"

definition process_opt :: "opt_decl \<Rightarrow> string \<Rightarrow> string \<Rightarrow> opt_parser \<Rightarrow> opt_stop + opt_parser" where
  "process_opt opt name val p =
     (if o_action opt = ''store'' then
        (let err = check_type opt name val
         in if err \<noteq> '''' then Inl (opt_error err p) else Inr (store_value opt val p))
      else if o_action opt = ''store_const'' then Inr (store_value opt (o_const opt) p)
      else if o_action opt = ''store_true'' then Inr (store_value opt ''1'' p)
      else if o_action opt = ''store_false'' then Inr (store_value opt ''0'' p)
      else if o_action opt = ''append'' then
        (let err = check_type opt name val
         in if err \<noteq> '''' then Inl (opt_error err p) else Inr (append_value opt val p))
      else if o_action opt = ''append_const'' then Inr (append_value opt (o_const opt) p)
      else if o_action opt = ''count'' then
        (case str_inc (value_at (p_values p) (o_dest opt)) of
           Inl e \<Rightarrow> Inl (Throw e) | Inr s \<Rightarrow> Inr (store_value opt s p))
      else if o_action opt = ''help'' then Inl (help_exit p)
      else if o_action opt = ''version'' then Inl (version_exit p)
      else if o_action opt = ''callback'' then run_callback opt name val p
      else Inr p)"

text \<open>
  \<open>handle_short_opt(opt, arg)\<close>, entered with \<open>arg\<close> in front of \<open>_remaining\<close>: the value is the rest of
  the argument or the next argument; without an argument the rest is pushed back as \<open>-rest\<close>.
\<close>

definition handle_short_opt :: "string \<Rightarrow> string \<Rightarrow> opt_parser \<Rightarrow> opt_stop + opt_parser" where
  "handle_short_opt opt arg p =
     (let p1 = p\<lparr>p_remaining := tl (p_remaining p)\<rparr>
      in case lookup_short_opt opt p1 of Inl e \<Rightarrow> Inl e
         | Inr decl \<Rightarrow>
             if o_nargs decl = 1 then
               (let value = drop 2 arg
                in if value = '''' then
                     (case p_remaining p1 of
                        [] \<Rightarrow> Inl (opt_error (''-'' @ opt @ '' option requires an argument'') p1)
                      | v # rest \<Rightarrow> process_opt decl (''-'' @ opt) v (p1\<lparr>p_remaining := rest\<rparr>))
                   else process_opt decl (''-'' @ opt) value p1)
             else process_opt decl (''-'' @ opt) ''''
                    (if 2 < length arg then p1\<lparr>p_remaining := (''-'' @ drop 2 arg) # p_remaining p1\<rparr> else p1))"

definition handle_long_opt :: "string \<Rightarrow> opt_parser \<Rightarrow> opt_stop + opt_parser" where
  "handle_long_opt optstr p =
     (let p1 = p\<lparr>p_remaining := tl (p_remaining p)\<rparr>;
          delim = find_opt optstr ''='' 0;
          opt = (case delim of Some i \<Rightarrow> take i optstr | None \<Rightarrow> optstr);
          value = (case delim of Some i \<Rightarrow> drop (Suc i) optstr | None \<Rightarrow> '''')
      in case lookup_long_opt opt p1 of Inl e \<Rightarrow> Inl e
         | Inr decl \<Rightarrow>
             (let (value1, p2) =
                (if o_nargs decl = 1 \<and> delim = None
                 then (case p_remaining p1 of [] \<Rightarrow> (value, p1) | v # rest \<Rightarrow> (v, p1\<lparr>p_remaining := rest\<rparr>))
                 else (value, p1))
              in if o_nargs decl = 1 \<and> value1 = '''' \<and> opt \<noteq> ''msg-content-list-item''
                 then Inl (opt_error (''--'' @ opt @ '' option requires an argument'') p2)
                 else process_opt decl (''--'' @ opt) value1 p2))"

subsection \<open>The loop of \<open>parse_args\<close>\<close>

text \<open>What the steps leave alone, and the measure of the loop: every step consumes a character.\<close>

lemma process_opt_keeps:
  assumes "process_opt opt name val p = Inr p'"
  shows "p_remaining p' = p_remaining p" "p_leftover p' = p_leftover p" "p_opts p' = p_opts p"
    "p_groups p' = p_groups p" "p_short p' = p_short p" "p_long p' = p_long p"
    "p_interspersed p' = p_interspersed p" "p_defaults p' = p_defaults p"
  using assms
  by (auto simp: process_opt_def store_value_def append_value_def run_callback_def Let_def
      split: if_splits sum.splits option.splits)

definition args_left :: "string list \<Rightarrow> nat" where
  "args_left as = sum_list (map (\<lambda>a. Suc (length a)) as)"

lemma args_left_simps [simp]: "args_left [] = 0" "args_left (a # as) = Suc (length a) + args_left as"
  by (simp_all add: args_left_def)

lemma handle_short_shrinks:
  assumes "handle_short_opt opt arg p = Inr p'" and "p_remaining p = arg # rest" and "1 < length arg"
  shows "args_left (p_remaining p') < args_left (p_remaining p)"
  using assms
  by (auto simp: handle_short_opt_def Let_def dest!: process_opt_keeps(1)
      split: sum.splits if_splits list.splits)

lemma handle_long_shrinks:
  assumes "handle_long_opt optstr p = Inr p'" and "p_remaining p = arg # rest"
  shows "args_left (p_remaining p') < args_left (p_remaining p)"
  using assms
  by (auto simp: handle_long_opt_def Let_def dest!: process_opt_keeps(1)
      split: sum.splits if_splits list.splits prod.splits)

function parse_loop :: "opt_parser \<Rightarrow> opt_stop + opt_parser" where
  "parse_loop p =
     (case p_remaining p of
        [] \<Rightarrow> Inr p
      | arg # rest \<Rightarrow>
          if arg = ''--'' then Inr (p\<lparr>p_remaining := rest\<rparr>)
          else if take 2 arg = ''--'' then
            (case handle_long_opt (drop 2 arg) p of Inl e \<Rightarrow> Inl e | Inr p' \<Rightarrow> parse_loop p')
          else if take 1 arg = ''-'' \<and> 1 < length arg then
            (case handle_short_opt (take 1 (drop 1 arg)) arg p of Inl e \<Rightarrow> Inl e | Inr p' \<Rightarrow> parse_loop p')
          else if p_interspersed p
            then parse_loop (p\<lparr>p_remaining := rest, p_leftover := p_leftover p @ [arg]\<rparr>)
            else Inr (p\<lparr>p_remaining := rest, p_leftover := p_leftover p @ [arg]\<rparr>))"
  by pat_completeness auto
termination
  by (relation "measure (\<lambda>p. args_left (p_remaining p))")
    (auto dest: handle_long_shrinks handle_short_shrinks)

declare parse_loop.simps [simp del]

text \<open>What the loop left unread is appended to the positional arguments.\<close>

definition take_rest :: "opt_parser \<Rightarrow> opt_parser" where
  "take_rest p = p\<lparr>p_remaining := [], p_leftover := p_leftover p @ p_remaining p\<rparr>"

definition default_if_unset :: "string \<Rightarrow> string \<Rightarrow> opt_values \<Rightarrow> opt_values" where
  "default_if_unset d s v = (if \<not> is_set v d then put_value d s v else v)"

definition apply_defaults :: "(string, string) smap \<Rightarrow> opt_values \<Rightarrow> opt_values" where
  "apply_defaults ds v = fold (\<lambda>(d, s). default_if_unset d s) ds v"

definition apply_opt_defaults :: "(nat \<times> opt_decl) list \<Rightarrow> opt_values \<Rightarrow> opt_values" where
  "apply_opt_defaults opts v =
     fold (\<lambda>(i, opt) v. if o_default opt \<noteq> '''' \<and> \<not> is_set v (o_dest opt)
                         then put_value (o_dest opt) (o_default opt) v else v) opts v"

definition all_defaults :: "opt_parser \<Rightarrow> opt_values \<Rightarrow> opt_values" where
  "all_defaults p v =
     fold (\<lambda>g v. apply_opt_defaults (g_opts g) (apply_defaults (g_defaults g) v)) (p_groups p)
       (apply_opt_defaults (p_opts p) (apply_defaults (p_defaults p) v))"

text \<open>The two options the parser adds itself, moved to the front of the list.\<close>

definition splice_front :: "opt_parser \<Rightarrow> opt_parser" where
  "splice_front p = (if p_opts p = [] then p else p\<lparr>p_opts := last (p_opts p) # butlast (p_opts p)\<rparr>)"

definition add_builtin :: "opt_parser \<Rightarrow> opt_parser" where
  "add_builtin p =
     (let p1 = (if p_add_version p \<and> p_version p \<noteq> ''''
                then splice_front (declare_option ([''--version''],
                       [Action ''version'', Help (''show program'' @ sq @ ''s version number and exit'')]) p)
                else p)
      in if p_add_help p1
         then splice_front (declare_option ([''-h'', ''--help''],
                [Action ''help'', Help ''show this help message and exit'']) p1)
         else p1)"

definition parse_args :: "string list \<Rightarrow> opt_parser \<Rightarrow> opt_stop + opt_parser" where
  "parse_args v p =
     (case parse_loop (add_builtin (p\<lparr>p_remaining := v\<rparr>)) of
        Inl e \<Rightarrow> Inl e
      | Inr p1 \<Rightarrow> (let p2 = take_rest p1 in Inr (p2\<lparr>p_values := all_defaults p2 (p_values p2)\<rparr>)))"

text \<open>\<open>parse_args(argc, argv)\<close>: the program name comes from \<open>argv[0]\<close>.\<close>

definition parse_argv :: "string list \<Rightarrow> opt_parser \<Rightarrow> opt_stop + opt_parser" where
  "parse_argv argv p =
     (case argv of [] \<Rightarrow> Inl (Throw Bad_access)
      | prog # args \<Rightarrow> parse_args args (if p_prog p = '''' then p\<lparr>p_prog := path_basename prog\<rparr> else p))"

end
