(* ===== verification/OptLaws.thy ===== *)
theory OptLaws
  imports OptParse
begin

text \<open>
  What the option parser guarantees: the invariant of a well-formed parser (no name points to a missing
  option, no option to a missing callback), the meaning of a command line item by item, and the values
  that result.
\<close>

subsection \<open>Lookup\<close>

definition all_opts :: "opt_parser \<Rightarrow> (nat \<times> opt_decl) list" where
  "all_opts p = p_opts p @ concat (map g_opts (p_groups p))"

definition long_decl :: "opt_parser \<Rightarrow> string \<Rightarrow> opt_decl option" where
  "long_decl p nm = Option.bind (smap_get (p_long p) nm) (map_of (all_opts p))"

definition short_decl :: "opt_parser \<Rightarrow> string \<Rightarrow> opt_decl option" where
  "short_decl p nm = Option.bind (smap_get (p_short p) nm) (map_of (all_opts p))"

lemma find_decl_eq: "find_decl p i = (case map_of (all_opts p) i of Some d \<Rightarrow> Inr d | None \<Rightarrow> Inl (Throw Bad_access))"
  by (simp add: find_decl_def all_opts_def)

lemma filter_name_sorted:
  "smap_sorted m \<Longrightarrow> filter (\<lambda>nm. nm = x) (map fst m) = (if smap_get m x = None then [] else [x])"
proof (induction m)
  case (Cons kv m)
  then have "smap_sorted m" and lt: "\<forall>k \<in> fst ` set m. fst kv < k"
    by (auto simp: smap_sorted_def)
  with Cons.IH show ?case
    by (cases kv) (auto simp: smap_get_def map_of_eq_None_iff filter_empty_conv)
qed (simp add: smap_get_def)

lemma lookup_long_opt_eq:
  assumes "smap_sorted (p_long p)"
  shows "lookup_long_opt nm p = (case smap_get (p_long p) nm of
      None \<Rightarrow> Inl (opt_error (''no such option: --'' @ nm) p) | Some i \<Rightarrow> find_decl p i)"
  using filter_name_sorted [OF assms, of nm] by (auto simp: lookup_long_opt_def Let_def split: option.splits)

lemma lookup_decl:
  "smap_sorted (p_long p) \<Longrightarrow> long_decl p nm = Some d \<Longrightarrow> lookup_long_opt nm p = Inr d"
  "short_decl p nm = Some d \<Longrightarrow> lookup_short_opt nm p = Inr d"
  by (auto simp: lookup_long_opt_eq lookup_short_opt_def find_decl_eq long_decl_def short_decl_def
      split: option.splits Option.bind_splits)

subsection \<open>The invariant\<close>

definition decl_ok :: "(nat, append_callback) smap \<Rightarrow> opt_decl \<Rightarrow> bool" where
  "decl_ok cbs d = (o_action d \<noteq> ''count'' \<and>
     (case o_callback d of None \<Rightarrow> True | Some c \<Rightarrow> smap_get cbs c \<noteq> None))"

definition names_ok :: "opt_parser \<Rightarrow> bool" where
  "names_ok p = (snd ` set (p_short p) \<union> snd ` set (p_long p) \<subseteq> fst ` set (all_opts p))"

definition decls_ok :: "opt_parser \<Rightarrow> bool" where
  "decls_ok p = (\<forall>d \<in> snd ` set (all_opts p). decl_ok (p_callbacks p) d)"

definition parser_wf :: "opt_parser \<Rightarrow> bool" where
  "parser_wf p = (smap_sorted (p_short p) \<and> smap_sorted (p_long p) \<and> smap_sorted (p_callbacks p) \<and>
      smap_sorted (v_map (p_values p)) \<and> names_ok p \<and> decls_ok p)"

lemma parser_wf_new: "parser_wf (parser_new c)"
  by (simp add: parser_wf_def parser_new_def smap_sorted_def all_opts_def values_new_def names_ok_def decls_ok_def)

lemma find_decl_wf:
  assumes "parser_wf p" and "smap_get (p_short p) nm = Some i \<or> smap_get (p_long p) nm = Some i"
  shows "\<exists>d. find_decl p i = Inr d \<and> decl_ok (p_callbacks p) d"
proof -
  from assms(2) have "i \<in> snd ` set (p_short p) \<union> snd ` set (p_long p)"
    by (force simp: smap_get_def dest: map_of_SomeD)
  with assms(1) have "i \<in> fst ` set (all_opts p)" by (auto simp: parser_wf_def names_ok_def)
  then obtain d where d: "map_of (all_opts p) i = Some d"
    by (cases "map_of (all_opts p) i") (auto simp: map_of_eq_None_iff)
  then have "d \<in> snd ` set (all_opts p)" by (force dest: map_of_SomeD)
  with assms(1) have "decl_ok (p_callbacks p) d" by (simp only: parser_wf_def decls_ok_def)
  with d show ?thesis by (simp add: find_decl_eq)
qed

lemma parser_wf_cong:
  assumes "parser_wf p" and "p_short q = p_short p" "p_long q = p_long p" "p_opts q = p_opts p"
    "p_groups q = p_groups p" and "p_callbacks q = p_callbacks p" and "smap_sorted (v_map (p_values q))"
  shows "parser_wf q"
proof -
  have "all_opts q = all_opts p" by (simp add: all_opts_def assms)
  then show ?thesis using assms by (simp add: parser_wf_def names_ok_def decls_ok_def)
qed

lemma parser_wf_remaining [simp]: "parser_wf (p\<lparr>p_remaining := r\<rparr>) = parser_wf p"
  by (simp add: parser_wf_def names_ok_def decls_ok_def all_opts_def)

lemma parser_wf_leftover [simp]: "parser_wf (p\<lparr>p_leftover := r\<rparr>) = parser_wf p"
  by (simp add: parser_wf_def names_ok_def decls_ok_def all_opts_def)

lemma parser_wf_value:
  assumes "parser_wf p"
  shows "parser_wf (store_value d s p)" and "parser_wf (append_value d s p)"
proof -
  have "smap_sorted (v_map (p_values p))" using assms by (simp add: parser_wf_def)
  then show "parser_wf (store_value d s p)" "parser_wf (append_value d s p)"
    using parser_wf_cong [OF assms]
    by (simp_all add: store_value_def append_value_def set_by_user_def put_value_def push_value_def smap_sorted_put)
qed

lemma parser_wf_callback:
  assumes "parser_wf p" and "run_callback d nm v p = Inr p'"
  shows "parser_wf p'"
proof (cases "o_callback d")
  case (Some c)
  with assms(2) obtain cb where cb: "smap_get (p_callbacks p) c = Some cb"
    and p': "p' = p\<lparr>p_callbacks := smap_put c (cb_call nm v cb) (p_callbacks p)\<rparr>"
    by (auto simp: run_callback_def split: option.splits)
  have "decl_ok (p_callbacks p') e" if "decl_ok (p_callbacks p) e" for e
    using that assms(1) by (auto simp: decl_ok_def p' parser_wf_def smap_get_put split: option.splits)
  moreover have "all_opts p' = all_opts p" by (simp add: p' all_opts_def)
  ultimately have "decls_ok p'" "names_ok p'"
    using assms(1) by (simp_all add: parser_wf_def decls_ok_def names_ok_def) (simp add: p')
  then show ?thesis using assms(1) by (simp add: parser_wf_def p' smap_sorted_put)
qed (use assms in \<open>simp add: run_callback_def\<close>)

text \<open>No step of a well-formed parser follows a bad pointer, and every step keeps the parser well-formed.\<close>

definition step_ok :: "opt_stop + opt_parser \<Rightarrow> bool" where
  "step_ok r = (case r of Inl e \<Rightarrow> e \<noteq> Throw Bad_access | Inr p \<Rightarrow> parser_wf p)"

lemma step_ok_simps [simp]: "step_ok (Inl e) \<longleftrightarrow> e \<noteq> Throw Bad_access" "step_ok (Inr p) = parser_wf p"
  by (simp_all add: step_ok_def)

lemma opt_error_ok [simp]: "opt_error msg p \<noteq> Throw e" "version_exit p \<noteq> Throw e"
  by (simp_all add: opt_error_def version_exit_def)

lemma option_help_error: "option_help c n d = Inl e \<Longrightarrow> e = Length_error"
proof -
  assume e: "option_help c n d = Inl e"
  obtain f where "str_format s p l i = Inr (f s p l i)" for s p l i using str_format_total by metis
  with e show ?thesis by (auto simp: option_help_def Let_def split: if_splits)
qed

lemma options_help_error: "options_help c n ds = Inl e \<Longrightarrow> e = Length_error"
  by (induction c n ds rule: options_help.induct)
    (auto simp: res_bind_def dest: option_help_error split: if_splits sum.splits)

lemma groups_help_error: "groups_help c gs = Inl e \<Longrightarrow> e = Length_error"
proof (induction c gs rule: groups_help.induct)
  case (2 c g gs)
  obtain d where "str_format (g_description g) 4 (cols c) True = Inr d" using str_format_total by blast
  with 2 show ?case by (auto simp: res_bind_def dest: options_help_error split: if_splits sum.splits)
qed simp

lemma format_help_error:
  assumes "format_help p = Inl e"
  shows "e = Length_error"
proof -
  obtain d where "str_format (p_description p) 0 (cols (p_columns p)) True = Inr d" using str_format_total by blast
  moreover obtain f where "str_format (p_epilog p) 0 (cols (p_columns p)) True = Inr f" using str_format_total by blast
  ultimately show ?thesis
    using assms by (auto simp: format_help_def Let_def res_bind_def
        dest: options_help_error groups_help_error split: if_splits sum.splits)
qed

lemma help_exit_ok [simp]: "help_exit p \<noteq> Throw Bad_access"
  using format_help_error [of p] by (auto simp: help_exit_def split: sum.splits)

lemma process_opt_ok:
  assumes "parser_wf p" and "decl_ok (p_callbacks p) d"
  shows "step_ok (process_opt d nm v p)"
proof -
  have "step_ok (run_callback d nm v p)"
    using parser_wf_callback [OF assms(1), of d nm v] assms(2)
    by (cases "run_callback d nm v p") (auto simp: run_callback_def decl_ok_def split: option.splits)
  then show ?thesis
    using assms by (simp add: process_opt_def Let_def parser_wf_value decl_ok_def)
qed

lemma handle_short_ok:
  assumes "parser_wf p"
  shows "step_ok (handle_short_opt opt arg p)"
proof -
  let ?p1 = "p\<lparr>p_remaining := tl (p_remaining p)\<rparr>"
  have wf: "parser_wf ?p1" using assms by simp
  show ?thesis
  proof (cases "smap_get (p_short ?p1) opt")
    case None
    then show ?thesis by (simp add: handle_short_opt_def Let_def lookup_short_opt_def)
  next
    case (Some i)
    with find_decl_wf [OF wf, of opt i] obtain d
      where d: "find_decl ?p1 i = Inr d" "decl_ok (p_callbacks ?p1) d" by auto
    then have "step_ok (process_opt d nm v (?p1\<lparr>p_remaining := r\<rparr>))"
      "step_ok (process_opt d nm v ?p1)" for nm v r
      using assms by (auto intro!: process_opt_ok)
    with Some d(1) show ?thesis
      by (simp add: handle_short_opt_def Let_def lookup_short_opt_def split: list.splits)
  qed
qed

lemma handle_long_ok:
  assumes "parser_wf p"
  shows "step_ok (handle_long_opt optstr p)"
proof -
  let ?p1 = "p\<lparr>p_remaining := tl (p_remaining p)\<rparr>"
  let ?nm = "case find_opt optstr ''='' 0 of Some i \<Rightarrow> take i optstr | None \<Rightarrow> optstr"
  have wf: "parser_wf ?p1" using assms by simp
  have s: "smap_sorted (p_long ?p1)" using assms by (simp add: parser_wf_def)
  show ?thesis
  proof (cases "smap_get (p_long ?p1) ?nm")
    case None
    then show ?thesis by (simp add: handle_long_opt_def Let_def lookup_long_opt_eq [OF s])
  next
    case (Some i)
    with find_decl_wf [OF wf, of ?nm i] obtain d
      where d: "find_decl ?p1 i = Inr d" "decl_ok (p_callbacks ?p1) d" by auto
    then have "step_ok (process_opt d nm v (?p1\<lparr>p_remaining := r\<rparr>))"
      "step_ok (process_opt d nm v ?p1)" for nm v r
      using assms by (auto intro!: process_opt_ok)
    with Some d(1) show ?thesis
      by (simp add: handle_long_opt_def Let_def lookup_long_opt_eq [OF s] split: list.splits)
  qed
qed

lemma parse_loop_ok: "parser_wf p \<Longrightarrow> step_ok (parse_loop p)"
proof (induction p rule: parse_loop.induct)
  case (1 p)
  note long = handle_long_ok [OF "1.prems"] and short = handle_short_ok [OF "1.prems"]
  show ?case
  proof (cases "p_remaining p")
    case Nil
    with "1.prems" show ?thesis by (subst parse_loop.simps) simp
  next
    case (Cons arg rest)
    note ih = "1.IH" [OF Cons]
    consider "arg = ''--''" | "arg \<noteq> ''--''" "take 2 arg = ''--''"
      | "arg \<noteq> ''--''" "take 2 arg \<noteq> ''--''" "take 1 arg = ''-'' \<and> 1 < length arg"
      | "arg \<noteq> ''--''" "take 2 arg \<noteq> ''--''" "\<not> (take 1 arg = ''-'' \<and> 1 < length arg)" by blast
    then show ?thesis
    proof cases
      case 1
      with Cons "1.prems" show ?thesis by (subst parse_loop.simps) simp
    next
      case 2
      show ?thesis
        using ih(1) [OF 2] long [of "drop 2 arg"] 2 Cons
        by (subst parse_loop.simps) (cases "handle_long_opt (drop 2 arg) p", auto)
    next
      case 3
      show ?thesis
        using ih(2) [OF 3] short [of "take 1 (drop 1 arg)" arg] 3 Cons
        by (subst parse_loop.simps) (cases "handle_short_opt (take 1 (drop 1 arg)) arg p", auto)
    next
      case 4
      have wf: "parser_wf (p\<lparr>p_remaining := rest, p_leftover := p_leftover p @ [arg]\<rparr>)"
        using "1.prems" by simp
      show ?thesis
        using ih(3) [OF 4 _ wf] wf 4 Cons by (subst parse_loop.simps) auto
    qed
  qed
qed

subsection \<open>Declaring options keeps the parser well-formed\<close>

lemma smap_put_values: "snd ` set (smap_put k v m) \<subseteq> insert v (snd ` set m)"
  by (induction k v m rule: smap_put.induct) auto

text \<open>What the names of one option change: only the two maps, and only towards the new number.\<close>

definition names_added :: "nat \<Rightarrow> opt_parser \<Rightarrow> opt_decl \<times> string \<times> opt_parser \<Rightarrow> bool" where
  "names_added i p st =
     (case st of (opt, fb, q) \<Rightarrow>
        p_opts q = p_opts p \<and> p_groups q = p_groups p \<and> p_callbacks q = p_callbacks p \<and>
        p_values q = p_values p \<and> p_next q = p_next p \<and> p_remaining q = p_remaining p \<and>
        smap_sorted (p_short q) \<and> smap_sorted (p_long q) \<and>
        snd ` set (p_short q) \<union> snd ` set (p_long q) \<subseteq> insert i (snd ` set (p_short p) \<union> snd ` set (p_long p)) \<and>
        o_action opt = ''store'' \<and> o_callback opt = None)"

lemma add_name_step: "names_added i p st \<Longrightarrow> names_added i p (add_name i nm st)"
proof -
  assume st: "names_added i p st"
  obtain opt fb q where q: "st = (opt, fb, q)" by (cases st)
  let ?S = "snd ` set (p_short p) \<union> snd ` set (p_long p)"
  have sub: "snd ` set (p_short q) \<subseteq> insert i ?S" "snd ` set (p_long q) \<subseteq> insert i ?S"
    using st unfolding names_added_def q prod.case by blast+
  have l: "snd ` set (smap_put (drop 2 nm) i (p_long q)) \<subseteq> insert i ?S"
    using smap_put_values [of "drop 2 nm" i "p_long q"] sub(2) by (meson insertI1 insert_subset subset_trans)
  have s: "snd ` set (smap_put (take 1 (drop 1 nm)) i (p_short q)) \<subseteq> insert i ?S"
    using smap_put_values [of "take 1 (drop 1 nm)" i "p_short q"] sub(1) by (meson insertI1 insert_subset subset_trans)
  show ?thesis
  proof (cases "take 2 nm = ''--''")
    case True
    then show ?thesis
      using st l sub by (simp add: q names_added_def add_name_def Let_def smap_sorted_put)
  next
    case False
    then show ?thesis
      using st s sub by (simp add: q names_added_def add_name_def Let_def smap_sorted_put)
  qed
qed

lemma add_names_keeps:
  assumes "parser_wf p"
  shows "names_added i p (add_names i nms (opt_new, '''', p))"
proof -
  have "names_added i p (opt_new, '''', p)"
    using assms by (auto simp: names_added_def parser_wf_def opt_new_def)
  then show ?thesis
    unfolding add_names_def by (induction nms rule: rev_induct) (simp_all add: add_name_step)
qed

definition call_ok :: "(nat, append_callback) smap \<Rightarrow> opt_call \<Rightarrow> bool" where
  "call_ok cbs c = (case c of Action a \<Rightarrow> a \<noteq> ''count'' | Callback i \<Rightarrow> smap_get cbs i \<noteq> None | _ \<Rightarrow> True)"

lemma opt_apply_ok: "call_ok cbs c \<Longrightarrow> decl_ok cbs d \<Longrightarrow> decl_ok cbs (opt_apply c d)"
  by (cases c) (auto simp: call_ok_def decl_ok_def set_action_def Let_def split: option.splits)

lemma opt_applies_ok: "list_all (call_ok cbs) cs \<Longrightarrow> decl_ok cbs d \<Longrightarrow> decl_ok cbs (fold opt_apply cs d)"
  by (induction cs arbitrary: d) (auto simp: opt_apply_ok)

lemma declare_option_wf:
  assumes "parser_wf p" and "list_all (call_ok (p_callbacks p)) (snd d)"
  shows "parser_wf (declare_option d p)" and "p_callbacks (declare_option d p) = p_callbacks p"
proof -
  obtain opt fb p1 where a: "add_names (p_next p) (fst d) (opt_new, '''', p) = (opt, fb, p1)"
    by (cases "add_names (p_next p) (fst d) (opt_new, '''', p)") auto
  note k = add_names_keeps [OF assms(1), of "p_next p" "fst d", unfolded a names_added_def prod.case]
  let ?o = "if o_dest opt = '''' then opt\<lparr>o_dest := fb\<rparr> else opt"
  let ?q = "declare_option d p"
  let ?f = "\<lambda>(i, e). (i, if i = p_next p then fold opt_apply (snd d) e else e)"
  have q: "p_opts ?q = map ?f (p_opts p @ [(p_next p, ?o)])" "p_groups ?q = p_groups p"
    "p_short ?q = p_short p1" "p_long ?q = p_long p1" "p_callbacks ?q = p_callbacks p" "p_values ?q = p_values p"
    using k by (simp_all add: declare_option_def add_option_def a Let_def)
  have o: "decl_ok (p_callbacks p) ?o" using k by (simp add: decl_ok_def)
  have old: "decl_ok (p_callbacks p) (snd x)" if "x \<in> set (all_opts p)" for x
    using assms(1) that by (simp add: parser_wf_def decls_ok_def)
  have new: "decl_ok (p_callbacks p) (snd (?f ie))" if "decl_ok (p_callbacks p) (snd ie)" for ie
    using that opt_applies_ok [OF assms(2)] by (cases ie) simp
  have all: "set (all_opts ?q) = ?f ` set (p_opts p) \<union> {?f (p_next p, ?o)} \<union> set (concat (map g_opts (p_groups p)))"
    by (simp add: all_opts_def q)
  have "decl_ok (p_callbacks p) (snd x)" if "x \<in> set (all_opts ?q)" for x
    using that unfolding all
  proof (elim UnE)
    assume "x \<in> ?f ` set (p_opts p)"
    then obtain y where "x = ?f y" "y \<in> set (all_opts p)" by (auto simp: all_opts_def)
    then show ?thesis using new [OF old] by simp
  next
    assume "x \<in> {?f (p_next p, ?o)}"
    then show ?thesis using new [of "(p_next p, ?o)"] o by simp
  next
    assume "x \<in> set (concat (map g_opts (p_groups p)))"
    then show ?thesis using old by (simp add: all_opts_def)
  qed
  then have "decls_ok ?q" by (simp add: decls_ok_def q)
  moreover have "fst ` set (all_opts ?q) = insert (p_next p) (fst ` set (all_opts p))"
    by (force simp: all_opts_def q)
  then have "names_ok ?q"
    using assms(1) k by (simp only: names_ok_def q parser_wf_def) blast
  ultimately show "parser_wf ?q"
    using assms(1) k by (simp add: parser_wf_def q)
  show "p_callbacks ?q = p_callbacks p" by (rule q(5))
qed

lemma declare_options_wf:
  "parser_wf p \<Longrightarrow> list_all (\<lambda>d. list_all (call_ok (p_callbacks p)) (snd d)) ds \<Longrightarrow>
     parser_wf (fold declare_option ds p) \<and> p_callbacks (fold declare_option ds p) = p_callbacks p"
proof (induction ds arbitrary: p)
  case (Cons d ds)
  show ?case
    using Cons.IH [of "declare_option d p"] Cons.prems declare_option_wf [of p d] by simp
qed simp

lemma splice_front_wf:
  assumes "parser_wf p"
  shows "parser_wf (splice_front p)"
proof (cases "p_opts p = []")
  case False
  let ?q = "splice_front p"
  have "set (last (p_opts p) # butlast (p_opts p)) = set (p_opts p)"
    using False by (metis append_butlast_last_id list.set(2) rotate1.simps(2) set_rotate1)
  then have eq: "set (all_opts ?q) = set (all_opts p)"
    using False by (auto simp: splice_front_def all_opts_def)
  have q: "p_short ?q = p_short p" "p_long ?q = p_long p" "p_callbacks ?q = p_callbacks p" "p_values ?q = p_values p"
    by (simp_all add: splice_front_def)
  show ?thesis
    using assms unfolding parser_wf_def names_ok_def decls_ok_def eq q .
qed (use assms in \<open>simp add: splice_front_def\<close>)

lemma add_builtin_wf: "parser_wf p \<Longrightarrow> parser_wf (add_builtin p)"
  by (simp add: add_builtin_def Let_def splice_front_wf declare_option_wf call_ok_def)

text \<open>
  C24. On a well-formed parser every command line either stops the program (usage error, help, version) or
  gives a well-formed parser: no name leads to a missing option, no option to a missing callback.
\<close>

theorem parse_args_safe:
  assumes "parser_wf p"
  shows "case parse_args args p of Inl e \<Rightarrow> e \<noteq> Throw Bad_access
    | Inr q \<Rightarrow> p_remaining q = [] \<and> smap_sorted (p_long q) \<and> names_ok q \<and> decls_ok q"
proof -
  have "step_ok (parse_loop (add_builtin (p\<lparr>p_remaining := args\<rparr>)))"
    using assms by (intro parse_loop_ok add_builtin_wf) simp
  moreover have "names_ok (q\<lparr>p_values := v\<rparr>) = names_ok q" "decls_ok (q\<lparr>p_values := v\<rparr>) = decls_ok q"
    "names_ok (take_rest q) = names_ok q" "decls_ok (take_rest q) = decls_ok q" for q v
    by (simp_all add: names_ok_def decls_ok_def all_opts_def take_rest_def)
  ultimately show ?thesis
    by (auto simp: parse_args_def Let_def parser_wf_def step_ok_def take_rest_def split: sum.splits)
qed

subsection \<open>A command line item by item\<close>

text \<open>
  The reference semantics: a command line is a sequence of items, each written as one or two arguments and
  each one call of \<open>process_opt\<close> (or one positional argument).
\<close>

datatype cmd_item =
    Long_eq string string
  | Long_sp string string
  | Short_sp char string
  | Short_att char string
  | Long_flag string
  | Short_flag char
  | Word string

fun item_args :: "cmd_item \<Rightarrow> string list" where
  "item_args (Long_eq n v) = [''--'' @ n @ ''='' @ v]"
| "item_args (Long_sp n v) = [''--'' @ n, v]"
| "item_args (Short_sp c v) = [[CHR ''-'', c], v]"
| "item_args (Short_att c v) = [CHR ''-'' # c # v]"
| "item_args (Long_flag n) = [''--'' @ n]"
| "item_args (Short_flag c) = [[CHR ''-'', c]]"
| "item_args (Word a) = [a]"

fun item_step :: "cmd_item \<Rightarrow> opt_parser \<Rightarrow> opt_stop + opt_parser" where
  "item_step (Long_eq n v) p = process_opt (the (long_decl p n)) (''--'' @ n) v p"
| "item_step (Long_sp n v) p = process_opt (the (long_decl p n)) (''--'' @ n) v p"
| "item_step (Short_sp c v) p = process_opt (the (short_decl p [c])) [CHR ''-'', c] v p"
| "item_step (Short_att c v) p = process_opt (the (short_decl p [c])) [CHR ''-'', c] v p"
| "item_step (Long_flag n) p = process_opt (the (long_decl p n)) (''--'' @ n) '''' p"
| "item_step (Short_flag c) p = process_opt (the (short_decl p [c])) [CHR ''-'', c] '''' p"
| "item_step (Word a) p = Inr (p\<lparr>p_leftover := p_leftover p @ [a]\<rparr>)"

definition takes :: "opt_decl option \<Rightarrow> nat \<Rightarrow> bool" where
  "takes d n = (case d of None \<Rightarrow> False | Some o' \<Rightarrow> o_nargs o' = n)"

definition value_ok :: "string \<Rightarrow> string \<Rightarrow> bool" where
  "value_ok n v = (v \<noteq> '''' \<or> n = ''msg-content-list-item'')"

fun item_ok :: "opt_parser \<Rightarrow> cmd_item \<Rightarrow> bool" where
  "item_ok p (Long_eq n v) = (no_sep ''='' n \<and> takes (long_decl p n) 1 \<and> value_ok n v)"
| "item_ok p (Long_sp n v) = (n \<noteq> '''' \<and> no_sep ''='' n \<and> takes (long_decl p n) 1 \<and> value_ok n v)"
| "item_ok p (Short_sp c v) = (c \<noteq> CHR ''-'' \<and> takes (short_decl p [c]) 1)"
| "item_ok p (Short_att c v) = (c \<noteq> CHR ''-'' \<and> takes (short_decl p [c]) 1 \<and> v \<noteq> '''')"
| "item_ok p (Long_flag n) = (n \<noteq> '''' \<and> no_sep ''='' n \<and> takes (long_decl p n) 0)"
| "item_ok p (Short_flag c) = (c \<noteq> CHR ''-'' \<and> takes (short_decl p [c]) 0)"
| "item_ok p (Word a) = (p_interspersed p \<and> (take 1 a \<noteq> ''-'' \<or> length a \<le> 1))"

fun run_items :: "cmd_item list \<Rightarrow> opt_parser \<Rightarrow> opt_stop + opt_parser" where
  "run_items [] p = Inr p"
| "run_items (it # its) p = (case item_step it p of Inl e \<Rightarrow> Inl e | Inr p' \<Rightarrow> run_items its p')"

text \<open>The arguments still to be read play no role in \<open>process_opt\<close>.\<close>

lemma format_help_remaining [simp]: "format_help (p\<lparr>p_remaining := r\<rparr>) = format_help p"
  by (simp add: format_help_def get_usage_def Let_def cong: if_cong)

lemma remaining_exits [simp]:
  "opt_error msg (p\<lparr>p_remaining := r\<rparr>) = opt_error msg p"
  "help_exit (p\<lparr>p_remaining := r\<rparr>) = help_exit p"
  "version_exit (p\<lparr>p_remaining := r\<rparr>) = version_exit p"
  by (simp_all add: opt_error_def help_exit_def version_exit_def print_usage_def get_usage_def
      get_version_def)

lemma process_opt_remaining:
  "process_opt d n v (p\<lparr>p_remaining := r\<rparr>) = map_sum id (\<lambda>q. q\<lparr>p_remaining := r\<rparr>) (process_opt d n v p)"
  by (simp add: process_opt_def Let_def store_value_def append_value_def run_callback_def split: sum.split option.split)

lemma remaining_decl [simp]:
  "long_decl (p\<lparr>p_remaining := r\<rparr>) n = long_decl p n" "short_decl (p\<lparr>p_remaining := r\<rparr>) n = short_decl p n"
  by (simp_all add: long_decl_def short_decl_def all_opts_def)

lemma no_sep_single: "no_sep [c] n \<longleftrightarrow> c \<notin> set n"
  by (auto simp: no_sep_def list_all_iff)

lemma find_eq_free: "no_sep ''='' n \<Longrightarrow> find_opt n ''='' 0 = None"
  by (simp add: find_opt_def no_sep_single find_at_char_None)

lemma find_eq_split: "no_sep ''='' n \<Longrightarrow> find_opt (n @ CHR ''='' # v) ''='' 0 = Some (length n)"
  by (simp add: find_opt_def no_sep_single find_at_char_append)

lemma handle_long_item:
  assumes "smap_sorted (p_long p)" and "long_decl p n = Some d" and "no_sep ''='' n"
  shows "o_nargs d = 1 \<Longrightarrow> value_ok n v \<Longrightarrow>
      handle_long_opt (n @ CHR ''='' # v) (p\<lparr>p_remaining := a # r\<rparr>) = process_opt d (''--'' @ n) v (p\<lparr>p_remaining := r\<rparr>)"
    and "o_nargs d = 1 \<Longrightarrow> value_ok n v \<Longrightarrow>
      handle_long_opt n (p\<lparr>p_remaining := a # v # r\<rparr>) = process_opt d (''--'' @ n) v (p\<lparr>p_remaining := r\<rparr>)"
    and "o_nargs d = 0 \<Longrightarrow>
      handle_long_opt n (p\<lparr>p_remaining := a # r\<rparr>) = process_opt d (''--'' @ n) '''' (p\<lparr>p_remaining := r\<rparr>)"
proof -
  have l: "lookup_long_opt n (p\<lparr>p_remaining := s\<rparr>) = Inr d" for s
    using assms by (intro lookup_decl) simp_all
  show "o_nargs d = 1 \<Longrightarrow> value_ok n v \<Longrightarrow>
      handle_long_opt (n @ CHR ''='' # v) (p\<lparr>p_remaining := a # r\<rparr>) = process_opt d (''--'' @ n) v (p\<lparr>p_remaining := r\<rparr>)"
    using assms(3) l by (auto simp: handle_long_opt_def Let_def find_eq_split value_ok_def)
  show "o_nargs d = 1 \<Longrightarrow> value_ok n v \<Longrightarrow>
      handle_long_opt n (p\<lparr>p_remaining := a # v # r\<rparr>) = process_opt d (''--'' @ n) v (p\<lparr>p_remaining := r\<rparr>)"
    using assms(3) l by (auto simp: handle_long_opt_def Let_def find_eq_free value_ok_def)
  show "o_nargs d = 0 \<Longrightarrow>
      handle_long_opt n (p\<lparr>p_remaining := a # r\<rparr>) = process_opt d (''--'' @ n) '''' (p\<lparr>p_remaining := r\<rparr>)"
    using assms(3) l by (simp add: handle_long_opt_def Let_def find_eq_free)
qed

lemma handle_short_item:
  assumes "short_decl p [c] = Some d"
  shows "o_nargs d = 1 \<Longrightarrow> v \<noteq> '''' \<Longrightarrow>
      handle_short_opt [c] (CHR ''-'' # c # v) (p\<lparr>p_remaining := a # r\<rparr>) = process_opt d [CHR ''-'', c] v (p\<lparr>p_remaining := r\<rparr>)"
    and "o_nargs d = 1 \<Longrightarrow>
      handle_short_opt [c] [CHR ''-'', c] (p\<lparr>p_remaining := a # v # r\<rparr>) = process_opt d [CHR ''-'', c] v (p\<lparr>p_remaining := r\<rparr>)"
    and "o_nargs d = 0 \<Longrightarrow>
      handle_short_opt [c] [CHR ''-'', c] (p\<lparr>p_remaining := a # r\<rparr>) = process_opt d [CHR ''-'', c] '''' (p\<lparr>p_remaining := r\<rparr>)"
  using lookup_decl(2) [of "p\<lparr>p_remaining := s\<rparr>" "[c]" d for s] assms
  by (simp_all add: handle_short_opt_def Let_def)

lemma parse_loop_item:
  assumes "smap_sorted (p_long p)" and "item_ok p it"
  shows "parse_loop (p\<lparr>p_remaining := item_args it @ r\<rparr>) =
    (case item_step it p of Inl e \<Rightarrow> Inl e | Inr p' \<Rightarrow> parse_loop (p'\<lparr>p_remaining := r\<rparr>))"
proof (cases it)
  case (Long_eq n v)
  with assms obtain d where d: "long_decl p n = Some d" "o_nargs d = 1" "no_sep ''='' n" "value_ok n v"
    by (auto simp: takes_def split: option.splits)
  from handle_long_item(1) [OF assms(1) d(1,3,2,4)] show ?thesis
    by (subst parse_loop.simps) (simp add: Long_eq d process_opt_remaining split: sum.split)
next
  case (Long_sp n v)
  with assms obtain d where d: "long_decl p n = Some d" "o_nargs d = 1" "no_sep ''='' n" "value_ok n v" "n \<noteq> ''''"
    by (auto simp: takes_def split: option.splits)
  from handle_long_item(2) [OF assms(1) d(1,3,2,4)] d(5) show ?thesis
    by (subst parse_loop.simps) (simp add: Long_sp d process_opt_remaining split: sum.split)
next
  case (Short_sp c v)
  with assms obtain d where d: "short_decl p [c] = Some d" "o_nargs d = 1" "c \<noteq> CHR ''-''"
    by (auto simp: takes_def split: option.splits)
  from handle_short_item(2) [OF d(1,2)] d(3) show ?thesis
    by (subst parse_loop.simps) (simp add: Short_sp d process_opt_remaining split: sum.split)
next
  case (Short_att c v)
  with assms obtain d where d: "short_decl p [c] = Some d" "o_nargs d = 1" "v \<noteq> ''''" "c \<noteq> CHR ''-''"
    by (auto simp: takes_def split: option.splits)
  from handle_short_item(1) [OF d(1-3)] d(4) show ?thesis
    by (subst parse_loop.simps) (simp add: Short_att d process_opt_remaining split: sum.split)
next
  case (Long_flag n)
  with assms obtain d where d: "long_decl p n = Some d" "o_nargs d = 0" "no_sep ''='' n" "n \<noteq> ''''"
    by (auto simp: takes_def split: option.splits)
  from handle_long_item(3) [OF assms(1) d(1,3,2)] d(4) show ?thesis
    by (subst parse_loop.simps) (simp add: Long_flag d process_opt_remaining split: sum.split)
next
  case (Short_flag c)
  with assms obtain d where d: "short_decl p [c] = Some d" "o_nargs d = 0" "c \<noteq> CHR ''-''"
    by (auto simp: takes_def split: option.splits)
  from handle_short_item(3) [OF d(1,2)] d(3) show ?thesis
    by (subst parse_loop.simps) (simp add: Short_flag d process_opt_remaining split: sum.split)
next
  case (Word a)
  have "take 1 a = ''-''" if "take 2 a = ''--''"
  proof -
    from that have "take 1 (take 2 a) = take 1 ''--''" by (rule arg_cong)
    then show ?thesis by simp
  qed
  moreover have "1 < length a" if "take 2 a = ''--''"
    using arg_cong [OF that, of length] by simp
  ultimately have "take 2 a \<noteq> ''--''" "a \<noteq> ''--''" using assms Word by auto
  then show ?thesis using assms Word
    by (subst parse_loop.simps) (auto intro!: arg_cong [where f = parse_loop])
qed

lemma process_opt_tables:
  assumes "process_opt d n v p = Inr p'"
  shows "long_decl p' = long_decl p" "short_decl p' = short_decl p" "p_interspersed p' = p_interspersed p"
    "p_long p' = p_long p"
  using process_opt_keeps [OF assms] by (simp_all add: long_decl_def short_decl_def all_opts_def fun_eq_iff)

lemma item_step_tables:
  assumes "item_step it p = Inr p'"
  shows "item_ok p' = item_ok p" and "p_long p' = p_long p"
proof -
  have t: "long_decl p' = long_decl p" "short_decl p' = short_decl p" "p_interspersed p' = p_interspersed p"
    "p_long p' = p_long p"
    using assms by (cases it; auto dest: process_opt_tables simp: long_decl_def short_decl_def all_opts_def fun_eq_iff)+
  show "p_long p' = p_long p" by (rule t)
  show "item_ok p' = item_ok p"
  proof
    fix i show "item_ok p' i = item_ok p i" by (cases i) (simp_all add: t)
  qed
qed

lemma item_step_remaining: "item_step it p = Inr p' \<Longrightarrow> p_remaining p' = p_remaining p"
  by (cases it) (auto dest: process_opt_keeps(1))

lemma item_step_set_remaining:
  "item_step it (p\<lparr>p_remaining := r\<rparr>) = map_sum id (\<lambda>q. q\<lparr>p_remaining := r\<rparr>) (item_step it p)"
  by (cases it) (simp_all add: process_opt_remaining)

lemma parse_loop_items:
  "smap_sorted (p_long p) \<Longrightarrow> list_all (item_ok p) its \<Longrightarrow>
     parse_loop (p\<lparr>p_remaining := concat (map item_args its) @ r\<rparr>) =
     (case run_items its p of Inl e \<Rightarrow> Inl e | Inr p' \<Rightarrow> parse_loop (p'\<lparr>p_remaining := r\<rparr>))"
proof (induction its arbitrary: p)
  case (Cons it its)
  from Cons.prems have it: "item_ok p it" by simp
  show ?case
  proof (cases "item_step it p")
    case (Inl e)
    with parse_loop_item [OF Cons.prems(1) it] show ?thesis by simp
  next
    case (Inr p1)
    from item_step_tables [OF Inr] Cons.prems
    have "smap_sorted (p_long p1)" "list_all (item_ok p1) its" by auto
    from Cons.IH [OF this] Inr show ?thesis
      using parse_loop_item [OF Cons.prems(1) it, of "concat (map item_args its) @ r"] by simp
  qed
qed simp

text \<open>
  C23. A command line written as items (\<open>--name=value\<close>, \<open>--name value\<close>, \<open>-n value\<close>, \<open>-nvalue\<close>,
  flags, words), optionally followed by \<open>--\<close> and anything, is read exactly as the sequence of its items:
  same result, same error, and what follows \<open>--\<close> is left unread for the positional arguments.
\<close>

theorem parse_loop_refines_items:
  assumes "smap_sorted (p_long p)" and "list_all (item_ok p) its" and "rest = [] \<or> (\<exists>r. rest = ''--'' # r)"
  shows "parse_loop (p\<lparr>p_remaining := concat (map item_args its) @ rest\<rparr>) =
    map_sum id (\<lambda>q. q\<lparr>p_remaining := tl rest\<rparr>) (run_items its p)"
proof -
  have "parse_loop (q\<lparr>p_remaining := rest\<rparr>) = Inr (q\<lparr>p_remaining := tl rest\<rparr>)" for q
    using assms(3) by (subst parse_loop.simps) auto
  then show ?thesis
    using parse_loop_items [OF assms(1,2), of rest] by (auto split: sum.split)
qed

subsection \<open>The values that result\<close>

text \<open>What an item stores: its destination and value, for the two storing actions the clients' tables use.\<close>

definition stores :: "opt_decl option \<Rightarrow> string \<Rightarrow> string \<Rightarrow> (string \<times> string) option" where
  "stores d nm v =
     (case d of None \<Rightarrow> None
      | Some opt \<Rightarrow> if o_action opt = ''store'' \<and> check_type opt nm v = '''' then Some (o_dest opt, v)
                   else if o_action opt = ''store_true'' then Some (o_dest opt, ''1'') else None)"

fun item_store :: "opt_parser \<Rightarrow> cmd_item \<Rightarrow> (string \<times> string) option" where
  "item_store p (Long_eq n v) = stores (long_decl p n) (''--'' @ n) v"
| "item_store p (Long_sp n v) = stores (long_decl p n) (''--'' @ n) v"
| "item_store p (Short_sp c v) = stores (short_decl p [c]) [CHR ''-'', c] v"
| "item_store p (Short_att c v) = stores (short_decl p [c]) [CHR ''-'', c] v"
| "item_store p (Long_flag n) = stores (long_decl p n) (''--'' @ n) ''''"
| "item_store p (Short_flag c) = stores (short_decl p [c]) [CHR ''-'', c] ''''"
| "item_store p (Word a) = None"

definition put_pair :: "string \<times> string \<Rightarrow> opt_values \<Rightarrow> opt_values" where
  "put_pair ds v = set_by_user (fst ds) True (put_value (fst ds) (snd ds) v)"

lemma process_opt_stores:
  assumes "stores d nm v = Some ds"
  shows "process_opt (the d) nm v p = Inr (p\<lparr>p_values := put_pair ds (p_values p)\<rparr>)"
proof -
  from assms obtain opt where d: "d = Some opt" by (cases d) (simp_all add: stores_def)
  with assms consider "o_action opt = ''store''" "check_type opt nm v = ''''" "ds = (o_dest opt, v)"
    | "o_action opt = ''store_true''" "ds = (o_dest opt, ''1'')"
    by (auto simp: stores_def split: if_splits)
  then show ?thesis
    by cases (simp_all add: d process_opt_def store_value_def put_pair_def)
qed

lemma item_step_stores:
  "item_store p it = Some ds \<Longrightarrow> item_step it p = Inr (p\<lparr>p_values := put_pair ds (p_values p)\<rparr>)"
  by (cases it) (simp_all add: process_opt_stores)

lemma values_decl [simp]:
  "long_decl (p\<lparr>p_values := r\<rparr>) n = long_decl p n" "short_decl (p\<lparr>p_values := r\<rparr>) n = short_decl p n"
  by (simp_all add: long_decl_def short_decl_def all_opts_def)

lemma item_store_values [simp]: "item_store (p\<lparr>p_values := r\<rparr>) it = item_store p it"
  by (cases it) simp_all

lemma run_items_stores:
  "list_all (\<lambda>it. item_store p it \<noteq> None) its \<Longrightarrow>
     run_items its p = Inr (p\<lparr>p_values := fold put_pair (map (the \<circ> item_store p) its) (p_values p)\<rparr>)"
proof (induction its arbitrary: p)
  case (Cons it its)
  then obtain ds where ds: "item_store p it = Some ds" by auto
  show ?case
    using Cons.IH [of "p\<lparr>p_values := put_pair ds (p_values p)\<rparr>"] Cons.prems
    by (simp add: item_step_stores [OF ds] ds comp_def)
qed simp

lemma put_pairs_map:
  "smap_sorted (v_map v) \<Longrightarrow> smap_sorted (v_map (fold put_pair kvs v)) \<and>
     smap_get (v_map (fold put_pair kvs v)) = smap_get (v_map v) ++ map_of (rev kvs) \<and>
     set (v_user (fold put_pair kvs v)) = set (v_user v) \<union> fst ` set kvs"
proof (induction kvs arbitrary: v)
  case (Cons kv kvs)
  have s: "smap_sorted (v_map (put_pair kv v))"
    using Cons.prems by (simp add: put_pair_def set_by_user_def put_value_def smap_sorted_put)
  have "smap_get (v_map (put_pair kv v)) = smap_get (v_map v) ++ [fst kv \<mapsto> snd kv]"
    by (simp add: put_pair_def set_by_user_def put_value_def smap_get_put map_add_def fun_eq_iff)
  moreover have "set (v_user (put_pair kv v)) = insert (fst kv) (set (v_user v))"
    by (simp add: put_pair_def set_by_user_def put_value_def set_insort_insert)
  ultimately show ?case using Cons.IH [OF s] by (cases kv) (auto simp: fun_upd_def)
qed simp

text \<open>The defaults, as one list in the order in which they are tried.\<close>

definition opt_defaults :: "(nat \<times> opt_decl) list \<Rightarrow> (string \<times> string) list" where
  "opt_defaults opts = map (\<lambda>(i, opt). (o_dest opt, o_default opt)) (filter (\<lambda>(i, opt). o_default opt \<noteq> '''') opts)"

definition default_list :: "opt_parser \<Rightarrow> (string \<times> string) list" where
  "default_list p = p_defaults p @ opt_defaults (p_opts p) @
     concat (map (\<lambda>g. g_defaults g @ opt_defaults (g_opts g)) (p_groups p))"

definition put_defaults :: "(string \<times> string) list \<Rightarrow> opt_values \<Rightarrow> opt_values" where
  "put_defaults ds v = fold (\<lambda>(d, s). default_if_unset d s) ds v"

lemma apply_opt_defaults_eq: "apply_opt_defaults opts v = put_defaults (opt_defaults opts) v"
proof (induction opts arbitrary: v)
  case (Cons x xs)
  obtain i opt where x: "x = (i, opt)" by (cases x)
  show ?case
  proof (cases "o_default opt = ''''")
    case True
    then show ?thesis using Cons [of v] by (simp add: x apply_opt_defaults_def put_defaults_def opt_defaults_def)
  next
    case False
    then show ?thesis using Cons [of "default_if_unset (o_dest opt) (o_default opt) v"]
      by (simp add: x apply_opt_defaults_def put_defaults_def opt_defaults_def default_if_unset_def)
  qed
qed (simp add: apply_opt_defaults_def put_defaults_def opt_defaults_def)

lemma put_defaults_append [simp]: "put_defaults (a @ b) v = put_defaults b (put_defaults a v)"
  by (simp add: put_defaults_def)

lemma all_defaults_eq: "all_defaults p v = put_defaults (default_list p) v"
proof -
  have "fold (\<lambda>g v. apply_opt_defaults (g_opts g) (apply_defaults (g_defaults g) v)) gs u =
      put_defaults (concat (map (\<lambda>g. g_defaults g @ opt_defaults (g_opts g)) gs)) u" for gs u
    by (induction gs arbitrary: u) (simp_all add: apply_opt_defaults_eq apply_defaults_def put_defaults_def)
  then show ?thesis
    by (simp add: all_defaults_def default_list_def apply_opt_defaults_eq apply_defaults_def put_defaults_def)
qed

lemma put_defaults_get:
  "smap_sorted (v_map v) \<Longrightarrow> smap_sorted (v_map (put_defaults ds v)) \<and>
     smap_get (v_map (put_defaults ds v)) = map_of ds ++ smap_get (v_map v) \<and> v_user (put_defaults ds v) = v_user v"
proof (induction ds arbitrary: v)
  case (Cons x ds)
  obtain d s where x: "x = (d, s)" by (cases x)
  let ?v = "default_if_unset d s v"
  have s: "smap_sorted (v_map ?v)"
    using Cons.prems by (simp add: default_if_unset_def put_value_def smap_sorted_put)
  have "smap_get (v_map ?v) = [d \<mapsto> s] ++ smap_get (v_map v)" "v_user ?v = v_user v"
    by (auto simp: default_if_unset_def put_value_def is_set_def smap_get_put map_add_def fun_eq_iff split: option.splits)
  then show ?case
    using Cons.IH [OF s] by (simp add: x put_defaults_def) (auto simp: map_add_def fun_eq_iff split: option.splits)
qed (simp add: put_defaults_def)

lemma declare_option_keeps:
  assumes "parser_wf p"
  shows "p_remaining (declare_option d p) = p_remaining p" "p_values (declare_option d p) = p_values p"
proof -
  obtain opt fb p1 where a: "add_names (p_next p) (fst d) (opt_new, '''', p) = (opt, fb, p1)"
    by (cases "add_names (p_next p) (fst d) (opt_new, '''', p)") auto
  from add_names_keeps [OF assms, of "p_next p" "fst d"]
  show "p_remaining (declare_option d p) = p_remaining p" "p_values (declare_option d p) = p_values p"
    by (simp_all add: a names_added_def declare_option_def add_option_def Let_def)
qed

lemma add_builtin_keeps:
  assumes "parser_wf p"
  shows "p_remaining (add_builtin p) = p_remaining p" "p_values (add_builtin p) = p_values p"
proof -
  have sp: "p_remaining (splice_front q) = p_remaining q" "p_values (splice_front q) = p_values q" for q
    by (simp_all add: splice_front_def)
  have "parser_wf (splice_front (declare_option ([''--version''],
      [Action ''version'', Help (''show program'' @ sq @ ''s version number and exit'')]) p))"
    using assms by (intro splice_front_wf declare_option_wf) (simp_all add: call_ok_def)
  then show "p_remaining (add_builtin p) = p_remaining p" "p_values (add_builtin p) = p_values p"
    using assms by (simp_all add: add_builtin_def Let_def sp declare_option_keeps)
qed

text \<open>
  C25. The values after a command line of storing items: the last value given for a destination, else the first
  default that applies, else nothing; and exactly the destinations that were given count as set by the user.
\<close>

theorem parse_args_values:
  assumes wf: "parser_wf p" and fresh: "p_values p = values_new"
    and q: "q = add_builtin (p\<lparr>p_remaining := concat (map item_args its)\<rparr>)"
    and ok: "list_all (item_ok q) its" "list_all (\<lambda>it. item_store q it \<noteq> None) its"
    and kvs: "kvs = map (the \<circ> item_store q) its"
  shows "\<exists>r. parse_args (concat (map item_args its)) p = Inr r \<and>
    smap_get (v_map (p_values r)) = map_of (default_list q) ++ map_of (rev kvs) \<and>
    (\<forall>d. is_set_by_user (p_values r) d \<longleftrightarrow> d \<in> fst ` set kvs)"
proof -
  let ?as = "concat (map item_args its)"
  have wf': "parser_wf (p\<lparr>p_remaining := ?as\<rparr>)" using wf by simp
  note k = add_builtin_keeps [OF wf', folded q]
  have wfq: "smap_sorted (p_long q)" using add_builtin_wf [OF wf'] by (simp add: q parser_wf_def)
  have qr: "q\<lparr>p_remaining := ?as @ []\<rparr> = q" using k(1) by simp
  have v: "p_values q = values_new" using k(2) fresh by simp
  let ?v = "fold put_pair kvs (p_values q)"
  have loop: "parse_loop q = Inr (q\<lparr>p_values := ?v, p_remaining := []\<rparr>)"
    using parse_loop_items [OF wfq ok(1), of "[]"] run_items_stores [OF ok(2)]
    by (simp add: qr [simplified] kvs parse_loop.simps)
  have s: "smap_sorted (v_map (p_values q))" by (simp add: v values_new_def smap_sorted_def)
  note m = put_pairs_map [OF s, of kvs]
  have dl: "default_list (take_rest (q\<lparr>p_values := ?v, p_remaining := []\<rparr>)) = default_list q"
    by (simp add: take_rest_def default_list_def)
  have "parse_args ?as p = Inr (take_rest (q\<lparr>p_values := ?v, p_remaining := []\<rparr>)
      \<lparr>p_values := put_defaults (default_list q) ?v\<rparr>)"
    using loop dl by (simp add: parse_args_def q [symmetric] Let_def all_defaults_eq) (simp add: take_rest_def)
  then show ?thesis
    using m put_defaults_get [of ?v "default_list q"]
    by (simp add: v values_new_def smap_empty is_set_by_user_def)
qed

text \<open>
  C30. An option the parser does not know stops the program with status 2, nothing on the standard output, and
  the usage and the name of the option on the error output, whatever well-formed items precede it and
  whatever follows.
\<close>

theorem unknown_option_error:
  assumes wf: "parser_wf p"
    and q: "q = add_builtin (p\<lparr>p_remaining := concat (map item_args its) @ (''--'' @ n) # rest\<rparr>)"
    and ok: "list_all (item_ok q) its" "list_all (\<lambda>it. item_store q it \<noteq> None) its"
    and n: "n \<noteq> ''''" "no_sep ''='' n" "smap_get (p_long q) n = None"
  shows "parse_args (concat (map item_args its) @ (''--'' @ n) # rest) p =
    Inl (Exit 2 '''' (print_usage q @ p_prog q @ '': error: no such option: --'' @ n @ newline))"
proof -
  let ?as = "concat (map item_args its) @ (''--'' @ n) # rest"
  have wf': "parser_wf (p\<lparr>p_remaining := ?as\<rparr>)" using wf by simp
  have wfq: "smap_sorted (p_long q)" using add_builtin_wf [OF wf'] by (simp add: q parser_wf_def)
  have qr: "q\<lparr>p_remaining := ?as\<rparr> = q" using add_builtin_keeps(1) [OF wf', folded q] by simp
  define v where "v = fold put_pair (map (the \<circ> item_store q) its) (p_values q)"
  let ?q = "q\<lparr>p_values := v\<rparr>"
  have look: "lookup_long_opt n (?q\<lparr>p_remaining := s\<rparr>) = Inl (opt_error (''no such option: --'' @ n) ?q)" for s
    using lookup_long_opt_eq [of "?q\<lparr>p_remaining := s\<rparr>" n] wfq n(3) by simp
  have err: "opt_error m ?q = opt_error m q" for m by (simp add: opt_error_def print_usage_def get_usage_def)
  have "parse_loop (?q\<lparr>p_remaining := (''--'' @ n) # rest\<rparr>) = Inl (opt_error (''no such option: --'' @ n) q)"
    using n look [of rest] by (subst parse_loop.simps) (simp add: handle_long_opt_def Let_def find_eq_free err)
  then have "parse_loop q = Inl (opt_error (''no such option: --'' @ n) q)"
    using parse_loop_items [OF wfq ok(1), of "(''--'' @ n) # rest"] run_items_stores [OF ok(2)]
    by (simp add: qr [simplified] v_def)
  then show ?thesis unfolding parse_args_def q [symmetric] by (simp add: opt_error_def)
qed

subsection \<open>A small table\<close>

text \<open>The table of the connector's own options, used to apply the theorems above.\<close>

definition sample_parser :: opt_parser where
  "sample_parser = fold declare_option
     [([''-c'', ''--count''], [Dest ''count'', Type ''int'', Metavar ''COUNT'']),
      ([''--blocking''], [Action ''store_true'', Dest ''blocking'', Type ''bool'']),
      ([''--mode''], [Default ''fast''])] (parser_new None)"

lemma sample_parser_wf: "parser_wf sample_parser"
  unfolding sample_parser_def
  using declare_options_wf [OF parser_wf_new, of None
      "[([''-c'', ''--count''], [Dest ''count'', Type ''int'', Metavar ''COUNT'']),
      ([''--blocking''], [Action ''store_true'', Dest ''blocking'', Type ''bool'']),
      ([''--mode''], [Default ''fast''])]"] by (simp add: call_ok_def)

lemma parse_args_safe_witness:
  "case parse_args [''--count'', ''x''] sample_parser of Inl e \<Rightarrow> e \<noteq> Throw Bad_access
    | Inr q \<Rightarrow> p_remaining q = [] \<and> smap_sorted (p_long q) \<and> names_ok q \<and> decls_ok q"
  by (rule parse_args_safe [OF sample_parser_wf])

lemma parse_loop_refines_items_witness:
  "parse_loop (sample_parser\<lparr>p_remaining := [''-c'', ''5'', ''--blocking'', ''w'', ''--'', ''-z'']\<rparr>) =
    map_sum id (\<lambda>q. q\<lparr>p_remaining := [''-z'']\<rparr>)
      (run_items [Short_sp (CHR ''c'') ''5'', Long_flag ''blocking'', Word ''w''] sample_parser)"
proof -
  have "smap_sorted (p_long sample_parser)" using sample_parser_wf by (simp add: parser_wf_def)
  moreover have "list_all (item_ok sample_parser) [Short_sp (CHR ''c'') ''5'', Long_flag ''blocking'', Word ''w'']"
    by code_simp
  ultimately show ?thesis
    using parse_loop_refines_items [of sample_parser "[Short_sp (CHR ''c'') ''5'', Long_flag ''blocking'', Word ''w'']"
        "[''--'', ''-z'']"] by simp
qed

definition sample_items :: "cmd_item list" where
  "sample_items = [Long_eq ''count'' ''5'', Long_flag ''blocking'', Short_att (CHR ''c'') ''7'']"

lemma parse_args_values_witness:
  "\<exists>r. parse_args [''--count=5'', ''--blocking'', ''-c7''] sample_parser = Inr r \<and>
    smap_get (v_map (p_values r)) = [''mode'' \<mapsto> ''fast''] ++ [''count'' \<mapsto> ''5'', ''blocking'' \<mapsto> ''1'', ''count'' \<mapsto> ''7''] \<and>
    (\<forall>d. is_set_by_user (p_values r) d \<longleftrightarrow> d \<in> {''count'', ''blocking''})"
proof -
  let ?q = "add_builtin (sample_parser\<lparr>p_remaining := concat (map item_args sample_items)\<rparr>)"
  have "p_values sample_parser = values_new" by code_simp
  moreover have "list_all (item_ok ?q) sample_items" "list_all (\<lambda>it. item_store ?q it \<noteq> None) sample_items"
    by code_simp+
  moreover have "map (the \<circ> item_store ?q) sample_items = [(''count'', ''5''), (''blocking'', ''1''), (''count'', ''7'')]"
    by code_simp
  moreover have "default_list ?q = [(''mode'', ''fast'')]" by code_simp
  moreover have "concat (map item_args sample_items) = [''--count=5'', ''--blocking'', ''-c7'']" by code_simp
  ultimately show ?thesis
    using parse_args_values [OF sample_parser_wf _ refl, of sample_items] by auto
qed

lemma unknown_option_error_witness:
  "\<exists>err. parse_args [''--count=5'', ''--nope'', ''x''] sample_parser = Inl (Exit 2 '''' err)"
proof -
  let ?q = "add_builtin (sample_parser\<lparr>p_remaining := concat (map item_args [Long_eq ''count'' ''5'']) @ (''--'' @ ''nope'') # [''x'']\<rparr>)"
  have "list_all (item_ok ?q) [Long_eq ''count'' ''5'']" "list_all (\<lambda>it. item_store ?q it \<noteq> None) [Long_eq ''count'' ''5'']"
    "no_sep ''='' ''nope''" "smap_get (p_long ?q) ''nope'' = None" by code_simp+
  then show ?thesis
    using unknown_option_error [OF sample_parser_wf refl, of "[Long_eq ''count'' ''5'']" "''nope''" "[''x'']"] by auto
qed

end
