(* ===== verification/Modern.thy ===== *)
theory Modern
  imports OptLaws
begin

text \<open>
  The clients' option tables and their validation (src/src/common/options/modern):
  \<open>ModernOptionsParser\<close>, \<open>SenderOptionsParser\<close>, \<open>ReceiverOptionsParser\<close> and
  \<open>ConnectorOptionsParser\<close>. A table is the list of the constructor's \<open>add_option\<close> statements with
  their chained setters, in order; the blocks under \<open>ENABLE_BLOCKING\<close> and
  \<open>UNSUPPORTED_CONNECTOR_OPTS\<close>, which no build file defines, are left out. Validation prints the help
  screen and leaves with status 2, as the source does.
\<close>

subsection \<open>The tables\<close>

definition modern_options :: "(string list \<times> opt_call list) list" where
  "modern_options = [
     ([''-b'', ''--broker-url''],
      [Dest ''broker-url'', Help ''URL of broker to connect to'', Metavar ''URL'']),
     ([''--conn-urls''],
      [Dest ''conn-urls'', Help ''define connection urls'', Metavar ''CONN_URLS'']),
     ([''--conn-use-config-file''],
      [Dest ''conn-use-config-file'', Help ''use configuration file for connection'', Type ''bool'', Action ''store_true'']),
     ([''-u'', ''--user''],
      [Dest ''user'', Help ''authenticate as USER'', Metavar ''USER'']),
     ([''-p'', ''--password''],
      [Dest ''password'', Help ''authenticate with PASSWORD'', Metavar ''PASSWORD'']),
     ([''--sasl-mechanisms''],
      [Dest ''sasl-mechanisms'', Help ''specify the allowed MECHANISMS for use on the connection'', Metavar ''MECHANISMS'']),
     ([''--conn-sasl-enabled''],
      [Dest ''conn-sasl-enabled'', Help ''enable connection SASL (true/false, default: true)'', Metavar ''ENABLED'']),
     ([''--conn-ssl-certificate''],
      [Dest ''conn-ssl-certificate'', Help ''path to client certificate'', Metavar ''CERTIFICATE'']),
     ([''--conn-ssl-private-key''],
      [Dest ''conn-ssl-private-key'', Help ''path to client private key'', Metavar ''KEY'']),
     ([''--conn-ssl-password''],
      [Dest ''conn-ssl-password'', Help ''client's certificate database password'', Metavar ''PASSWORD'']),
     ([''--conn-ssl-trust-store''],
      [Dest ''conn-ssl-trust-store'', Help ''path to client trust store'', Metavar ''STORE'']),
     ([''--conn-ssl-verify-peer''],
      [Dest ''conn-ssl-verify-peer'', Help ''verifies server certificate'', Type ''bool'', Action ''store_true'']),
     ([''--conn-ssl-verify-peer-name''],
      [Dest ''conn-ssl-verify-peer-name'', Help ''verifies connection url against server hostname'', Type ''bool'', Action ''store_true'']),
     ([''--client-log-level''],
      [Dest ''client-log-level'', Help ''log LEVEL for the client'', Metavar ''LEVEL'']),
     ([''--close-sleep''],
      [Dest ''close-sleep'', Help ''sleep before closing the connection for the specified TIME (seconds)'', Type ''int'', Metavar ''TIME'']),
     ([''--conn-reconnect''],
      [Dest ''conn-reconnect'', Help ''client RECONNECT setting (true/false, default: true)'', Metavar ''RECONNECT'']),
     ([''--conn-reconnect-interval''],
      [Dest ''conn-reconnect-interval'', Help ''client reconnect INTERVAL (default: -1)'', Metavar ''INTERVAL'']),
     ([''--conn-reconnect-limit''],
      [Dest ''conn-reconnect-limit'', Help ''client reconnect LIMIT (default: -1)'', Metavar ''LIMIT'']),
     ([''--conn-reconnect-timeout''],
      [Dest ''conn-reconnect-timeout'', Help ''client reconnect TIMEOUT (default: -1)'', Metavar ''TIMEOUT'']),
     ([''--conn-reconnect-first''],
      [Dest ''conn-reconnect-first'', Help ''client reconnect FIRST (default: 0)'', Metavar ''FIRST'']),
     ([''--conn-reconnect-increment''],
      [Dest ''conn-reconnect-increment'', Help ''client reconnect INCREMENT (default: 100)'', Metavar ''INCREMENT'']),
     ([''--conn-reconnect-doubling''],
      [Dest ''conn-reconnect-doubling'', Help ''client reconnect DOUBLING (true/false, default: true)'', Metavar ''DOUBLING'']),
     ([''--conn-heartbeat''],
      [Dest ''conn-heartbeat'', Help ''enable and set connection HEARTBEAT (seconds)'', Metavar ''HEARTBEAT'']),
     ([''--trace-messages''],
      [Dest ''trace-messages'', Help ''enable message tracing (true/false, default: false)'', Type ''bool'', Action ''store_true'']),
     ([''--conn-max-frame-size''],
      [Dest ''conn-max-frame-size'', Help ''maximum frame SIZE (512 - 4294967295, default: 4294967295)'', Type ''int'', Metavar ''SIZE''])]"

definition sender_options :: "(string list \<times> opt_call list) list" where
  "sender_options = [
     ([''--msg-content''],
      [Dest ''msg-content'', Help ''specify CONTENT of message'', Metavar ''CONTENT'']),
     ([''-c'', ''--count''],
      [Dest ''count'', Type ''int'', Help ''stop after COUNT messages'', Metavar ''COUNT'']),
     ([''--msg-correlation-id''],
      [Dest ''msg-correlation-id'', Help ''message correlation ID'', Metavar ''ID'']),
     ([''--msg-reply-to''],
      [Dest ''msg-reply-to'', Help ''specify reply-to ADDRESS'', Metavar ''ADDRESS'']),
     ([''--msg-user-id''],
      [Dest ''msg-user-id'', Help ''message user ID'', Metavar ''ID'']),
     ([''--msg-to''],
      [Dest ''msg-to'', Help ''destination ADDRESS'', Metavar ''ADDRESS'']),
     ([''--msg-ttl''],
      [Dest ''msg-ttl'', Help ''message Time-To-Live (ms)'', Metavar ''TTL'']),
     ([''--msg-id''],
      [Dest ''msg-id'', Help ''use the supplied ID instead of generating one'', Metavar ''ID'']),
     ([''--msg-priority''],
      [Dest ''msg-priority'', Type ''short'', Help ''message PRIORITY'', Metavar ''PRIORITY'']),
     ([''--msg-content-type''],
      [Dest ''msg-content-type'', Help ''message content TYPE field'', Metavar ''TYPE'']),
     ([''--msg-durable''],
      [Dest ''msg-durable'', Help ''send durable messages (true/false, default: false)'', Metavar ''DURABLE'']),
     ([''--msg-subject''],
      [Dest ''msg-subject'', Help ''specify message SUBJECT'', Metavar ''SUBJECT'']),
     ([''--msg-content-from-file''],
      [Dest ''msg-content-from-file'', Help ''specify FILENAME to load content from'', Metavar ''FILENAME'']),
     ([''--msg-property''],
      [Action ''callback'', Callback 0, Help ''specify message PROPERTY (NAME=VALUE|NAME~VALUE, '~' enables type auto-cast)'', Metavar ''PROPERTY'']),
     ([''--msg-content-list-item''],
      [Action ''callback'', Callback 1, Help ''specify list ENTRY for message body (VALUE|~VALUE, '~' enables type auto-cast)'', Metavar ''ENTRY'']),
     ([''--msg-content-map-item''],
      [Action ''callback'', Callback 2, Help ''specify map ENTRY for message body (NAME=VALUE|NAME~VALUE, '~' enables type auto-cast)'', Metavar ''ENTRY'']),
     ([''--timeout''],
      [Dest ''timeout'', Help ''exit after the specified TIME (seconds)'', Type ''int'', Metavar ''TIME'']),
     ([''--log-msgs''],
      [Dest ''log-msgs'', Help ''log message OPTIONS'', Metavar ''OPTIONS'']),
     ([''--duration''],
      [Dest ''duration'', Help ''message actions total DURATION (defines msg-rate together with count in seconds)'', Metavar ''DURATION'']),
     ([''--duration-mode''],
      [Dest ''duration-mode'', Help ''specifies where to wait to achieve expected duration MODE (before-send, after-send, after-send-tx-action, default: after-send)'', Metavar ''MODE'']),
     ([''--msg-group-id''],
      [Dest ''msg-group-id'', Help ''message group ID'', Metavar ''ID'']),
     ([''--msg-group-seq''],
      [Dest ''msg-group-seq'', Help ''message group sequence'', Metavar ''SEQUENCE'']),
     ([''--msg-reply-to-group-id''],
      [Dest ''reply-to-group-id'', Help ''reply to message group ID'', Metavar ''ID''])]"

definition receiver_options :: "(string list \<times> opt_call list) list" where
  "receiver_options = [
     ([''-c'', ''--count''],
      [Dest ''count'', Type ''int'', Help ''stop after COUNT messages'', Metavar ''COUNT'']),
     ([''--timeout''],
      [Dest ''timeout'', Help ''exit after the specified TIME (seconds)'', Type ''int'', Metavar ''TIME'']),
     ([''--log-msgs''],
      [Dest ''log-msgs'', Help ''log message OPTIONS'', Metavar ''OPTIONS'']),
     ([''--action''],
      [Dest ''msg-action'', Help ''ACTION on acquired message (default: no-action)'', Metavar ''ACTION'']),
     ([''--action-size''],
      [Dest ''msg-action-size'', Help ''related action is applied in the batch of given SIZE (default: 1)'', Type ''int'', Metavar ''SIZE'']),
     ([''--process-reply-to''],
      [Dest ''process-reply-to'', Help ''send message to reply-to address if enabled and message got reply-to address'', Type ''bool'', Action ''store_true'']),
     ([''--recv-browse''],
      [Dest ''recv-browse'', Help ''browsing receiver if enabled'', Type ''bool'', Action ''store_true'']),
     ([''--recv-selector''],
      [Dest ''recv-selector'', Help ''specify message SELECTOR'', Metavar ''SELECTOR'']),
     ([''--recv-credit-window''],
      [Dest ''recv-credit-window'', Help ''automatically replenish credit for flow control up to COUNT messages'', Type ''int'', Metavar ''COUNT'']),
     ([''--recv-drain-after-credit-window''],
      [Dest ''recv-drain-after-credit-window'', Help ''execute drain after credit window'', Type ''bool'', Action ''store_true'']),
     ([''--duration''],
      [Dest ''duration'', Help ''message actions total DURATION (defines msg-rate together with count in seconds)'', Metavar ''DURATION'']),
     ([''--duration-mode''],
      [Dest ''duration-mode'', Help ''specifies where to wait to achieve expected duration MODE (after-receive, after-receive-action, after-receive-action-tx-action, default: after-receive)'', Metavar ''MODE'']),
     ([''--recv-listen''],
      [Dest ''recv-listen'', Help ''enable receiver listen (P2P) (true/false, default: false)'', Metavar ''LISTEN'']),
     ([''--recv-listen-port''],
      [Dest ''recv-listen-port'', Help ''define port for local listening (default: 5672)'', Type ''int'', Metavar ''PORT'']),
     ([''--durable-subscriber''],
      [Dest ''durable-subscriber'', Help ''create durable subscription to topic (true/false, default: false)'', Metavar ''ENABLED'']),
     ([''--subscriber-unsubscribe''],
      [Dest ''subscriber-unsubscribe'', Help ''unsubscribe durable subscriptor with given name (true/false, default: false, provide --durable-subscriber-name)'', Metavar ''UNSUBSCRIBE'']),
     ([''--durable-subscriber-prefix''],
      [Dest ''durable-subscriber-prefix'', Help ''prefix to use to identify this connection subscriber'', Metavar ''PREFIX'']),
     ([''--durable-subscriber-name''],
      [Dest ''durable-subscriber-name'', Help ''name of the durable subscriber to be unsubscribe'', Metavar ''NAME'']),
     ([''--shared-subscriber''],
      [Dest ''shared-subscriber'', Help ''create shared subscription to topic (true/false, default: false)'', Metavar ''SHARED'']),
     ([''--conn-clientid''],
      [Dest ''conn-clientid'', Help ''client ID that is applied to the container'', Metavar ''ID'']),
     ([''--conn-clientid-prefix''],
      [Dest ''conn-clientid-prefix'', Help ''client ID prefix for new connections'', Metavar ''PREFIX''])]"

definition connector_options :: "(string list \<times> opt_call list) list" where
  "connector_options = [
     ([''-c'', ''--count''],
      [Dest ''count'', Type ''int'', Help ''stop after count messages'', Metavar ''COUNT'']),
     ([''--obj-ctrl''],
      [Dest ''obj-ctrl'', Help ''optional creation object control based on <object-ids> syntax C/E/S/R stands for Connection, sEssion, Sender, Receiver'', Metavar ''OBJCTRL'']),
     ([''--timeout''],
      [Dest ''timeout'', Help ''exit after the specified time'', Type ''int''])]"

text \<open>The constructors: the base class declares its options first.\<close>

definition modern_parser :: "string option \<Rightarrow> opt_parser" where
  "modern_parser columns = fold declare_option modern_options (parser_new columns)"

definition sender_parser :: "string option \<Rightarrow> opt_parser" where
  "sender_parser columns = fold declare_option sender_options
     ((modern_parser columns)\<lparr>p_callbacks := [(0, callback_new), (1, callback_new), (2, callback_new)]\<rparr>)"

definition receiver_parser :: "string option \<Rightarrow> opt_parser" where
  "receiver_parser columns = fold declare_option receiver_options (modern_parser columns)"

definition connector_parser :: "string option \<Rightarrow> opt_parser" where
  "connector_parser columns = fold declare_option connector_options (modern_parser columns)"

subsection \<open>Validation\<close>

text \<open>\<open>print_help(); error(msg)\<close>\<close>

definition help_error :: "opt_parser \<Rightarrow> string \<Rightarrow> opt_stop" where
  "help_error p msg =
     (case format_help p of Inl e \<Rightarrow> Throw e
      | Inr t \<Rightarrow> Exit 2 t (print_usage p @ p_prog p @ '': error: '' @ msg @ newline))"

definition dq :: string where
  "dq = [CHR 0x22]"

definition not_valid :: "string \<Rightarrow> string \<Rightarrow> string" where
  "not_valid opt val = ''Value '' @ dq @ val @ dq @ '' is not valid for '' @ opt @ '' option, must be one of true/false''"

definition is_bool_word :: "string \<Rightarrow> bool" where
  "is_bool_word s = (s = ''true'' \<or> s = ''false'')"

text \<open>A sequence of checks: the first one that fails stops.\<close>

fun first_failure :: "(bool \<times> opt_stop) list \<Rightarrow> opt_stop + unit" where
  "first_failure [] = Inr ()"
| "first_failure ((bad, e) # r) = (if bad then Inl e else first_failure r)"

definition min_max_frame_size :: int where
  "min_max_frame_size = 512"

definition modern_checks :: "opt_parser \<Rightarrow> opt_values \<Rightarrow> (bool \<times> opt_stop) list" where
  "modern_checks p v =
     (let is_listener = (if is_set v ''recv-listen'' then lower (value_at v ''recv-listen'') else ''false'');
          max_frame_size_opt = strtoul (value_at v ''conn-max-frame-size'')
      in [(\<not> is_set v ''broker-url'' \<and> is_listener \<noteq> ''true'' \<and> \<not> get_bool v ''conn-use-config-file'',
           help_error p ''Broker URL is not set''),
          (is_set v ''conn-max-frame-size'' \<and>
             (max_frame_size_opt > UINT32_MAX \<or> max_frame_size_opt < min_max_frame_size),
           help_error p (''Maximum frame size '' @ value_at v ''conn-max-frame-size'' @ '' is out of range ('' @
             show_int min_max_frame_size @ '' - '' @ show_int UINT32_MAX @ '')'')),
          (is_set v ''conn-reconnect'' \<and> \<not> is_bool_word (lower (value_at v ''conn-reconnect'')),
           help_error p (not_valid ''--conn-reconnect'' (value_at v ''conn-reconnect''))),
          (is_set v ''conn-reconnect-doubling'' \<and> \<not> is_bool_word (value_at v ''conn-reconnect-doubling''),
           help_error p (not_valid ''--conn-reconnect-doubling'' (value_at v ''conn-reconnect-doubling''))),
          (is_set v ''conn-sasl-enabled'' \<and> \<not> is_bool_word (lower (value_at v ''conn-sasl-enabled'')),
           help_error p (not_valid ''--conn-sasl-enabled'' (value_at v ''conn-sasl-enabled''))),
          (is_set v ''conn-ssl-certificate'' \<and> \<not> is_set v ''conn-ssl-private-key'',
           help_error p ''SSL private key (--conn-ssl-private-key) must be given'')])"

definition validate_modern :: "opt_parser \<Rightarrow> opt_values \<Rightarrow> opt_stop + unit" where
  "validate_modern p v = first_failure (modern_checks p v)"

definition validate_sender :: "opt_parser \<Rightarrow> opt_values \<Rightarrow> opt_stop + unit" where
  "validate_sender p v =
     (case validate_modern p v of Inl e \<Rightarrow> Inl e
      | Inr _ \<Rightarrow> first_failure
          [(is_set v ''duration-mode'' \<and> value_at v ''duration-mode'' = ''after-send-tx-action'',
            opt_error ''transactions are not supported yet'' p)])"

definition receiver_checks :: "opt_parser \<Rightarrow> opt_values \<Rightarrow> (bool \<times> opt_stop) list" where
  "receiver_checks p v =
     [(is_set v ''msg-action-size'' \<and> atoi (value_at v ''msg-action-size'') < 1,
       help_error p ''action-size must not be less than 1''),
      (is_set v ''duration-mode'' \<and> value_at v ''duration-mode'' = ''after-receive-action-tx-action'',
       opt_error ''transactions are not supported yet'' p),
      (is_set v ''durable-subscriber'' \<and> \<not> is_bool_word (lower (value_at v ''durable-subscriber'')),
       help_error p (not_valid ''--durable-subscriber'' (value_at v ''durable-subscriber''))),
      (is_set v ''subscriber-unsubscribe'' \<and> \<not> is_bool_word (lower (value_at v ''subscriber-unsubscribe'')),
       help_error p (not_valid ''--subscriber-unsubscribe'' (value_at v ''subscriber-unsubscribe''))),
      (is_set v ''shared-subscriber'' \<and> \<not> is_bool_word (lower (value_at v ''shared-subscriber'')),
       help_error p (not_valid ''--shared-subscriber'' (value_at v ''shared-subscriber'')))]"

definition validate_receiver :: "opt_parser \<Rightarrow> opt_values \<Rightarrow> opt_stop + unit" where
  "validate_receiver p v =
     (case validate_modern p v of Inl e \<Rightarrow> Inl e | Inr _ \<Rightarrow> first_failure (receiver_checks p v))"

definition validate_connector :: "opt_parser \<Rightarrow> opt_values \<Rightarrow> opt_stop + unit" where
  "validate_connector p v = validate_modern p v"

lemma first_failure_ok: "first_failure cs = Inr () \<longleftrightarrow> list_all (\<lambda>(bad, e). \<not> bad) cs"
  by (induction cs rule: first_failure.induct) auto

lemma first_failure_stop: "first_failure cs = Inl e \<Longrightarrow> e \<in> snd ` set cs"
  by (induction cs rule: first_failure.induct) (auto split: if_splits)

subsection \<open>The tables are well-formed\<close>

lemma modern_parser_wf: "parser_wf (modern_parser c) \<and> p_callbacks (modern_parser c) = []"
proof -
  have "list_all (\<lambda>d. list_all (call_ok []) (snd d)) modern_options" by code_simp
  then show ?thesis
    using declare_options_wf [OF parser_wf_new, of c modern_options]
    by (simp add: modern_parser_def parser_new_def)
qed

lemma receiver_parser_wf: "parser_wf (receiver_parser c)"
proof -
  have "list_all (\<lambda>d. list_all (call_ok []) (snd d)) receiver_options" by code_simp
  then show ?thesis
    using declare_options_wf [of "modern_parser c" receiver_options] modern_parser_wf [of c]
    by (simp add: receiver_parser_def)
qed

lemma connector_parser_wf: "parser_wf (connector_parser c)"
proof -
  have "list_all (\<lambda>d. list_all (call_ok []) (snd d)) connector_options" by code_simp
  then show ?thesis
    using declare_options_wf [of "modern_parser c" connector_options] modern_parser_wf [of c]
    by (simp add: connector_parser_def)
qed

lemma sender_parser_wf: "parser_wf (sender_parser c)"
proof -
  let ?cbs = "[(0, callback_new), (1, callback_new), (2, callback_new)]"
  let ?p = "(modern_parser c)\<lparr>p_callbacks := ?cbs\<rparr>"
  have ok: "list_all (\<lambda>d. list_all (call_ok ?cbs) (snd d)) sender_options" by code_simp
  have "decl_ok ?cbs d" if "decl_ok [] d" for d
    using that by (auto simp: decl_ok_def smap_get_def split: option.splits)
  moreover have "all_opts ?p = all_opts (modern_parser c)" by (simp add: all_opts_def)
  ultimately have "parser_wf ?p"
    using modern_parser_wf [of c]
    by (auto simp: parser_wf_def names_ok_def decls_ok_def smap_sorted_def [of "(0, callback_new) # _"])
  then show ?thesis
    using declare_options_wf [of ?p sender_options] ok by (simp add: sender_parser_def)
qed

subsection \<open>What validation lets through\<close>

definition on_off :: "opt_values \<Rightarrow> string \<Rightarrow> (string \<Rightarrow> string) \<Rightarrow> bool" where
  "on_off v d f = (if is_set v d then f (value_at v d) \<in> {''true'', ''false''} else True)"

text \<open>
  C29. Validation of the options all clients share succeeds exactly when there is a broker URL (or the receiver
  listens, or a configuration file is used), the frame size is between 512 and \<open>2 ^ 32 - 1\<close>, the three
  switches are true or false, and a certificate comes with its key; each failure is exit status 2 or the
  exception of the help screen.
\<close>

theorem validate_modern_iff:
  "(validate_modern p v = Inr ()) =
    ((is_set v ''broker-url'' \<or> (is_set v ''recv-listen'' \<and> lower (value_at v ''recv-listen'') = ''true'') \<or>
        get_bool v ''conn-use-config-file'') \<and>
     (if is_set v ''conn-max-frame-size''
      then 512 \<le> strtoul (value_at v ''conn-max-frame-size'') \<and> strtoul (value_at v ''conn-max-frame-size'') < 2 ^ 32
      else True) \<and>
     on_off v ''conn-reconnect'' lower \<and> on_off v ''conn-reconnect-doubling'' id \<and>
     on_off v ''conn-sasl-enabled'' lower \<and>
     (if is_set v ''conn-ssl-certificate'' then is_set v ''conn-ssl-private-key'' else True))"
proof -
  have lim: "UINT32_MAX = 2 ^ 32 - 1" "min_max_frame_size = 512" by (simp_all add: int_limits min_max_frame_size_def)
  have lis: "((if b then x else ''false'') \<noteq> ''true'') = (\<not> (b \<and> x = ''true''))" for b x by simp
  have imp: "(if b then c else True) = (b \<longrightarrow> c)" for b c by simp
  have nil: "list_all P [] = True" for P :: "bool \<times> opt_stop \<Rightarrow> bool" by simp
  have fs: "(\<not> (n > (2 ^ 32 - 1 :: int) \<or> n < 512)) = (512 \<le> n \<and> n < 2 ^ 32)" for n :: int by auto
  show ?thesis
    unfolding validate_modern_def first_failure_ok modern_checks_def Let_def on_off_def is_bool_word_def imp lim
      list.pred_inject(2) nil prod.case lis insert_iff empty_iff id_apply
    using fs [of "strtoul (value_at v ''conn-max-frame-size'')"] by argo
qed

text \<open>
  C36. A frame size that passes validation is stored in the client's 32-bit variable unchanged.
\<close>

theorem frame_size_not_truncated:
  assumes "validate_modern p v = Inr ()" and "is_set v ''conn-max-frame-size''"
  shows "uwrap32 (strtoul (value_at v ''conn-max-frame-size'')) = strtoul (value_at v ''conn-max-frame-size'')"
proof -
  have "\<not> strtoul (value_at v ''conn-max-frame-size'') > UINT32_MAX"
    using assms unfolding validate_modern_def first_failure_ok modern_checks_def Let_def by auto
  then show ?thesis using strtoul_range by (intro uwrap32_id) auto
qed

lemma frame_size_not_truncated_witness:
  "uwrap32 (strtoul ''65536'') = 65536"
proof -
  let ?v = "put_value ''broker-url'' ''x'' (put_value ''conn-max-frame-size'' ''65536'' values_new)"
  have "validate_modern (parser_new None) ?v = Inr ()" "is_set ?v ''conn-max-frame-size''"
    "value_at ?v ''conn-max-frame-size'' = ''65536''" "strtoul ''65536'' = 65536" by code_simp+
  then show ?thesis using frame_size_not_truncated [of "parser_new None" ?v] by simp
qed

end
