(* ===== verification/LoggerM.thy ===== *)
theory LoggerM
  imports OptParse
begin

text \<open>
  Logging: \<open>Printer\<close> (src/src/common/output), \<open>Logger\<close> and \<open>LoggerWrapper\<close> (src/src/common/logger) and
  the level selection of \<open>ModernClient\<close> (src/src/api/qpid-proton/common). The stream is the text written
  to it. A logged value is a constructor per overload of \<open>operator<<\<close>; for a \<open>double\<close> and a pointer
  it holds what \<open>printf\<close> makes of it, which is platform output.
\<close>

subsection \<open>Printer\<close>

datatype print_base = HEXADECIMAL | DECIMAL | OCTAL

record printer =
  pr_base :: print_base
  pr_out :: string

definition printer_new :: "string \<Rightarrow> printer" where
  "printer_new out = \<lparr>pr_base = DECIMAL, pr_out = out\<rparr>"

text \<open>The copy constructor takes the stream only.\<close>

definition printer_copy :: "printer \<Rightarrow> printer" where
  "printer_copy p = \<lparr>pr_base = DECIMAL, pr_out = pr_out p\<rparr>"

function show_radix :: "int \<Rightarrow> int \<Rightarrow> string" where
  "show_radix b n =
     (let dig = (\<lambda>d. if d < 10 then char_of (48 + d) else char_of (87 + d))
      in if b < 2 \<or> n < b then [dig (max 0 n)] else show_radix b (n div b) @ [dig (n mod b)])"
  by pat_completeness auto
termination
proof (relation "measure (\<lambda>(b, n). nat n)")
  fix b n :: int
  assume "\<not> (b < 2 \<or> n < b)"
  then have "0 \<le> n div b" "n div b < n" by (auto intro: int_div_less_self simp: pos_imp_zdiv_nonneg_iff)
  then show "((b, n div b), b, n) \<in> measure (\<lambda>(b, n). nat n)" by simp
qed simp

declare show_radix.simps [simp del]

text \<open>The unsigned conversions: \<open>%x\<close>, \<open>%#x\<close>, \<open>%o\<close>, \<open>%#o\<close>; a zero has no prefix.\<close>

definition fmt_hex :: "bool \<Rightarrow> int \<Rightarrow> string" where
  "fmt_hex alt n = (if alt \<and> n \<noteq> 0 then ''0x'' else '''') @ show_radix 16 n"

definition fmt_oct :: "bool \<Rightarrow> int \<Rightarrow> string" where
  "fmt_oct alt n = (if alt \<and> n \<noteq> 0 then ''0'' else '''') @ show_radix 8 n"

definition emit :: "string \<Rightarrow> printer \<Rightarrow> printer" where
  "emit s p = p\<lparr>pr_out := pr_out p @ s\<rparr>"

definition print_int :: "int \<Rightarrow> printer \<Rightarrow> printer" where
  "print_int val p = (case pr_base p of
       HEXADECIMAL \<Rightarrow> emit (fmt_hex False (val mod 2 ^ 32)) p
     | OCTAL \<Rightarrow> emit (fmt_oct False (val mod 2 ^ 32)) p
     | DECIMAL \<Rightarrow> emit (show_int val) p)"

definition print_uint :: "int \<Rightarrow> printer \<Rightarrow> printer" where
  "print_uint val p = (case pr_base p of
       HEXADECIMAL \<Rightarrow> emit (fmt_hex True val) p
     | OCTAL \<Rightarrow> emit (fmt_oct True val) p
     | DECIMAL \<Rightarrow> emit (show_int val) p)"

definition print_long :: "int \<Rightarrow> printer \<Rightarrow> printer" where
  "print_long val p = (case pr_base p of
       HEXADECIMAL \<Rightarrow> emit (fmt_hex True (val mod 2 ^ 64)) p
     | OCTAL \<Rightarrow> emit (fmt_oct True (val mod 2 ^ 64)) p
     | DECIMAL \<Rightarrow> emit (show_int val) p)"

definition print_ulong :: "int \<Rightarrow> printer \<Rightarrow> printer" where
  "print_ulong val p = (case pr_base p of
       HEXADECIMAL \<Rightarrow> emit (fmt_hex False val) p
     | OCTAL \<Rightarrow> emit (fmt_oct True val) p
     | DECIMAL \<Rightarrow> emit (show_int val) p)"

definition print_longlong :: "int \<Rightarrow> printer \<Rightarrow> printer" where
  "print_longlong val p = (case pr_base p of
       HEXADECIMAL \<Rightarrow> emit (fmt_hex False (val mod 2 ^ 64)) p
     | OCTAL \<Rightarrow> emit (fmt_oct True (val mod 2 ^ 64)) p
     | DECIMAL \<Rightarrow> emit (show_int val) p)"

text \<open>The renderings \<open>%a\<close>, \<open>%#lg\<close> and \<open>%lg\<close> of a double; the first is written after a \<open>#\<close>.\<close>

definition print_double :: "(print_base \<Rightarrow> string) \<Rightarrow> printer \<Rightarrow> printer" where
  "print_double d p = (case pr_base p of
       HEXADECIMAL \<Rightarrow> emit (''#'' @ d HEXADECIMAL) p
     | OCTAL \<Rightarrow> emit (d OCTAL) p
     | DECIMAL \<Rightarrow> emit (d DECIMAL) p)"

definition print_char :: "char \<Rightarrow> printer \<Rightarrow> printer" where
  "print_char c p = emit [c] p"

definition print_ptr :: "string \<Rightarrow> printer \<Rightarrow> printer" where
  "print_ptr s p = emit s p"

text \<open>\<open>%s\<close> stops at the first null byte.\<close>

definition print_str :: "string \<Rightarrow> printer \<Rightarrow> printer" where
  "print_str s p = emit (takeWhile (\<lambda>c. c \<noteq> CHR 0x00) s) p"

subsection \<open>Logger\<close>

datatype log_level = Log_none | Log_trace | Log_debug | Log_info | Log_warning | Log_error

fun level_rank :: "log_level \<Rightarrow> int" where
  "level_rank Log_none = 0"
| "level_rank Log_trace = 1"
| "level_rank Log_debug = 2"
| "level_rank Log_info = 3"
| "level_rank Log_warning = 4"
| "level_rank Log_error = 5"

instantiation log_level :: linorder
begin

definition less_eq_log_level :: "log_level \<Rightarrow> log_level \<Rightarrow> bool" where
  "less_eq_log_level a b = (level_rank a \<le> level_rank b)"

definition less_log_level :: "log_level \<Rightarrow> log_level \<Rightarrow> bool" where
  "less_log_level a b = (level_rank a < level_rank b)"

instance
proof
  fix a b :: log_level
  show "a \<le> b \<Longrightarrow> b \<le> a \<Longrightarrow> a = b"
    by (cases a; cases b; simp add: less_eq_log_level_def)
qed (auto simp: less_eq_log_level_def less_log_level_def)

end

text \<open>The configuration shared by all loggers, the wrapper's flag, and the output.\<close>

record log_world =
  lw_minimum :: log_level
  lw_initialized :: bool
  lw_out :: string

definition log_world_new :: log_world where
  "log_world_new = \<lparr>lw_minimum = Log_warning, lw_initialized = False, lw_out = ''''\<rparr>"

datatype log_value =
    LInt int
  | LUint int
  | LLong int
  | LUlong int
  | LDouble "print_base \<Rightarrow> string"
  | LChar char
  | LLonglong int
  | LPtr string
  | LStr string

fun print_value :: "log_value \<Rightarrow> printer \<Rightarrow> printer" where
  "print_value (LInt v) p = print_int v p"
| "print_value (LUint v) p = print_uint v p"
| "print_value (LLong v) p = print_long v p"
| "print_value (LUlong v) p = print_ulong v p"
| "print_value (LDouble d) p = print_double d p"
| "print_value (LChar c) p = print_char c p"
| "print_value (LLonglong v) p = print_longlong v p"
| "print_value (LPtr s) p = print_ptr s p"
| "print_value (LStr s) p = print_str s p"

text \<open>\<open>operator<<\<close>, whose overloads differ only in what they hand to the printer.\<close>

definition log_put :: "log_level \<Rightarrow> log_value \<Rightarrow> log_world \<Rightarrow> log_world" where
  "log_put level v w =
     (if level \<ge> lw_minimum w then w\<lparr>lw_out := pr_out (print_value v (printer_new (lw_out w)))\<rparr> else w)"

fun level_prefix :: "log_level \<Rightarrow> string option" where
  "level_prefix Log_none = None"
| "level_prefix Log_trace = Some ''[trace]: ''"
| "level_prefix Log_debug = Some ''[debug]: ''"
| "level_prefix Log_info = Some ''[info ]: ''"
| "level_prefix Log_warning = Some ''[warn ]: ''"
| "level_prefix Log_error = Some ''[error]: ''"

text \<open>\<open>logger(level)\<close>, and the destructor at the end of the statement.\<close>

definition log_open :: "log_level \<Rightarrow> log_world \<Rightarrow> log_world" where
  "log_open level w = (case level_prefix level of None \<Rightarrow> w | Some s \<Rightarrow> log_put level (LStr s) w)"

definition log_close :: "log_level \<Rightarrow> log_world \<Rightarrow> log_world" where
  "log_close level w = log_put level (LChar (CHR 0x0A)) w"

text \<open>A whole statement \<open>logger(level) << v1 << v2 ...;\<close>\<close>

definition log_line :: "log_level \<Rightarrow> log_value list \<Rightarrow> log_world \<Rightarrow> log_world" where
  "log_line level vs w = log_close level (fold (log_put level) vs (log_open level w))"

definition init_logger :: "log_level \<Rightarrow> log_world \<Rightarrow> log_world" where
  "init_logger level w = (if \<not> lw_initialized w then w\<lparr>lw_minimum := level, lw_initialized := True\<rparr> else w)"

definition log_info :: "log_world \<Rightarrow> log_world" where
  "log_info w = init_logger Log_info w"

definition log_debug :: "log_world \<Rightarrow> log_world" where
  "log_debug w = init_logger Log_debug w"

definition log_trace :: "log_world \<Rightarrow> log_world" where
  "log_trace w = init_logger Log_trace w"

definition set_log_level :: "opt_values \<Rightarrow> log_world \<Rightarrow> log_world" where
  "set_log_level v w =
     (if is_set v ''client-log-level''
      then let logLevel = value_at v ''client-log-level''
           in if logLevel = ''info'' then log_info w
              else if logLevel = ''debug'' then log_debug w
              else if logLevel = ''trace'' then log_trace w
              else w
      else w)"

subsection \<open>What is written\<close>

definition value_text :: "log_value \<Rightarrow> string" where
  "value_text v = pr_out (print_value v (printer_new ''''))"

lemma print_value_out: "pr_out (print_value v (printer_new out)) = out @ value_text v"
  by (cases v) (simp_all add: value_text_def printer_new_def emit_def print_int_def print_uint_def print_long_def
      print_ulong_def print_double_def print_char_def print_longlong_def print_ptr_def print_str_def)

lemma log_put_eq: "log_put level v w = (if lw_minimum w \<le> level then w\<lparr>lw_out := lw_out w @ value_text v\<rparr> else w)"
  by (simp add: log_put_def print_value_out)

lemma fold_log_put:
  "fold (log_put level) vs w =
     (if lw_minimum w \<le> level then w\<lparr>lw_out := lw_out w @ concat (map value_text vs)\<rparr> else w)"
  by (induction vs arbitrary: w) (auto simp: log_put_eq)

lemma value_text_simps [simp]:
  "value_text (LStr s) = takeWhile (\<lambda>c. c \<noteq> CHR 0x00) s" "value_text (LChar c) = [c]" "value_text (LInt i) = show_int i"
  by (simp_all add: value_text_def printer_new_def emit_def print_str_def print_char_def print_int_def)

text \<open>
  C35. A log statement below the configured level writes nothing at all, prefix and line end included; any other
  writes exactly its prefix, its values and one line end.
\<close>

theorem log_line_gated:
  "log_line level vs w =
     (if level < lw_minimum w then w
      else w\<lparr>lw_out := lw_out w @ (case level_prefix level of None \<Rightarrow> '''' | Some s \<Rightarrow> s) @
             concat (map value_text vs) @ newline\<rparr>)"
proof -
  have "takeWhile (\<lambda>c. c \<noteq> CHR 0x00) s = s" if "level_prefix level = Some s" for s
    using that by (cases level) auto
  then show ?thesis
    by (auto simp: log_line_def log_open_def log_close_def log_put_eq fold_log_put split: option.splits)
qed

text \<open>
  \<open>--client-log-level\<close>: info, debug and trace set the minimum level the first time, every other text and
  every later call leaves it; so for an option that was given, what is logged at level error or warning is
  never lost.
\<close>

theorem set_log_level_effect:
  "lw_minimum (set_log_level v w) =
     (if is_set v ''client-log-level'' \<and> \<not> lw_initialized w
      then case map_of [(''info'', Log_info), (''debug'', Log_debug), (''trace'', Log_trace)] (value_at v ''client-log-level'')
        of Some l \<Rightarrow> l | None \<Rightarrow> lw_minimum w
      else lw_minimum w) \<and>
   lw_out (set_log_level v w) = lw_out w \<and>
   lw_minimum (set_log_level v log_world_new) \<le> Log_warning"
  by (simp add: set_log_level_def log_info_def log_debug_def log_trace_def init_logger_def Let_def
      log_world_new_def less_eq_log_level_def)

end
