(* ===== verification/WriterM.thy ===== *)
theory WriterM
  imports Prelude
begin

text \<open>
  \<open>Writer\<close> and its two implementations (src/src/common/formatter): the virtual functions are a record of
  operations on the text written so far, \<open>dict_ops\<close> and \<open>upstream_ops\<close> are the two classes, and the
  locale \<open>writer\<close> is the contract the decoders and formatters rely on: every operation appends.
\<close>

record writer_ops =
  w_start :: "string \<Rightarrow> string"
  w_end :: "string \<Rightarrow> string"
  w_separate :: "string \<Rightarrow> string"
  w_startHeader :: "string \<Rightarrow> string"
  w_endHeader :: "string \<Rightarrow> string"
  w_startProperties :: "string \<Rightarrow> string"
  w_endProperties :: "string \<Rightarrow> string"
  w_startContent :: "string \<Rightarrow> string"
  w_endContent :: "string \<Rightarrow> string"
  w_startMap :: "string \<Rightarrow> string"
  w_endMap :: "string \<Rightarrow> string"
  w_startList :: "string \<Rightarrow> string"
  w_endList :: "string \<Rightarrow> string"
  w_startStatistics :: "string \<Rightarrow> string"
  w_endStatistics :: "string \<Rightarrow> string"
  w_endField :: "string \<Rightarrow> string"
  w_write :: "string \<Rightarrow> bool \<Rightarrow> string \<Rightarrow> string"
  w_write_kv :: "string \<times> string \<Rightarrow> bool \<Rightarrow> string \<Rightarrow> string"
  w_write_bogus :: "string \<Rightarrow> string \<Rightarrow> string"
  w_endLine :: "string \<Rightarrow> string"

text \<open>\<open>(*stream) << text\<close>, and the calls that do nothing.\<close>

definition put :: "string \<Rightarrow> string \<Rightarrow> string" where
  "put t out = out @ t"

definition noop :: "string \<Rightarrow> string" where
  "noop out = out"

lemma put_simps [simp]: "put t out = out @ t" "noop out = out"
  by (simp_all add: put_def noop_def)

definition bogus_message :: string where
  "bogus_message = ''!!!FORMATTING ERROR, BUG!!!''"

abbreviation quote :: string where
  "quote \<equiv> [CHR 0x27]"

subsection \<open>Python dictionaries\<close>

definition dict_separate :: "string \<Rightarrow> string" where
  "dict_separate = put '': ''"

definition dict_endField :: "string \<Rightarrow> string" where
  "dict_endField = put '', ''"

definition dict_write :: "string \<Rightarrow> bool \<Rightarrow> string \<Rightarrow> string" where
  "dict_write str raw = (if raw then put str else put (quote @ str @ quote))"

definition dict_startProperties :: "string \<Rightarrow> string" where
  "dict_startProperties out = put '': '' (dict_write ''properties'' False (put '' '' out))"

definition dict_startContent :: "string \<Rightarrow> string" where
  "dict_startContent out = put '': '' (dict_write ''content'' False (put '', '' out))"

definition dict_write_kv :: "string \<times> string \<Rightarrow> bool \<Rightarrow> string \<Rightarrow> string" where
  "dict_write_kv kv separator out =
     (let out1 = dict_write (snd kv) False (put '': '' (dict_write (fst kv) False out))
      in if separator then dict_endField out1 else out1)"

definition dict_write_bogus :: "string \<Rightarrow> string \<Rightarrow> string" where
  "dict_write_bogus str = put (bogus_message @ '':'' @ str)"

definition dict_ops :: writer_ops where
  "dict_ops =
     \<lparr>w_start = noop, w_end = noop, w_separate = dict_separate,
      w_startHeader = put ''{'', w_endHeader = put ''}'',
      w_startProperties = dict_startProperties, w_endProperties = noop,
      w_startContent = dict_startContent, w_endContent = put ''}'',
      w_startMap = put ''{'', w_endMap = put ''}'', w_startList = put ''['', w_endList = put '']'',
      w_startStatistics = put ''STATS '', w_endStatistics = put ''}'', w_endField = dict_endField,
      w_write = dict_write, w_write_kv = dict_write_kv, w_write_bogus = dict_write_bogus, w_endLine = put [CHR 0x0A]\<rparr>"

subsection \<open>Upstream\<close>

definition upstream_endField :: "string \<Rightarrow> string" where
  "upstream_endField = put '', ''"

definition upstream_write :: "string \<Rightarrow> bool \<Rightarrow> string \<Rightarrow> string" where
  "upstream_write str raw = (if raw then put str else put (quote @ str @ quote))"

definition upstream_write_plain :: "string \<Rightarrow> string \<Rightarrow> string" where
  "upstream_write_plain str = put str"

definition upstream_startContent :: "string \<Rightarrow> string" where
  "upstream_startContent out = upstream_write_plain ''content='' (put '', '' out)"

definition upstream_write_kv :: "string \<times> string \<Rightarrow> bool \<Rightarrow> string \<Rightarrow> string" where
  "upstream_write_kv kv separator out =
     (let out1 = upstream_write (snd kv) False (put '': '' (upstream_write (fst kv) False out))
      in if separator then upstream_endField out1 else out1)"

definition upstream_write_bogus :: "string \<Rightarrow> string \<Rightarrow> string" where
  "upstream_write_bogus str = put (bogus_message @ '':'' @ str)"

definition upstream_ops :: writer_ops where
  "upstream_ops =
     \<lparr>w_start = put ''Message('', w_end = put '')'', w_separate = noop,
      w_startHeader = noop, w_endHeader = noop,
      w_startProperties = upstream_write_plain ''properties='', w_endProperties = noop,
      w_startContent = upstream_startContent, w_endContent = noop,
      w_startMap = put ''{'', w_endMap = put ''}'', w_startList = put ''{'', w_endList = put ''}'',
      w_startStatistics = noop, w_endStatistics = noop, w_endField = upstream_endField,
      w_write = upstream_write, w_write_kv = upstream_write_kv, w_write_bogus = upstream_write_bogus,
      w_endLine = put [CHR 0x0A]\<rparr>"

lemmas dict_defs = dict_separate_def dict_endField_def dict_write_def dict_startProperties_def
  dict_startContent_def dict_write_kv_def dict_write_bogus_def dict_ops_def

lemmas upstream_defs = upstream_endField_def upstream_write_def upstream_write_plain_def
  upstream_startContent_def upstream_write_kv_def upstream_write_bogus_def upstream_ops_def

subsection \<open>The contract\<close>

text \<open>\<open>appends f\<close>: what \<open>f\<close> writes does not depend on what was written before, which it keeps.\<close>

definition appends :: "(string \<Rightarrow> string) \<Rightarrow> bool" where
  "appends f = (\<forall>out. f out = out @ f '''')"

lemma appendsI: "(\<And>out. f out = out @ t) \<Longrightarrow> appends f"
  by (simp add: appends_def)

lemma appendsD: "appends f \<Longrightarrow> f out = out @ f ''''"
  unfolding appends_def by (rule spec)

lemma appends_comp: "appends f \<Longrightarrow> appends g \<Longrightarrow> appends (\<lambda>out. g (f out))"
proof (rule appendsI)
  fix out
  assume f: "appends f" and g: "appends g"
  show "g (f out) = out @ f '''' @ g ''''"
    by (subst appendsD [OF f], subst appendsD [OF g]) simp
qed

lemma appends_id [simp]: "appends (\<lambda>out. out)" "appends noop" "appends (put t)"
  by (simp_all add: appends_def)

lemma appends_fold: "(\<And>x. appends (f x)) \<Longrightarrow> appends (fold f xs)"
proof (induction xs)
  case (Cons x xs)
  from appends_comp [OF Cons.prems [of x] Cons.IH [OF Cons.prems]] show ?case by (simp add: comp_def)
qed (simp add: appends_def)

locale writer =
  fixes ops :: writer_ops
  assumes appends_start: "appends (w_start ops)" "appends (w_end ops)"
    and appends_header: "appends (w_startHeader ops)" "appends (w_endHeader ops)"
    and appends_properties: "appends (w_startProperties ops)" "appends (w_endProperties ops)"
    and appends_content: "appends (w_startContent ops)" "appends (w_endContent ops)"
    and appends_map: "appends (w_startMap ops)" "appends (w_endMap ops)"
    and appends_list: "appends (w_startList ops)" "appends (w_endList ops)"
    and appends_statistics: "appends (w_startStatistics ops)" "appends (w_endStatistics ops)"
    and appends_field: "appends (w_separate ops)" "appends (w_endField ops)"
    and appends_write: "appends (w_write ops s raw)"
    and appends_write_kv: "appends (w_write_kv ops kv sep)"
begin

lemmas appends_all = appends_start appends_header appends_properties appends_content appends_map
  appends_list appends_statistics appends_field appends_write appends_write_kv

text \<open>Anything built from the operations by composition and iteration appends as well.\<close>

lemma keeps_output: "appends f \<Longrightarrow> \<exists>t. f out = out @ t"
  by (auto dest: appendsD)

lemma separated_appends:
  assumes "\<And>x. appends (f x)"
  shows "appends (fold (\<lambda>x out. w_endField ops (f x out)) xs)"
  using assms appends_comp appends_field(2) by (intro appends_fold) blast

end

lemma appends_if: "appends f \<Longrightarrow> appends g \<Longrightarrow> appends (if b then f else g)"
  by simp

lemma dict_appends: "appends dict_startProperties" "appends dict_startContent" "appends dict_separate"
  "appends dict_endField" "appends (dict_write s raw)" "appends (dict_write_kv kv sep)"
  by (simp_all add: dict_defs appends_def Let_def)

lemma upstream_appends: "appends upstream_startContent" "appends (upstream_write_plain s)"
  "appends upstream_endField" "appends (upstream_write s raw)" "appends (upstream_write_kv kv sep)"
  by (simp_all add: upstream_defs appends_def Let_def)

interpretation dict: writer dict_ops
  by unfold_locales (simp_all add: dict_ops_def dict_appends)

interpretation upstream: writer upstream_ops
  by unfold_locales (simp_all add: upstream_ops_def upstream_appends)

end
