(* ===== verification/Message.thy ===== *)
theory Message
  imports StlUtils
begin

text \<open>
  The messages of the client library, as far as the clients read and write them: AMQP values by their type,
  a message with its sections, and the header names of \<open>MessageHeader.cpp\<close> and \<open>ContentType.cpp\<close>
  (src/src/common). What the library itself does with a value (\<open>operator<<\<close>, \<open>coerce\<close>, \<open>get\<close>) is not
  part of the repository: it is the argument \<open>proton_lib\<close>, but for \<open>get\<close> of whole lists and maps, which takes the
  elements and the keys one by one.
\<close>

datatype amqp_value =
    VNull
  | VBool bool
  | VUbyte int
  | VByte int
  | VUshort int
  | VShort int
  | VUint int
  | VInt int
  | VChar int
  | VUlong int
  | VLong int
  | VTimestamp int
  | VFloat string
  | VDouble string
  | VDecimal string
  | VUuid string
  | VBinary string
  | VString string
  | VSymbol string
  | VDescribed
  | VArray "amqp_value list"
  | VList "amqp_value list"
  | VMap "(amqp_value \<times> amqp_value) list"

text \<open>
  \<open>pl_show\<close> is \<open>operator<<\<close>; the others are \<open>coerce<T>\<close> and \<open>get<std::string>\<close> on a scalar,
  with \<open>None\<close> for \<open>conversion_error\<close>.
\<close>

record proton_lib =
  pl_show :: "amqp_value \<Rightarrow> string"
  pl_coerce_u64 :: "amqp_value \<Rightarrow> int option"
  pl_coerce_string :: "amqp_value \<Rightarrow> string option"
  pl_coerce_uuid :: "amqp_value \<Rightarrow> string option"
  pl_get_string :: "amqp_value \<Rightarrow> string option"

record message =
  m_id :: amqp_value
  m_user :: string
  m_to :: string
  m_subject :: string
  m_reply_to :: string
  m_correlation_id :: amqp_value
  m_content_type :: string
  m_content_encoding :: string
  m_expiry_time :: int
  m_creation_time :: int
  m_group_id :: string
  m_group_sequence :: int
  m_reply_to_group_id :: string
  m_durable :: bool
  m_priority :: int
  m_ttl :: int
  m_first_acquirer :: bool
  m_delivery_count :: int
  m_properties :: "(string, amqp_value) smap"
  m_body :: amqp_value

text \<open>A new \<open>proton::message\<close>: the defaults of the AMQP header.\<close>

definition message_new :: message where
  "message_new =
     \<lparr>m_id = VNull, m_user = '''', m_to = '''', m_subject = '''', m_reply_to = '''', m_correlation_id = VNull,
      m_content_type = '''', m_content_encoding = '''', m_expiry_time = 0, m_creation_time = 0, m_group_id = '''',
      m_group_sequence = 0, m_reply_to_group_id = '''', m_durable = False, m_priority = 4, m_ttl = 0,
      m_first_acquirer = False, m_delivery_count = 0, m_properties = [], m_body = VNull\<rparr>"

definition is_scalar :: "amqp_value \<Rightarrow> bool" where
  "is_scalar v = (case v of VDescribed \<Rightarrow> False | VArray _ \<Rightarrow> False | VList _ \<Rightarrow> False | VMap _ \<Rightarrow> False | _ \<Rightarrow> True)"

text \<open>
  \<open>get\<close> into a \<open>std::list<scalar>\<close>, a \<open>std::map<std::string, value>\<close> and a
  \<open>std::map<std::string, scalar>\<close>: a key that is no string and an element that is no scalar are conversion
  errors. The maps are ordered by key, and the last entry of a key stays.
\<close>

definition get_scalars :: "amqp_value list \<Rightarrow> amqp_value list result" where
  "get_scalars vs = (if list_all is_scalar vs then Inr vs else Inl Conversion_error)"

fun get_keys :: "proton_lib \<Rightarrow> (amqp_value \<times> amqp_value) list \<Rightarrow> (string \<times> amqp_value) list result" where
  "get_keys L [] = Inr []"
| "get_keys L (kv # kvs) =
     (case pl_get_string L (fst kv) of None \<Rightarrow> Inl Conversion_error
      | Some k \<Rightarrow> res_bind (get_keys L kvs) (\<lambda>r. Inr ((k, snd kv) # r)))"

definition get_map :: "proton_lib \<Rightarrow> (amqp_value \<times> amqp_value) list \<Rightarrow> (string, amqp_value) smap result" where
  "get_map L kvs = res_bind (get_keys L kvs) (\<lambda>r. Inr (put_all r []))"

definition get_scalar_map :: "proton_lib \<Rightarrow> (amqp_value \<times> amqp_value) list \<Rightarrow> (string, amqp_value) smap result" where
  "get_scalar_map L kvs = (if list_all (is_scalar \<circ> snd) kvs then get_map L kvs else Inl Conversion_error)"

text \<open>The conversion of the application properties, whose keys are strings by the protocol, to scalars.\<close>

definition get_properties :: "message \<Rightarrow> (string, amqp_value) smap result" where
  "get_properties m = (if list_all (is_scalar \<circ> snd) (m_properties m) then Inr (m_properties m) else Inl Conversion_error)"

definition string_keys :: "proton_lib \<Rightarrow> (amqp_value \<times> amqp_value) list \<Rightarrow> bool" where
  "string_keys L kvs = list_all (\<lambda>kv. pl_get_string L (fst kv) \<noteq> None) kvs"

definition keyed :: "proton_lib \<Rightarrow> (amqp_value \<times> amqp_value) list \<Rightarrow> (string \<times> amqp_value) list" where
  "keyed L kvs = map (\<lambda>kv. (the (pl_get_string L (fst kv)), snd kv)) kvs"

lemma get_keys_eq: "get_keys L kvs = (if string_keys L kvs then Inr (keyed L kvs) else Inl Conversion_error)"
  by (induction kvs) (auto simp: string_keys_def keyed_def split: option.split)

lemma get_map_eq: "get_map L kvs = (if string_keys L kvs then Inr (put_all (keyed L kvs) []) else Inl Conversion_error)"
  by (simp add: get_map_def get_keys_eq)

fun get_strings_of :: "proton_lib \<Rightarrow> amqp_value list \<Rightarrow> string list result" where
  "get_strings_of L [] = Inr []"
| "get_strings_of L (v # vs) =
     (case pl_get_string L v of None \<Rightarrow> Inl Conversion_error
      | Some s \<Rightarrow> res_bind (get_strings_of L vs) (\<lambda>ss. Inr (s # ss)))"

subsection \<open>Names\<close>

definition header_names :: "string list" where
  "header_names = [''redelivered'', ''reply_to'', ''subject'', ''content_type'', ''id'', ''correlation_id'',
     ''priority'', ''durable'', ''ttl'', ''user_id'', ''size'']"

definition unused_header_names :: "string list" where
  "unused_header_names = [''delivery_mode'', ''expiration'', ''body_length'', ''group_id'', ''group_seq'', ''broker_path'',
     ''original_destination'']"

text \<open>The array lists every header in use but the user id.\<close>

definition printableProperties :: "string list" where
  "printableProperties = [''redelivered'', ''reply_to'', ''subject'', ''content_type'', ''id'', ''correlation_id'',
     ''priority'', ''durable'', ''ttl'', ''size'']"

lemma printable_headers: "printableProperties = filter (\<lambda>n. n \<noteq> ''user_id'') header_names"
  by code_simp

lemma headers_distinct: "distinct (header_names @ unused_header_names)"
  by code_simp

definition content_text_plain :: string where
  "content_text_plain = ''text/plain''"

definition content_amqp_list :: string where
  "content_amqp_list = ''amqp/list''"

definition content_amqp_map :: string where
  "content_amqp_map = ''amqp/map''"

text \<open>
  A library for the witnesses: numbers in decimal, text as it is, and the conversions the documentation
  promises (a number coerces to a number, text to text, a UUID to a UUID).
\<close>

definition sample_show :: "amqp_value \<Rightarrow> string" where
  "sample_show v = (case v of VBool b \<Rightarrow> (if b then ''true'' else ''false'')
     | VUint n \<Rightarrow> show_int n | VInt n \<Rightarrow> show_int n | VUlong n \<Rightarrow> show_int n | VLong n \<Rightarrow> show_int n
     | VDouble s \<Rightarrow> s | VFloat s \<Rightarrow> s | VString s \<Rightarrow> s | VSymbol s \<Rightarrow> s | VUuid s \<Rightarrow> s | _ \<Rightarrow> '''')"

definition sample_lib :: proton_lib where
  "sample_lib =
     \<lparr>pl_show = sample_show,
      pl_coerce_u64 = (\<lambda>v. case v of VUlong n \<Rightarrow> Some n | VUint n \<Rightarrow> Some n | _ \<Rightarrow> None),
      pl_coerce_string = (\<lambda>v. case v of VString s \<Rightarrow> Some s | VSymbol s \<Rightarrow> Some s | VBinary s \<Rightarrow> Some s | _ \<Rightarrow> None),
      pl_coerce_uuid = (\<lambda>v. case v of VUuid s \<Rightarrow> Some s | _ \<Rightarrow> None),
      pl_get_string = (\<lambda>v. case v of VString s \<Rightarrow> Some s | _ \<Rightarrow> None)\<rparr>"

end
