(* ===== verification/Dict.thy ===== *)
theory Dict
  imports Message
begin

text \<open>
  \<open>DictFormatter\<close> (src/src/common/formatter): how values, lists, maps and the interoperability view of a
  message are written as Python text, and a reader for that text (the specification it is compared with).
\<close>

abbreviation sq_char :: char where
  "sq_char \<equiv> CHR 0x27"

abbreviation backslash :: char where
  "backslash \<equiv> CHR 0x5C"

definition format_bool :: "bool \<Rightarrow> string" where
  "format_bool b = (if b then ''True'' else ''False'')"

text \<open>The overload for a scalar reads it as a string.\<close>

definition format_bool_scalar :: "proton_lib \<Rightarrow> amqp_value \<Rightarrow> string result" where
  "format_bool_scalar L v = (case pl_get_string L v of None \<Rightarrow> Inl Conversion_error
     | Some s \<Rightarrow> Inr (if s = ''true'' then ''True'' else ''False''))"

definition quoted :: "string \<Rightarrow> string" where
  "quoted s = sq_char # s @ [sq_char]"

definition format_string :: "string \<Rightarrow> bool \<Rightarrow> string" where
  "format_string s remove_id_prefix =
     (if s = '''' then ''None''
      else if remove_id_prefix \<and> find_opt s ''ID:'' 0 = Some 0
        then (case find_opt s '':'' 0 of Some i \<Rightarrow> quoted (drop (Suc i) s) | None \<Rightarrow> quoted s)
      else quoted s)"

text \<open>The loop of \<open>escapeQuotes\<close>: replace the quote found, go on after the two characters inserted.\<close>

function escape_loop :: "string \<Rightarrow> nat \<Rightarrow> string" where
  "escape_loop s pos =
     (case find_opt s [sq_char] pos of None \<Rightarrow> s
      | Some i \<Rightarrow> escape_loop (take i s @ [backslash, sq_char] @ drop (i + 1) s) (i + 2))"
  by pat_completeness auto
termination
proof (relation "measure (\<lambda>(s, pos). Suc (length s) - pos)")
  fix s :: string and pos i
  assume "find_opt s [sq_char] pos = Some i"
  then have "find_at [sq_char] (drop pos s) pos = Some i" "pos \<le> length s"
    by (auto simp: find_opt_def split: if_splits)
  with find_at_bounds [OF this(1)] have "pos \<le> i" "i < length s" by auto
  then show "((take i s @ [backslash, sq_char] @ drop (i + 1) s, i + 2), s, pos)
      \<in> measure (\<lambda>(s, pos). Suc (length s) - pos)" by simp
qed simp

declare escape_loop.simps [simp del]

definition escape_quotes :: "string \<Rightarrow> string" where
  "escape_quotes s = escape_loop s 0"

text \<open>
  \<open>getValue\<close>. The elements of a list or map are scalars, so one level of containers is all there is;
  \<open>scalar_text\<close> is the switch without its container cases.
\<close>

definition scalar_text :: "proton_lib \<Rightarrow> amqp_value \<Rightarrow> string" where
  "scalar_text L v =
     (case v of
        VArray _ \<Rightarrow> '''' | VDescribed \<Rightarrow> ''''
      | VString s \<Rightarrow> (if s = '''' then ''None'' else quoted (escape_quotes s))
      | VDouble _ \<Rightarrow> pl_show L v | VFloat _ \<Rightarrow> pl_show L v | VInt _ \<Rightarrow> pl_show L v
      | VLong _ \<Rightarrow> pl_show L v | VUint _ \<Rightarrow> pl_show L v | VUlong _ \<Rightarrow> pl_show L v
      | VNull \<Rightarrow> ''None''
      | _ \<Rightarrow> quoted (pl_show L v))"

fun comma_list :: "string list \<Rightarrow> string" where
  "comma_list [] = ''''"
| "comma_list [x] = x"
| "comma_list (x # y # r) = x @ '', '' @ comma_list (y # r)"

definition format_list :: "proton_lib \<Rightarrow> amqp_value list \<Rightarrow> string" where
  "format_list L vs = ''['' @ comma_list (map (scalar_text L) vs) @ '']''"

definition format_entry :: "proton_lib \<Rightarrow> string \<times> amqp_value \<Rightarrow> string" where
  "format_entry L kv = [sq_char] @ fst kv @ [sq_char] @ '': '' @ scalar_text L (snd kv)"

definition format_map :: "proton_lib \<Rightarrow> (string, amqp_value) smap \<Rightarrow> string" where
  "format_map L m = ''{'' @ comma_list (map (format_entry L) m) @ ''}''"

definition format_properties :: "proton_lib \<Rightarrow> message \<Rightarrow> string result" where
  "format_properties L m =
     res_bind (get_properties m) (\<lambda>props. Inr (''{'' @ comma_list (map (format_entry L) props) @ ''}''))"

definition get_value :: "proton_lib \<Rightarrow> amqp_value \<Rightarrow> string result" where
  "get_value L v =
     (case v of
        VList vs \<Rightarrow> res_bind (get_scalars vs) (\<lambda>l. Inr (format_list L l))
      | VMap kvs \<Rightarrow> res_bind (get_scalar_map L kvs) (\<lambda>m. Inr (format_map L m))
      | _ \<Rightarrow> Inr (scalar_text L v))"

definition strip_address_prefix :: "string \<Rightarrow> string" where
  "strip_address_prefix s = (if find_opt s ''topic://'' 0 = Some 0 then drop 8 s else s)"

text \<open>
  \<open>printMessageInterop\<close>: the appends in order. A conversion error ends them; what was appended before it
  is printed all the same.
\<close>

definition interop_parts :: "proton_lib \<Rightarrow> message \<Rightarrow> string result list" where
  "interop_parts L m =
     [Inr ''{'',
      Inr (quoted ''durable'' @ '': ''), Inr (format_bool (m_durable m)),
      Inr ('', '' @ quoted ''priority'' @ '': ''), Inr (show_int (m_priority m)),
      Inr ('', '' @ quoted ''ttl'' @ '': ''), Inr (show_int (m_ttl m)),
      Inr ('', '' @ quoted ''first-acquirer'' @ '': ''), Inr (format_bool (m_first_acquirer m)),
      Inr ('', '' @ quoted ''delivery-count'' @ '': ''), Inr (show_int (m_delivery_count m)),
      Inr ('', '' @ quoted ''id'' @ '': ''),
        (if m_id m = VNull then Inr ''None''
         else case pl_get_string L (m_id m) of None \<Rightarrow> Inl Conversion_error | Some s \<Rightarrow> Inr (format_string s True)),
      Inr ('', '' @ quoted ''user-id'' @ '': ''), Inr (format_string (m_user m) False),
      Inr ('', '' @ quoted ''address'' @ '': ''), Inr (format_string (strip_address_prefix (m_to m)) False),
      Inr ('', '' @ quoted ''subject'' @ '': ''), Inr (format_string (m_subject m) False),
      Inr ('', '' @ quoted ''reply-to'' @ '': ''), Inr (format_string (m_reply_to m) False),
      Inr ('', '' @ quoted ''correlation-id'' @ '': ''),
        (if m_correlation_id m = VNull then Inr ''None''
         else case pl_coerce_string L (m_correlation_id m) of None \<Rightarrow> Inl Conversion_error | Some s \<Rightarrow> Inr (format_string s True)),
      Inr ('', '' @ quoted ''content-type'' @ '': ''), Inr (format_string (m_content_type m) False),
      Inr ('', '' @ quoted ''content-encoding'' @ '': ''), Inr (format_string (m_content_encoding m) False),
      Inr ('', '' @ quoted ''absolute-expiry-time'' @ '': ''), Inr (show_int (m_expiry_time m)),
      Inr ('', '' @ quoted ''creation-time'' @ '': ''), Inr (show_int (m_creation_time m)),
      Inr ('', '' @ quoted ''group-id'' @ '': ''), Inr (format_string (m_group_id m) False),
      Inr ('', '' @ quoted ''group-sequence'' @ '': ''), Inr (show_int (m_group_sequence m)),
      Inr ('', '' @ quoted ''reply-to-group-id'' @ '': ''), Inr (format_string (m_reply_to_group_id m) False),
      Inr ('', '' @ quoted ''properties'' @ '': ''), format_properties L m,
      Inr ('', '' @ quoted ''content'' @ '': ''), get_value L (m_body m),
      Inr ''}'']"

fun collect_parts :: "string result list \<Rightarrow> string \<times> cpp_exn option" where
  "collect_parts [] = ('''', None)"
| "collect_parts (Inl e # r) = ('''', Some e)"
| "collect_parts (Inr s # r) = apfst ((@) s) (collect_parts r)"

text \<open>What is printed: the text on the standard output, and the error (reported on the error output).\<close>

definition print_interop :: "proton_lib \<Rightarrow> message \<Rightarrow> string \<times> cpp_exn option" where
  "print_interop L m = apfst (\<lambda>s. s @ [CHR 0x0A]) (collect_parts (interop_parts L m))"

subsection \<open>Escaping\<close>

definition escape_char :: "char \<Rightarrow> string" where
  "escape_char c = (if c = sq_char then [backslash, sq_char] else [c])"

lemma escape_loop_suffix: "escape_loop (u @ s) (length u) = u @ concat (map escape_char s)"
proof (induction s arbitrary: u rule: length_induct)
  case (1 s)
  show ?case
  proof (cases "sq_char \<in> set s")
    case False
    then have "find_opt (u @ s) [sq_char] (length u) = None" by (simp add: find_opt_drop find_at_char_None)
    moreover have "concat (map escape_char s) = s" using False by (induction s) (auto simp: escape_char_def)
    ultimately show ?thesis by (subst escape_loop.simps) simp
  next
    case True
    then obtain a b where s: "s = a @ sq_char # b" "sq_char \<notin> set a" by (metis split_list_first)
    have f: "find_opt (u @ s) [sq_char] (length u) = Some (length u + length a)"
      using s by (simp add: find_opt_drop find_at_char_append)
    let ?u = "u @ a @ [backslash, sq_char]"
    have e: "take (length u + length a) (u @ s) @ [backslash, sq_char] @ drop (length u + length a + 1) (u @ s) = ?u @ b"
      by (simp add: s)
    have len: "length u + length a + 2 = length ?u" by simp
    have a: "concat (map escape_char a) = a" using s(2) by (induction a) (auto simp: escape_char_def)
    have "length b < length s" using s(1) by simp
    with 1 have "escape_loop (?u @ b) (length ?u) = ?u @ concat (map escape_char b)" by blast
    then show ?thesis
      by (subst escape_loop.simps) (simp only: f option.case e len, simp add: s a escape_char_def)
  qed
qed

text \<open>
  C37. The in-place replacement loop of \<open>escapeQuotes\<close> puts a backslash before every quote and changes
  nothing else; in particular it never escapes the quote it has just inserted.
\<close>

theorem escape_quotes_eq: "escape_quotes s = concat (map escape_char s)"
  using escape_loop_suffix [of "[]" s] by (simp add: escape_quotes_def)

subsection \<open>Reading the text back\<close>

text \<open>
  A reader for the Python text the formatter writes: a string after its opening quote (a backslash takes the
  next character as it is), and a dictionary of strings.
\<close>

fun py_str :: "string \<Rightarrow> (string \<times> string) option" where
  "py_str [] = None"
| "py_str (c # r) =
     (if c = sq_char then Some ([], r)
      else if c = backslash then (case r of [] \<Rightarrow> None | d # r' \<Rightarrow> map_option (apfst ((#) d)) (py_str r'))
      else map_option (apfst ((#) c)) (py_str r))"

definition expect :: "string \<Rightarrow> string \<Rightarrow> string option" where
  "expect t s = (if take (length t) s = t then Some (drop (length t) s) else None)"

definition py_entry :: "string \<Rightarrow> ((string \<times> string) \<times> string) option" where
  "py_entry s =
     Option.bind (expect [sq_char] s) (\<lambda>r. Option.bind (py_str r) (\<lambda>(k, r1).
     Option.bind (expect ('': '' @ [sq_char]) r1) (\<lambda>r2. Option.bind (py_str r2) (\<lambda>(v, r3). Some ((k, v), r3)))))"

fun py_entries :: "nat \<Rightarrow> string \<Rightarrow> (string \<times> string) list option" where
  "py_entries 0 s = None"
| "py_entries (Suc n) s =
     Option.bind (py_entry s) (\<lambda>(kv, r).
       if r = ''}'' then Some [kv]
       else Option.bind (expect '', '' r) (\<lambda>r'. map_option ((#) kv) (py_entries n r')))"

definition py_dict :: "string \<Rightarrow> (string \<times> string) list option" where
  "py_dict s = Option.bind (expect ''{'' s) (\<lambda>r. if r = ''}'' then Some [] else py_entries (length r) r)"

definition plain :: "string \<Rightarrow> bool" where
  "plain s = list_all (\<lambda>c. c \<noteq> sq_char \<and> c \<noteq> backslash) s"

definition no_backslash :: "string \<Rightarrow> bool" where
  "no_backslash s = list_all (\<lambda>c. c \<noteq> backslash) s"

lemma py_str_escaped: "no_backslash s \<Longrightarrow> py_str (concat (map escape_char s) @ sq_char # r) = Some (s, r)"
  by (induction s) (auto simp: no_backslash_def escape_char_def)

lemma py_str_plain: "plain s \<Longrightarrow> py_str (s @ sq_char # r) = Some (s, r)"
  by (induction s) (auto simp: plain_def)

lemma expect_append [simp]: "expect t (t @ r) = Some r"
  by (simp add: expect_def)

lemma expect_single [simp]: "expect [c] (c # r) = Some r"
  by (simp add: expect_def)

definition entry_text :: "string \<times> string \<Rightarrow> string" where
  "entry_text kv = [sq_char] @ fst kv @ [sq_char] @ '': '' @ [sq_char] @ concat (map escape_char (snd kv)) @ [sq_char]"

definition entry_ok :: "string \<times> string \<Rightarrow> bool" where
  "entry_ok kv = (plain (fst kv) \<and> no_backslash (snd kv) \<and> snd kv \<noteq> '''')"

lemma py_entry_text: "entry_ok kv \<Longrightarrow> py_entry (entry_text kv @ r) = Some (kv, r)"
  by (cases kv) (simp add: py_entry_def entry_text_def entry_ok_def py_str_plain py_str_escaped expect_def)

lemma py_entries_text:
  "list_all entry_ok kvs \<Longrightarrow> kvs \<noteq> [] \<Longrightarrow> length kvs \<le> n \<Longrightarrow>
     py_entries n (comma_list (map entry_text kvs) @ ''}'') = Some kvs"
proof (induction kvs arbitrary: n)
  case (Cons kv kvs)
  then obtain n' where n: "n = Suc n'" by (cases n) auto
  show ?case
  proof (cases kvs)
    case Nil
    with Cons.prems n py_entry_text [of kv "''}''"] show ?thesis by simp
  next
    case (Cons kv2 r)
    let ?rest = "comma_list (map entry_text kvs) @ ''}''"
    have t: "comma_list (map entry_text (kv # kvs)) @ ''}'' = entry_text kv @ '', '' @ ?rest"
      by (simp add: Cons)
    have "py_entries n' ?rest = Some kvs"
      using Cons Cons.IH [of n'] Cons.prems n by simp
    moreover have "'', '' @ ?rest \<noteq> ''}''" by simp
    moreover have "py_entry (entry_text kv @ '', '' @ ?rest) = Some (kv, '', '' @ ?rest)"
      using Cons.prems(1) by (intro py_entry_text) simp
    ultimately show ?thesis
      unfolding t n py_entries.simps by (simp add: expect_def)
  qed
qed simp

lemma comma_list_length: "length kvs \<le> Suc (length (comma_list (map entry_text kvs)))"
proof (induction kvs)
  case (Cons kv kvs)
  then show ?case by (cases kvs) (simp_all add: entry_text_def)
qed simp

lemma entry_text_eq: "snd kv \<noteq> '''' \<Longrightarrow> format_entry L (apsnd VString kv) = entry_text kv"
  using escape_loop_suffix [of "[]" "snd kv"]
  by (simp add: format_entry_def entry_text_def scalar_text_def quoted_def escape_quotes_def)

lemma py_dict_text:
  assumes "list_all (\<lambda>kv. snd kv \<noteq> '''') kvs" and "kvs \<noteq> []"
  obtains n where "length kvs \<le> n"
    "py_dict (format_map L (map (apsnd VString) kvs)) = py_entries n (comma_list (map entry_text kvs) @ ''}'')"
proof -
  let ?r = "comma_list (map entry_text kvs) @ ''}''"
  have m: "map (format_entry L) (map (apsnd VString) kvs) = map entry_text kvs"
    using assms(1) by (induction kvs) (auto simp: entry_text_eq)
  have "?r \<noteq> ''}''" using assms(2) by (cases kvs rule: remdups_adj.cases) (auto simp: entry_text_def)
  then have "py_dict (format_map L (map (apsnd VString) kvs)) = py_entries (length ?r) ?r"
    unfolding format_map_def m py_dict_def by (simp add: expect_def)
  moreover have "length kvs \<le> length ?r" using comma_list_length [of kvs] by simp
  ultimately show thesis by (rule that [rotated])
qed

text \<open>
  C31. Reading a printed map gives the map back, entry by entry and in key order, when its values are strings
  that are not empty and hold no backslash, and its keys hold neither a quote nor a backslash; quotes in the
  values are safe.
\<close>

theorem format_map_reads_back:
  assumes "list_all entry_ok kvs"
  shows "py_dict (format_map L (map (apsnd VString) kvs)) = Some kvs"
proof (cases "kvs = []")
  case True
  then show ?thesis by (simp add: format_map_def py_dict_def)
next
  case False
  have "list_all (\<lambda>kv. snd kv \<noteq> '''') kvs" using assms by (auto simp: list_all_iff entry_ok_def)
  from py_dict_text [OF this False] show ?thesis using py_entries_text [OF assms False] by metis
qed

lemma format_map_reads_back_witness:
  "py_dict (format_map sample_lib [(''k'', VString [CHR ''i'', CHR ''t'', sq_char, CHR ''s'']), (''l'', VString ''x'')]) =
     Some [(''k'', [CHR ''i'', CHR ''t'', sq_char, CHR ''s'']), (''l'', ''x'')]"
proof -
  have "list_all entry_ok [(''k'', [CHR ''i'', CHR ''t'', sq_char, CHR ''s'']), (''l'', ''x'')]" by code_simp
  from format_map_reads_back [OF this, of sample_lib] show ?thesis by simp
qed

text \<open>Keys are not escaped: a key that ends in a quote makes the whole map unreadable.\<close>

lemma comma_list_Cons: "comma_list (x # xs) = x @ concat (map (\<lambda>y. '', '' @ y) xs)"
  by (induction xs arbitrary: x) simp_all

lemma key_quote_breaks:
  assumes "plain a"
  shows "py_dict (format_map L ((a @ [sq_char], v) # rest)) = None"
proof -
  have "py_entry ((sq_char # a @ [sq_char, sq_char]) @ CHR '':'' # t) = None" for t
    using py_str_plain [OF assms, of "sq_char # CHR '':'' # t"] by (simp add: py_entry_def expect_def)
  then have "py_entries n ((sq_char # a @ [sq_char, sq_char]) @ CHR '':'' # t) = None" for n t
    by (cases n) simp_all
  then show ?thesis
    by (simp add: format_map_def py_dict_def comma_list_Cons format_entry_def expect_def)
qed

text \<open>Backslashes at the end of a value: two are read as one, and an odd one takes the closing quote.\<close>

lemma py_str_backslashes:
  "py_str (replicate n backslash @ sq_char # r) =
     (if even n then Some (replicate (n div 2) backslash, r)
      else map_option (apfst ((@) (replicate (n div 2) backslash @ [sq_char]))) (py_str r))"
proof (induction n rule: nat_induct2)
  case (step n)
  have "replicate (n + 2) backslash = backslash # backslash # replicate n backslash" by simp
  with step show ?case by (cases "py_str r") auto
qed (cases "py_str r"; simp)+

lemma py_str_value:
  "no_backslash s \<Longrightarrow> py_str (concat (map escape_char s) @ u) = map_option (apfst ((@) s)) (py_str u)"
  by (cases "py_str u"; induction s) (auto simp: no_backslash_def escape_char_def)

definition rest_text :: "(string \<times> string) list \<Rightarrow> string" where
  "rest_text kvs = concat (map (\<lambda>kv. '', '' @ entry_text kv) kvs) @ ''}''"

lemma rest_text_Cons: "rest_text (kv # kvs) = '', '' @ comma_list (map entry_text (kv # kvs)) @ ''}''"
  by (simp add: comma_list_Cons rest_text_def comp_def)

lemma split_text:
  "comma_list (map entry_text (pre @ kv # post)) @ ''}'' =
     concat (map (\<lambda>kv. entry_text kv @ '', '') pre) @ entry_text kv @ rest_text post"
proof (induction pre)
  case (Cons x pre)
  then show ?case by (cases pre) simp_all
qed (simp add: comma_list_Cons rest_text_def comp_def)

text \<open>A reader that takes what follows a value for a part of it finds no entry in what is left.\<close>

lemma expect_value:
  assumes "expect ('': '' @ [sq_char]) (concat (map escape_char v) @ sq_char # t) = Some r" and "v \<noteq> ''''"
  shows "r = t"
  using assms
  by (cases v rule: remdups_adj.cases; cases "tl (tl v)")
     (auto simp: expect_def escape_char_def split: if_splits)

lemma nothing_left:
  "list_all entry_ok kvs \<Longrightarrow> py_str (rest_text kvs) = Some (v, r) \<Longrightarrow>
     r \<noteq> ''}'' \<and> Option.bind (expect '', '' r) (py_entries n) = None"
proof (induction kvs arbitrary: v r n)
  case Nil
  then show ?case by (simp add: rest_text_def)
next
  case (Cons kv kvs)
  obtain k w where kv: "kv = (k, w)" by (cases kv)
  with Cons.prems have ok: "plain k" "no_backslash w" "w \<noteq> ''''" by (simp_all add: entry_ok_def)
  have oks: "list_all entry_ok kvs" using Cons.prems by simp
  let ?t = "concat (map escape_char w) @ sq_char # rest_text kvs"
  have r: "r = k @ [sq_char] @ '': '' @ [sq_char] @ ?t"
    using Cons.prems by (auto simp: kv rest_text_def entry_text_def)
  have "py_entries m r' = None" if r': "expect '', '' r = Some r'" for m r'
  proof (cases m)
    case (Suc m')
    obtain k' where k: "k = '', '' @ k'" and r'': "r' = k' @ [sq_char] @ '': '' @ [sq_char] @ ?t"
      using r' unfolding r by (cases k rule: remdups_adj.cases) (auto simp: expect_def split: if_splits)
    show ?thesis
    proof (cases k')
      case (Cons c k'')
      then have "py_entry r' = None" using ok(1) unfolding k r'' by (auto simp: plain_def py_entry_def expect_def)
      then show ?thesis by (simp add: Suc)
    next
      case Nil
      have e: "py_entry r' = Option.bind (expect ('': '' @ [sq_char]) ?t) (\<lambda>r2. Option.bind (py_str r2) (\<lambda>(v, r3). Some (('': '', v), r3)))"
        unfolding r'' Nil by (simp add: py_entry_def expect_def)
      show ?thesis
      proof (cases "py_entry r'")
        case (Some x)
        then obtain r2 v' r3 where 2: "expect ('': '' @ [sq_char]) ?t = Some r2" "py_str r2 = Some (v', r3)" "x = (('': '', v'), r3)"
          unfolding e by (auto simp: bind_eq_Some_conv)
        have "r2 = rest_text kvs" by (rule expect_value [OF 2(1) ok(3)])
        with 2(2) have "py_str (rest_text kvs) = Some (v', r3)" by simp
        from Cons.IH [OF oks this, of m'] Some 2(3) show ?thesis
          by (auto simp: Suc bind_eq_None_conv split: option.splits)
      qed (simp add: Suc)
    qed
  qed simp
  then have "Option.bind (expect '', '' r) (py_entries n) = None" by (cases "expect '', '' r") simp_all
  then show ?case unfolding r by (cases k) auto
qed

lemma py_entries_prefix:
  "list_all entry_ok pre \<Longrightarrow> py_entries (length pre + n) (concat (map (\<lambda>kv. entry_text kv @ '', '') pre) @ u) =
     map_option ((@) pre) (py_entries n u)"
proof (induction pre)
  case (Cons kv pre)
  then have ok: "entry_ok kv" by simp
  from Cons py_entry_text [OF ok, of "'', '' @ concat (map (\<lambda>kv. entry_text kv @ '', '') pre) @ u"]
  show ?case by (simp add: expect_def option.map_comp comp_def)
qed (cases "py_entries n u"; simp)

text \<open>
  C38. What a value that ends in backslashes does to a map that is read back otherwise (\<open>C31\<close>), wherever it stands
  in it: when their number is odd the map is not readable any more, by whatever entries the value is followed; when
  it is even the map is read, with half of them.
\<close>

theorem trailing_backslash_breaks:
  assumes "list_all entry_ok pre" and "list_all entry_ok post" and "plain k" and "no_backslash s"
    and "s @ replicate n backslash \<noteq> ''''"
  shows "py_dict (format_map L (map (apsnd VString) (pre @ (k, s @ replicate n backslash) # post))) =
    (if odd n then None else Some (pre @ (k, s @ replicate (n div 2) backslash) # post))"
proof -
  let ?kv = "(k, s @ replicate n backslash)" and ?s = "s @ replicate (n div 2) backslash"
  let ?kvs = "pre @ ?kv # post"
  have "list_all (\<lambda>kv. snd kv \<noteq> '''') ?kvs" using assms by (auto simp: list_all_iff entry_ok_def)
  then obtain N where N: "length ?kvs \<le> N" and d:
    "py_dict (format_map L (map (apsnd VString) ?kvs)) = py_entries N (comma_list (map entry_text ?kvs) @ ''}'')"
    by (rule py_dict_text) simp
  obtain m where m: "N = length pre + Suc m" "length post \<le> m"
    using N by (intro that [of "N - Suc (length pre)"]) simp_all
  have t: "comma_list (map entry_text ?kvs) @ ''}'' =
      concat (map (\<lambda>kv. entry_text kv @ '', '') pre) @ entry_text ?kv @ rest_text post"
    by (rule split_text)
  have bs: "concat (replicate n (escape_char backslash)) = replicate n backslash"
    by (induction n) (simp_all add: escape_char_def)
  have str: "py_str (concat (map escape_char s) @ replicate n backslash @ sq_char # rest_text post) =
      (if even n then Some (?s, rest_text post) else map_option (apfst ((@) (?s @ [sq_char]))) (py_str (rest_text post)))"
    using assms(4) by (cases "py_str (rest_text post)") (auto simp: py_str_value py_str_backslashes)
  have e: "py_entry (entry_text ?kv @ rest_text post) =
      (if even n then Some ((k, ?s), rest_text post)
       else map_option (\<lambda>(v, r). ((k, ?s @ sq_char # v), r)) (py_str (rest_text post)))"
    by (cases "py_str (rest_text post)")
       (auto simp: py_entry_def entry_text_def bs py_str_plain [OF assms(3)] expect_def str)
  have "py_entries (Suc m) (entry_text ?kv @ rest_text post) = (if odd n then None else Some ((k, ?s) # post))"
  proof (cases "odd n")
    case True
    with nothing_left [OF assms(2), of _ _ m] show ?thesis
      by (cases "py_str (rest_text post)") (auto simp: e bind_eq_None_conv split: option.splits)
  next
    case False
    show ?thesis
    proof (cases post)
      case Nil
      with False e show ?thesis by (simp add: rest_text_def)
    next
      case (Cons kv2 post')
      then have r: "rest_text post = '', '' @ comma_list (map entry_text post) @ ''}''" by (simp only: rest_text_Cons)
      from py_entries_text [OF assms(2) _ m(2)] Cons False e show ?thesis unfolding r by (simp add: expect_def)
    qed
  qed
  then show ?thesis unfolding d t m(1) py_entries_prefix [OF assms(1)] by simp
qed

lemma trailing_backslash_breaks_witness:
  "py_dict (format_map sample_lib [(''a'', VString ''b''), (''k'', VString [CHR ''C'', CHR '':'', backslash]), (''l'', VString ''x'')]) = None \<and>
   py_dict (format_map sample_lib [(''k'', VString [CHR ''C'', backslash, backslash])]) = Some [(''k'', [CHR ''C'', backslash])]"
proof -
  have "list_all entry_ok [(''a'', ''b'')]" "list_all entry_ok [(''l'', ''x'')]" "list_all entry_ok []"
    "plain ''k''" "no_backslash ''C:''" "no_backslash ''C''" by code_simp+
  then show ?thesis
    using trailing_backslash_breaks [of "[(''a'', ''b'')]" "[(''l'', ''x'')]" "''k''" "''C:''" 1 sample_lib]
      trailing_backslash_breaks [of "[]" "[]" "''k''" "''C''" 2 sample_lib]
    by (simp add: numeral_2_eq_2)
qed

subsection \<open>The interoperability view\<close>

lemma collect_append: "collect_parts (map Inr ss @ r) = apfst ((@) (concat ss)) (collect_parts r)"
  by (induction ss) (simp_all add: apfst_def map_prod_def split_beta prod_eq_iff)

definition interop_readable :: "proton_lib \<Rightarrow> message \<Rightarrow> bool" where
  "interop_readable L m =
     ((m_id m = VNull \<or> pl_get_string L (m_id m) \<noteq> None) \<and>
      (m_correlation_id m = VNull \<or> pl_coerce_string L (m_correlation_id m) \<noteq> None) \<and>
      list_all (is_scalar \<circ> snd) (m_properties m) \<and>
      (case m_body m of VList vs \<Rightarrow> list_all is_scalar vs
       | VMap kvs \<Rightarrow> string_keys L kvs \<and> list_all (is_scalar \<circ> snd) kvs | _ \<Rightarrow> True))"

lemma collect_complete: "snd (collect_parts ps) = None \<longleftrightarrow> list_all (\<lambda>p. \<exists>s. p = Inr s) ps"
  by (induction ps rule: collect_parts.induct) auto

lemma collect_last: "snd (collect_parts (ps @ [Inr s])) = None \<Longrightarrow> \<exists>t. fst (collect_parts (ps @ [Inr s])) = t @ s"
  by (induction ps rule: collect_parts.induct) auto


end
