(* ===== verification/Decoder.thy ===== *)
theory Decoder
  imports Dict WriterM
begin

text \<open>
  \<open>AbstractDecoder\<close>, \<open>ReactorDecoder\<close> and the \<open>printMessage\<close> of the two formatters: a message is
  written through a \<open>Writer\<close>, that is through the operations \<open>ops\<close>. A step takes the text written so
  far and returns the longer text, or the conversion error the library raised. The decoders' own log lines
  are not modelled.
\<close>

type_synonym out_step = "string \<Rightarrow> string result"

definition then_step :: "out_step \<Rightarrow> out_step \<Rightarrow> out_step" where
  "then_step f g out = res_bind (f out) g"

definition lift_step :: "(string \<Rightarrow> string) \<Rightarrow> out_step" where
  "lift_step f out = Inr (f out)"

fun steps :: "out_step list \<Rightarrow> out_step" where
  "steps [] = Inr"
| "steps (f # fs) = then_step f (steps fs)"

subsection \<open>Abstract decoder\<close>

definition decode_bool :: "bool \<Rightarrow> string" where
  "decode_bool b = (if b then ''True'' else ''False'')"

definition decode_bool_to :: "writer_ops \<Rightarrow> bool \<Rightarrow> string \<Rightarrow> string" where
  "decode_bool_to ops b = w_write ops (decode_bool b) True"

text \<open>\<open>quoteStringEscape\<close>: hexadecimal escapes outside the printable range (a negative char as an \<open>int\<close>).\<close>

definition hex_digit :: "int \<Rightarrow> char" where
  "hex_digit d = (if d < 10 then char_of (48 + d) else char_of (87 + d))"

definition signed_code :: "char \<Rightarrow> int" where
  "signed_code c = (if code_of c < 128 then code_of c else code_of c - 256)"

definition quote_string_escape :: "string \<Rightarrow> string" where
  "quote_string_escape a = concat (map (\<lambda>c.
     if signed_code c < 32 \<or> signed_code c > 126
     then [backslash, backslash, CHR ''x''] @
       (if 0 \<le> signed_code c then [hex_digit (signed_code c div 16), hex_digit (signed_code c mod 16)]
        else ''ffffff'' @ [hex_digit (code_of c div 16), hex_digit (code_of c mod 16)])
     else (if c = sq_char then [backslash] else []) @ [c]) a)"

definition decode_string :: "string \<Rightarrow> string" where
  "decode_string s = (if s = '''' then '''' else s)"

definition decode_string_to :: "writer_ops \<Rightarrow> string \<Rightarrow> string \<Rightarrow> string" where
  "decode_string_to ops s = w_write ops (decode_string s) False"

text \<open>The template for maps, of strings in the source's uses; an empty map writes nothing.\<close>

fun decode_entries :: "writer_ops \<Rightarrow> bool \<Rightarrow> (string \<times> string) list \<Rightarrow> string \<Rightarrow> string" where
  "decode_entries ops first [] out = out"
| "decode_entries ops first (kv # kvs) out =
     decode_entries ops False kvs (w_write_kv ops kv False (if first then out else w_endField ops out))"

definition decode_map_to :: "writer_ops \<Rightarrow> (string, string) smap \<Rightarrow> string \<Rightarrow> string" where
  "decode_map_to ops m out =
     (if length m = 0 then out else w_endMap ops (decode_entries ops True m (w_startMap ops out)))"

definition decode_list_to :: "writer_ops \<Rightarrow> string list \<Rightarrow> string \<Rightarrow> string" where
  "decode_list_to ops l out =
     (if length l = 0 then out else w_endList ops (fold (decode_string_to ops) l (w_startList ops out)))"

definition print_statistics :: "writer_ops \<Rightarrow> (string, string) smap \<Rightarrow> string \<Rightarrow> string" where
  "print_statistics ops m out = w_endStatistics ops (decode_map_to ops m (w_startStatistics ops out))"

subsection \<open>Reactor decoder\<close>

text \<open>A field whose value is written as it is: name, colon, value, comma.\<close>

definition write_raw_field :: "writer_ops \<Rightarrow> string \<Rightarrow> string \<Rightarrow> string \<Rightarrow> string" where
  "write_raw_field ops name v out =
     w_write ops '', '' True (w_write ops v True (w_write ops '': '' True (w_write ops name False out)))"

definition write_string :: "writer_ops \<Rightarrow> string \<Rightarrow> string \<Rightarrow> string \<Rightarrow> string" where
  "write_string ops name v =
     (if v = '''' then write_raw_field ops name ''None'' else w_write_kv ops (name, decode_string v) True)"

definition write_uint8 :: "writer_ops \<Rightarrow> string \<Rightarrow> int \<Rightarrow> string \<Rightarrow> string" where
  "write_uint8 ops name v = write_raw_field ops name (show_int v)"

definition write_message_id :: "proton_lib \<Rightarrow> writer_ops \<Rightarrow> string \<Rightarrow> amqp_value \<Rightarrow> string \<Rightarrow> string" where
  "write_message_id L ops name v =
     (if v \<noteq> VNull then
        (case pl_coerce_u64 L v of
           Some i \<Rightarrow> w_write_kv ops (name, show_int i) True
         | None \<Rightarrow> (case pl_coerce_string L v of
             Some s \<Rightarrow> (if s = '''' then write_raw_field ops name ''None'' else w_write_kv ops (name, decode_string s) True)
           | None \<Rightarrow> (case pl_coerce_uuid L v of
               Some s \<Rightarrow> (if s = '''' then write_raw_field ops name ''None'' else w_write_kv ops (name, decode_string s) True)
             | None \<Rightarrow> write_raw_field ops name ''None'')))
      else write_raw_field ops name ''None'')"

definition write_ttl :: "writer_ops \<Rightarrow> message \<Rightarrow> string \<Rightarrow> string" where
  "write_ttl ops m = write_raw_field ops ''ttl'' (show_int (m_ttl m))"

definition write_durable :: "writer_ops \<Rightarrow> message \<Rightarrow> string \<Rightarrow> string" where
  "write_durable ops m = write_raw_field ops ''durable'' (if m_durable m then ''True'' else ''False'')"

definition write_redelivered :: "writer_ops \<Rightarrow> message \<Rightarrow> string \<Rightarrow> string" where
  "write_redelivered ops m = write_raw_field ops ''redelivered'' (if m_delivery_count m > 0 then ''True'' else ''False'')"

definition write_content_size :: "writer_ops \<Rightarrow> message \<Rightarrow> string \<Rightarrow> string" where
  "write_content_size ops m =
     (if m_content_type m \<noteq> content_text_plain then write_raw_field ops ''size'' ''0''
      else write_raw_field ops ''size'' ''0'')"

text \<open>\<open>decodeValue(value)\<close>: the text of a value, empty for a nested container.\<close>

definition decode_value :: "proton_lib \<Rightarrow> amqp_value \<Rightarrow> string result" where
  "decode_value L v =
     (case v of
        VArray _ \<Rightarrow> Inr '''' | VDescribed \<Rightarrow> Inr ''''
      | VList vs \<Rightarrow> res_bind (get_strings_of L vs) (\<lambda>_. Inr '''')
      | VMap _ \<Rightarrow> Inr ''''
      | VString s \<Rightarrow> Inr (quoted (escape_quotes s))
      | VUint _ \<Rightarrow> Inr (pl_show L v) | VLong _ \<Rightarrow> Inr (pl_show L v) | VInt _ \<Rightarrow> Inr (pl_show L v)
      | VFloat _ \<Rightarrow> Inr (pl_show L v) | VDouble _ \<Rightarrow> Inr (pl_show L v)
      | VBool b \<Rightarrow> Inr (decode_bool b)
      | VNull \<Rightarrow> Inr ''''
      | _ \<Rightarrow> Inr (quoted (pl_show L v)))"

definition write_value :: "proton_lib \<Rightarrow> writer_ops \<Rightarrow> amqp_value \<Rightarrow> out_step" where
  "write_value L ops v out = res_bind (decode_value L v) (\<lambda>s. Inr (w_write ops s True out))"

fun write_props :: "proton_lib \<Rightarrow> writer_ops \<Rightarrow> (string \<times> amqp_value) list \<Rightarrow> out_step" where
  "write_props L ops [] out = Inr out"
| "write_props L ops (kv # r) out =
     res_bind (write_value L ops (snd kv)
         (w_write ops (quote @ '': '') True (w_write ops (fst kv) True (w_write ops quote True out))))
       (\<lambda>out1. write_props L ops r (if r = [] then out1 else w_write ops '', '' True out1))"

definition write_properties :: "proton_lib \<Rightarrow> writer_ops \<Rightarrow> message \<Rightarrow> out_step" where
  "write_properties L ops m =
     steps [lift_step (w_startMap ops),
       (\<lambda>out. res_bind (get_properties m) (\<lambda>props. write_props L ops props out)),
       lift_step (w_endMap ops)]"

definition decode_header :: "proton_lib \<Rightarrow> writer_ops \<Rightarrow> message \<Rightarrow> out_step" where
  "decode_header L ops m =
     steps (map lift_step
       [write_redelivered ops m,
        write_string ops ''reply_to'' (m_reply_to m),
        write_string ops ''subject'' (m_subject m),
        write_string ops ''content_type'' (m_content_type m),
        write_string ops ''user_id'' (m_user m),
        write_message_id L ops ''id'' (m_id m),
        write_message_id L ops ''correlation_id'' (m_correlation_id m),
        write_uint8 ops ''priority'' (m_priority m),
        write_durable ops m,
        write_ttl ops m])"

definition decode_properties :: "proton_lib \<Rightarrow> writer_ops \<Rightarrow> message \<Rightarrow> out_step" where
  "decode_properties L ops m =
     steps [lift_step (w_startProperties ops), write_properties L ops m, lift_step (w_endProperties ops)]"

fun write_list :: "proton_lib \<Rightarrow> writer_ops \<Rightarrow> amqp_value list \<Rightarrow> out_step" where
  "write_list L ops [] out = Inr out"
| "write_list L ops (v # r) out =
     res_bind (write_value L ops v out) (\<lambda>out1. write_list L ops r (if r = [] then out1 else w_endField ops out1))"

fun write_map :: "proton_lib \<Rightarrow> writer_ops \<Rightarrow> (string \<times> amqp_value) list \<Rightarrow> out_step" where
  "write_map L ops [] out = Inr out"
| "write_map L ops (kv # r) out =
     res_bind (write_value L ops (snd kv) (w_separate ops (w_write ops (fst kv) False out)))
       (\<lambda>out1. write_map L ops r (if r = [] then out1 else w_endField ops out1))"

text \<open>\<open>decodeValue(writer, value)\<close>: the two containers; anything else writes nothing.\<close>

definition decode_value_to :: "proton_lib \<Rightarrow> writer_ops \<Rightarrow> amqp_value \<Rightarrow> out_step" where
  "decode_value_to L ops v =
     (case v of
        VList vs \<Rightarrow> steps [lift_step (w_startList ops), write_list L ops vs, lift_step (w_endList ops)]
      | VMap kvs \<Rightarrow> steps [lift_step (w_startMap ops),
          (\<lambda>out. res_bind (get_map L kvs) (\<lambda>m. write_map L ops m out)),
          lift_step (w_endMap ops)]
      | _ \<Rightarrow> Inr)"

definition decode_content :: "proton_lib \<Rightarrow> writer_ops \<Rightarrow> message \<Rightarrow> out_step" where
  "decode_content L ops m =
     (case m_body m of
        VMap kvs \<Rightarrow> decode_value_to L ops (VMap kvs)
      | VList vs \<Rightarrow> decode_value_to L ops (VList vs)
      | v \<Rightarrow> (\<lambda>out. res_bind (decode_value L v)
               (\<lambda>content. Inr (w_write ops (if content = '''' then ''None'' else content) True out))))"

subsection \<open>Formatters\<close>

definition dict_print_message :: "proton_lib \<Rightarrow> writer_ops \<Rightarrow> message \<Rightarrow> out_step" where
  "dict_print_message L ops m =
     steps [lift_step (w_startHeader ops), decode_header L ops m, decode_properties L ops m,
       lift_step (w_startContent ops), decode_content L ops m, lift_step (w_endContent ops)]"

definition upstream_print_message :: "proton_lib \<Rightarrow> writer_ops \<Rightarrow> message \<Rightarrow> out_step" where
  "upstream_print_message L ops m =
     steps [lift_step (w_start ops), decode_properties L ops m, lift_step (w_startContent ops),
       decode_content L ops m, lift_step (w_endContent ops), lift_step (w_end ops)]"

subsection \<open>Every step appends\<close>

definition step_appends :: "out_step \<Rightarrow> bool" where
  "step_appends f = (\<forall>out. f out = map_sum id ((@) out) (f ''''))"

lemma step_appendsD: "step_appends f \<Longrightarrow> f out = map_sum id ((@) out) (f '''')"
  unfolding step_appends_def by (rule spec)

lemma step_appendsI: "(\<And>out. f out = map_sum id ((@) out) r) \<Longrightarrow> step_appends f"
proof -
  assume f: "\<And>out. f out = map_sum id ((@) out) r"
  have "f '''' = r" using f [of "''''"] by (cases r) simp_all
  with f show ?thesis by (simp add: step_appends_def)
qed

lemma lift_appends: "appends f \<Longrightarrow> step_appends (lift_step f)"
  by (rule step_appendsI [where r = "Inr (f '''')"]) (simp add: lift_step_def, rule appendsD)

lemma then_appends: "step_appends f \<Longrightarrow> step_appends g \<Longrightarrow> step_appends (then_step f g)"
proof (rule step_appendsI [where r = "then_step f g ''''"])
  fix out
  assume f: "step_appends f" and g: "step_appends g"
  show "then_step f g out = map_sum id ((@) out) (then_step f g '''')"
  proof (cases "f ''''")
    case (Inl e)
    then show ?thesis by (simp add: then_step_def step_appendsD [OF f, of out])
  next
    case (Inr t)
    have "g (out @ t) = map_sum id ((@) (out @ t)) (g '''')" by (rule step_appendsD [OF g])
    moreover have "g t = map_sum id ((@) t) (g '''')" by (rule step_appendsD [OF g])
    ultimately show ?thesis
      by (cases "g ''''") (simp_all add: then_step_def step_appendsD [OF f, of out] Inr)
  qed
qed

lemma Inr_appends: "step_appends Inr"
  by (simp add: step_appends_def)

lemma steps_append: "list_all step_appends fs \<Longrightarrow> step_appends (steps fs)"
  by (induction fs) (simp_all add: then_appends Inr_appends)

lemma const_appends: "(\<And>s. appends (g s)) \<Longrightarrow> step_appends (\<lambda>out. res_bind r (\<lambda>s. Inr (g s out)))"
proof -
  assume g: "\<And>s. appends (g s)"
  show ?thesis
  proof (rule step_appendsI [where r = "map_sum id (\<lambda>s. g s '''') r"])
    fix out
    show "res_bind r (\<lambda>s. Inr (g s out)) = map_sum id ((@) out) (map_sum id (\<lambda>s. g s '''') r)"
    proof (cases r)
      case (Inr s)
      then show ?thesis by (simp add: appendsD [OF g [of s], of out])
    qed simp
  qed
qed

lemma bind_appends:
  assumes "\<And>x. step_appends (f x)"
  shows "step_appends (\<lambda>out. res_bind r (\<lambda>x. f x out))"
proof (cases r)
  case (Inl e)
  show ?thesis by (rule step_appendsI [where r = "Inl e"]) (simp add: Inl)
next
  case (Inr x)
  with assms [of x] show ?thesis by simp
qed

context writer begin

lemma appends_raw_field: "appends (write_raw_field ops name v)"
  unfolding write_raw_field_def
  by (rule appends_comp [OF appends_comp [OF appends_comp [OF appends_write appends_write] appends_write] appends_write])

lemma appends_header_fields:
  "appends (write_string ops name s)" "appends (write_message_id L ops name v)" "appends (write_uint8 ops name n)"
  "appends (write_ttl ops m)" "appends (write_durable ops m)" "appends (write_redelivered ops m)"
  by (simp_all add: write_string_def write_message_id_def write_uint8_def write_ttl_def write_durable_def
      write_redelivered_def appends_raw_field appends_write_kv split: option.split)

lemma appends_value: "step_appends (write_value L ops v)"
  unfolding write_value_def by (intro const_appends appends_write)

lemma sep_appends: "appends (\<lambda>out. if b then out else f out)" if "appends f"
  using that by (cases b) simp_all

lemma appends_loop:
  assumes "step_appends f" "step_appends g" "appends h"
  shows "step_appends (\<lambda>out. res_bind (f out) (\<lambda>out1. g (if b then out1 else h out1)))"
proof -
  have "step_appends (then_step f (then_step (lift_step (\<lambda>out. if b then out else h out)) g))"
    by (intro then_appends assms lift_appends sep_appends)
  then show ?thesis by (simp add: then_step_def [abs_def] lift_step_def)
qed

lemma appends_props: "step_appends (write_props L ops kvs)"
proof (induction kvs)
  case (Cons kv r)
  have "appends (\<lambda>out. w_write ops (quote @ '': '') True (w_write ops (fst kv) True (w_write ops quote True out)))"
    by (rule appends_comp [OF appends_comp [OF appends_write appends_write] appends_write])
  then have "step_appends (\<lambda>out. write_value L ops (snd kv)
      (w_write ops (quote @ '': '') True (w_write ops (fst kv) True (w_write ops quote True out))))"
    using then_appends [OF lift_appends appends_value, of _ L "snd kv"] by (simp add: then_step_def [abs_def] lift_step_def)
  from appends_loop [OF this Cons.IH appends_write [of "'', ''" True], of "r = []"] show ?case by (simp add: fun_eq_iff)
qed (simp add: Inr_appends [unfolded fun_eq_iff] step_appends_def)

lemma appends_list_items: "step_appends (write_list L ops vs)"
proof (induction vs)
  case (Cons v r)
  from appends_loop [OF appends_value Cons.IH appends_field(2), of L v "r = []"] show ?case by (simp add: fun_eq_iff)
qed (simp add: step_appends_def)

lemma appends_map_items: "step_appends (write_map L ops kvs)"
proof (induction kvs)
  case (Cons kv r)
  have "appends (\<lambda>out. w_separate ops (w_write ops (fst kv) False out))"
    by (rule appends_comp [OF appends_write appends_field(1)])
  then have "step_appends (\<lambda>out. write_value L ops (snd kv) (w_separate ops (w_write ops (fst kv) False out)))"
    using then_appends [OF lift_appends appends_value, of _ L "snd kv"] by (simp add: then_step_def [abs_def] lift_step_def)
  from appends_loop [OF this Cons.IH appends_field(2), of "r = []"] show ?case by (simp add: fun_eq_iff)
qed (simp add: step_appends_def)

lemma appends_properties_section: "step_appends (decode_properties L ops m)"
  unfolding decode_properties_def write_properties_def
  by (simp add: then_appends lift_appends Inr_appends appends_props appends_properties appends_map bind_appends)

lemma appends_decode_header: "step_appends (decode_header L ops m)"
  unfolding decode_header_def by (simp add: then_appends Inr_appends lift_appends appends_header_fields)

lemma appends_decode_value_to: "step_appends (decode_value_to L ops v)"
proof (cases v)
  case (VList vs)
  then show ?thesis unfolding decode_value_to_def
    by (simp add: then_appends Inr_appends lift_appends appends_list_items appends_list)
next
  case (VMap kvs)
  then show ?thesis unfolding decode_value_to_def
    by (simp add: then_appends Inr_appends lift_appends appends_map_items appends_map bind_appends)
qed (simp_all add: decode_value_to_def Inr_appends)

lemma appends_decode_content: "step_appends (decode_content L ops m)"
  using const_appends [OF appends_write, of "decode_value L (m_body m)" "\<lambda>c. if c = '''' then ''None'' else c" "\<lambda>_. True"]
  by (cases "m_body m") (simp_all add: decode_content_def appends_decode_value_to)

lemma appends_dict_print: "step_appends (dict_print_message L ops m)"
  unfolding dict_print_message_def
  by (simp add: then_appends Inr_appends lift_appends appends_header appends_content appends_decode_header
      appends_properties_section appends_decode_content)

lemma appends_upstream_print: "step_appends (upstream_print_message L ops m)"
  unfolding upstream_print_message_def
  by (simp add: then_appends Inr_appends lift_appends appends_start appends_content
      appends_properties_section appends_decode_content)

end

text \<open>
  Printing a message, in either format, leaves what was printed before as it is and adds a text that
  depends on the message only; if the message cannot be converted, that too depends on the message only.
\<close>

theorem print_message_appends:
  "dict_print_message L dict_ops m out = map_sum id ((@) out) (dict_print_message L dict_ops m '''') \<and>
   upstream_print_message L upstream_ops m out = map_sum id ((@) out) (upstream_print_message L upstream_ops m '''')"
  using step_appendsD [OF dict.appends_dict_print] step_appendsD [OF upstream.appends_upstream_print] by blast

subsection \<open>When a message cannot be printed\<close>

definition elem_ok :: "proton_lib \<Rightarrow> amqp_value \<Rightarrow> bool" where
  "elem_ok L v = (case v of VList vs \<Rightarrow> list_all (\<lambda>u. pl_get_string L u \<noteq> None) vs | _ \<Rightarrow> True)"

definition body_ok :: "proton_lib \<Rightarrow> amqp_value \<Rightarrow> bool" where
  "body_ok L v = (case v of VList vs \<Rightarrow> list_all (elem_ok L) vs
     | VMap kvs \<Rightarrow> string_keys L kvs \<and> list_all (elem_ok L \<circ> snd) (put_all (keyed L kvs) []) | _ \<Rightarrow> True)"

definition printable :: "proton_lib \<Rightarrow> message \<Rightarrow> bool" where
  "printable L m = (list_all (is_scalar \<circ> snd) (m_properties m) \<and> body_ok L (m_body m))"

definition outcome :: "bool \<Rightarrow> string result \<Rightarrow> bool" where
  "outcome b r = (if b then \<exists>t. r = Inr t else r = Inl Conversion_error)"

lemma outcome_simps [simp]: "outcome b (Inr t) = b" "outcome b (Inl e) = (\<not> b \<and> e = Conversion_error)"
  by (auto simp: outcome_def)

lemma outcome_bind: "outcome a r \<Longrightarrow> (\<And>t. outcome b (f t)) \<Longrightarrow> outcome (a \<and> b) (res_bind r f)"
  by (cases r; cases a) (auto simp: outcome_def)

lemma get_strings_outcome:
  "(\<exists>ss. get_strings_of L vs = Inr ss) = list_all (\<lambda>u. pl_get_string L u \<noteq> None) vs \<and>
   (\<forall>e. get_strings_of L vs = Inl e \<longrightarrow> e = Conversion_error)"
  by (induction L vs rule: get_strings_of.induct) (auto simp: res_bind_def split: option.splits sum.splits)

lemma decode_value_outcome: "outcome (elem_ok L v) (decode_value L v)"
proof (cases v)
  case (VList vs)
  then show ?thesis
    using get_strings_outcome [of L vs]
    by (cases "get_strings_of L vs") (auto simp: decode_value_def elem_ok_def)
qed (simp_all add: decode_value_def elem_ok_def)

lemma write_value_outcome: "outcome (elem_ok L v) (write_value L ops v out)"
  using outcome_bind [OF decode_value_outcome [of L v], of True "\<lambda>s. Inr (w_write ops s True out)"]
  by (simp add: write_value_def)

lemma write_props_outcome: "outcome (list_all (elem_ok L \<circ> snd) kvs) (write_props L ops kvs out)"
  by (induction kvs arbitrary: out) (simp_all add: outcome_bind write_value_outcome)

lemma write_list_outcome: "outcome (list_all (elem_ok L) vs) (write_list L ops vs out)"
  by (induction vs arbitrary: out) (simp_all add: outcome_bind write_value_outcome)

lemma write_map_outcome: "outcome (list_all (elem_ok L \<circ> snd) kvs) (write_map L ops kvs out)"
  by (induction kvs arbitrary: out) (simp_all add: outcome_bind write_value_outcome)

lemma steps_outcome:
  "list_all2 (\<lambda>b f. \<forall>out. outcome b (f out)) bs fs \<Longrightarrow> outcome (list_all id bs) (steps fs out)"
proof (induction bs fs arbitrary: out rule: list_all2_induct)
  case (Cons b bs f fs)
  then show ?case using outcome_bind [of b "f out" "list_all id bs" "steps fs"] by (simp add: then_step_def id_def)
qed simp

lemma lift_outcome: "outcome True (lift_step f out)"
  by (simp add: lift_step_def)

lemma scalar_elem_ok: "is_scalar v \<Longrightarrow> elem_ok L v"
  by (cases v) (simp_all add: is_scalar_def elem_ok_def)

lemma get_properties_outcome:
  "outcome (list_all (is_scalar \<circ> snd) (m_properties m))
     (res_bind (get_properties m) (\<lambda>props. write_props L ops props out))"
proof (cases "list_all (is_scalar \<circ> snd) (m_properties m)")
  case True
  then have "list_all (elem_ok L \<circ> snd) (m_properties m)" by (auto simp: list_all_iff scalar_elem_ok)
  with True write_props_outcome [of L "m_properties m" ops out] show ?thesis by (simp add: get_properties_def)
qed (simp add: get_properties_def)

lemma get_map_outcome:
  "outcome (string_keys L kvs \<and> list_all (elem_ok L \<circ> snd) (put_all (keyed L kvs) []))
     (res_bind (get_map L kvs) (\<lambda>m. write_map L ops m out))"
  using write_map_outcome [of L "put_all (keyed L kvs) []" ops out] by (simp add: get_map_eq)

lemma properties_outcome:
  "outcome (list_all (is_scalar \<circ> snd) (m_properties m)) (decode_properties L ops m out)"
proof -
  let ?s = "list_all (is_scalar \<circ> snd) (m_properties m)"
  have "outcome ?s (write_properties L ops m o')" for o'
    unfolding write_properties_def
    using steps_outcome [of "[True, ?s, True]" "[lift_step (w_startMap ops),
        (\<lambda>out. res_bind (get_properties m) (\<lambda>props. write_props L ops props out)), lift_step (w_endMap ops)]" o']
    by (simp del: steps.simps add: lift_outcome get_properties_outcome)
  then show ?thesis
    unfolding decode_properties_def
    using steps_outcome [of "[True, ?s, True]"
        "[lift_step (w_startProperties ops), write_properties L ops m, lift_step (w_endProperties ops)]" out]
    by (simp del: steps.simps add: lift_outcome)
qed

lemma header_outcome: "outcome True (decode_header L ops m out)"
  by (simp add: decode_header_def then_step_def lift_step_def)

lemma content_outcome: "outcome (body_ok L (m_body m)) (decode_content L ops m out)"
proof (cases "m_body m")
  case (VList vs)
  then show ?thesis
    using steps_outcome [of "[True, list_all (elem_ok L) vs, True]"
        "[lift_step (w_startList ops), write_list L ops vs, lift_step (w_endList ops)]" out]
    by (simp del: steps.simps add: lift_outcome write_list_outcome decode_content_def decode_value_to_def body_ok_def)
next
  case (VMap kvs)
  then show ?thesis
    using steps_outcome [of "[True, string_keys L kvs \<and> list_all (elem_ok L \<circ> snd) (put_all (keyed L kvs) []), True]"
        "[lift_step (w_startMap ops), (\<lambda>out. res_bind (get_map L kvs) (\<lambda>m. write_map L ops m out)), lift_step (w_endMap ops)]"
        out]
    by (simp del: steps.simps add: lift_outcome get_map_outcome decode_content_def decode_value_to_def body_ok_def)
qed (simp_all add: decode_content_def decode_value_def body_ok_def)

lemma print_outcome:
  "outcome (printable L m) (dict_print_message L ops m out)"
  "outcome (printable L m) (upstream_print_message L ops m out)"
proof -
  let ?p = "list_all (is_scalar \<circ> snd) (m_properties m)" and ?b = "body_ok L (m_body m)"
  show "outcome (printable L m) (dict_print_message L ops m out)"
    using steps_outcome [of "[True, True, ?p, True, ?b, True]"
      "[lift_step (w_startHeader ops), decode_header L ops m, decode_properties L ops m,
        lift_step (w_startContent ops), decode_content L ops m, lift_step (w_endContent ops)]" out]
    by (simp del: steps.simps add: dict_print_message_def printable_def lift_outcome header_outcome properties_outcome
        content_outcome)
  show "outcome (printable L m) (upstream_print_message L ops m out)"
    using steps_outcome [of "[True, ?p, True, ?b, True, True]"
      "[lift_step (w_start ops), decode_properties L ops m, lift_step (w_startContent ops),
        decode_content L ops m, lift_step (w_endContent ops), lift_step (w_end ops)]" out]
    by (simp del: steps.simps add: upstream_print_message_def printable_def lift_outcome properties_outcome content_outcome)
qed

text \<open>
  C32. In either format, printing a message fails exactly when one of its application properties is a container,
  a key of its map body cannot be read as a string, or a list inside its list or map body holds something that
  cannot; and then with the library's conversion error. (Of the entries of a map body with the same key the last
  one counts.)
\<close>

theorem print_message_fails_iff:
  "(if printable L m
    then (\<exists>t. dict_print_message L dict_ops m out = Inr (out @ t)) \<and>
      (\<exists>t. upstream_print_message L upstream_ops m out = Inr (out @ t))
    else dict_print_message L dict_ops m out = Inl Conversion_error \<and>
      upstream_print_message L upstream_ops m out = Inl Conversion_error)"
  using print_outcome(1) [of L m dict_ops "[]"] step_appendsD [OF dict.appends_dict_print, of L m out]
    print_outcome(2) [of L m upstream_ops "[]"] step_appendsD [OF upstream.appends_upstream_print, of L m out]
  by (auto simp: outcome_def)

end
