(* ===== verification/UtilsM.thy ===== *)
theory UtilsM
  imports Complex_Main Prelude
begin

text \<open>
  \<open>Utils.cpp\<close> (src/src/common): pacing (\<open>sleep4next\<close>), the environment, and the time stamps of the
  performance mode. A time is a rational number of seconds: the rounding of \<open>double\<close> is not modelled. The
  clock is the list of the readings the calls of \<open>get_time\<close> return, in order; what \<open>operator<<\<close> makes of a
  \<open>double\<close> is an argument.
\<close>

subsection \<open>Sleeping\<close>

text \<open>The argument of \<open>usleep\<close> (an unsigned number of 32 bits), or no call.\<close>

definition msleep :: "int \<Rightarrow> int option" where
  "msleep in_dur_ms = (if in_dur_ms > 0 then Some (uwrap32 (1000 * in_dur_ms)) else None)"

definition sleep_seconds :: "rat \<Rightarrow> int option" where
  "sleep_seconds in_dur_sec = (if in_dur_sec > 0 then msleep \<lfloor>in_dur_sec * 1000\<rfloor> else None)"

text \<open>
  \<open>sleep4next\<close>: the number of naps of 100 ms it takes, or \<open>None\<close> when it is still waiting at the end of the
  readings.
\<close>

fun nap_loop :: "rat \<Rightarrow> rat \<Rightarrow> rat list \<Rightarrow> nat option" where
  "nap_loop in_ts cummulative_dur [] = None"
| "nap_loop in_ts cummulative_dur (now # clock) =
     (if now - in_ts - cummulative_dur > - (1 / 50) then Some 0
      else map_option Suc (nap_loop in_ts cummulative_dur clock))"

definition sleep4next :: "rat list \<Rightarrow> rat \<Rightarrow> int \<Rightarrow> int \<Rightarrow> int \<Rightarrow> nat option" where
  "sleep4next clock in_ts in_count in_duration in_indx =
     (if in_duration > 0 \<and> in_count > 0
      then nap_loop in_ts (of_int in_indx * of_int in_duration / of_int in_count) clock
      else Some 0)"

lemma nap_loop_Some:
  "nap_loop ts c clock = Some n \<longleftrightarrow>
     n < length clock \<and> clock ! n > ts + c - 1 / 50 \<and> (\<forall>i < n. clock ! i \<le> ts + c - 1 / 50)"
proof (induction clock arbitrary: n)
  case (Cons now clock)
  have due: "now - ts - c > - (1 / 50) \<longleftrightarrow> now > ts + c - 1 / 50" by linarith
  show ?case
  proof (cases n)
    case 0
    then show ?thesis by (auto simp: due simp del: less_diff_eq diff_less_eq)
  next
    case (Suc m)
    have "(\<forall>i < Suc m. (now # clock) ! i \<le> x) \<longleftrightarrow> now \<le> x \<and> (\<forall>i < m. clock ! i \<le> x)" for x
      by (auto simp: less_Suc_eq_0_disj)
    with Suc Cons.IH [of m] show ?thesis by (simp only: nap_loop.simps due) (auto simp: not_less)
  qed
qed simp

text \<open>A clock that moves on by at least the 100 ms of a nap between two readings.\<close>

definition napping_clock :: "rat list \<Rightarrow> bool" where
  "napping_clock clock = (\<forall>i. Suc i < length clock \<longrightarrow> clock ! i + 1 / 10 \<le> clock ! Suc i)"

lemma napping_clock_nth:
  assumes "napping_clock clock" and "i < length clock"
  shows "clock ! 0 + of_nat i / 10 \<le> clock ! i"
  using assms(2)
proof (induction i)
  case (Suc i)
  then have "clock ! i + 1 / 10 \<le> clock ! Suc i" using assms(1) by (simp add: napping_clock_def)
  with Suc show ?case by (simp add: field_simps)
qed simp

text \<open>
  C40. \<open>sleep4next\<close> returns: as soon as the clock has had the time to reach the \<open>indx\<close>-th of \<open>count\<close> equal
  parts of the duration, the loop ends, at a reading no more than 20 ms before that instant, and the reading
  before the last nap was earlier than that.
\<close>

theorem sleep4next_returns:
  assumes "0 < duration" and "0 < count" and "napping_clock clock" and "clock \<noteq> []"
    and "ts + of_int indx * of_int duration / of_int count - clock ! 0 < of_nat (length clock - 1) / 10"
  shows "\<exists>n. sleep4next clock ts count duration indx = Some n \<and>
    (let due = ts + of_int indx * of_int duration / of_int count - 1 / 50
     in due < clock ! n \<and> (if n = 0 then True else clock ! (n - 1) \<le> due))"
proof -
  let ?c = "of_int indx * of_int duration / of_int count :: rat"
  let ?P = "\<lambda>i. i < length clock \<and> ts + ?c - 1 / 50 < clock ! i"
  have "clock ! 0 + of_nat (length clock - 1) / 10 \<le> clock ! (length clock - 1)"
    using napping_clock_nth [OF assms(3), of "length clock - 1"] assms(4) by simp
  with assms(4,5) have ex: "?P (length clock - 1)" by (cases clock) auto
  define n where "n = (LEAST i. ?P i)"
  have n: "?P n" unfolding n_def by (rule LeastI [of ?P, OF ex])
  have less: "clock ! i \<le> ts + ?c - 1 / 50" if "i < n" for i
  proof -
    have "\<not> ?P i" using that unfolding n_def by (rule not_less_Least)
    with that n show ?thesis by auto
  qed
  have "sleep4next clock ts count duration indx = Some n"
    using assms(1,2) n less by (simp add: sleep4next_def nap_loop_Some)
  with n less show ?thesis by (auto simp: Let_def)
qed

lemma sleep4next_returns_witness:
  "\<exists>n. sleep4next [100, 1001 / 10, 1003 / 10, 1004 / 10] (997 / 10) 4 2 1 = Some n \<and> n \<le> 3 \<and>
    10018 / 100 < [100, 1001 / 10, 1003 / 10, 1004 / 10 :: rat] ! n"
proof -
  let ?clock = "[100, 1001 / 10, 1003 / 10, 1004 / 10 :: rat]"
  have nap: "napping_clock ?clock"
  proof -
    have "?clock ! i + 1 / 10 \<le> ?clock ! Suc i" if "Suc i < length ?clock" for i
    proof -
      from that have "i = 0 \<or> i = 1 \<or> i = 2" by auto
      then show ?thesis by (elim disjE) simp_all
    qed
    then show ?thesis by (auto simp: napping_clock_def)
  qed
  have r: "0 < (2 :: int)" "0 < (4 :: int)" "?clock \<noteq> []" by simp_all
  have d: "(997 / 10 :: rat) + of_int 1 * of_int 2 / of_int 4 - ?clock ! 0 < of_nat (length ?clock - 1) / 10"
    "(997 / 10 :: rat) + of_int 1 * of_int 2 / of_int 4 - 1 / 50 = 10018 / 100" by simp_all
  obtain n where n: "sleep4next ?clock (997 / 10) 4 2 1 = Some n" "10018 / 100 < ?clock ! n"
    using sleep4next_returns [OF r(1,2) nap r(3) d(1)] unfolding d(2) Let_def by blast
  from n(1) have "n < 4" by (simp add: sleep4next_def nap_loop_Some del: nap_loop.simps)
  then show ?thesis using n by (intro exI [of _ n]) simp
qed

subsection \<open>Environment\<close>

definition get_env :: "(string \<Rightarrow> string option) \<Rightarrow> string \<Rightarrow> string" where
  "get_env env in_var = (case env in_var of Some s \<Rightarrow> s | None \<Rightarrow> '''')"

subsection \<open>Time stamps\<close>

text \<open>
  The array of stamps is a list, \<open>None\<close> the null pointer; a write outside the array is \<open>Bad_access\<close>.
  Elements 0 to 6 are the steps A to G, 7 to 9 the least, greatest and accumulated latency.
\<close>

definition ts_init :: "rat list \<Rightarrow> string \<Rightarrow> rat list option" where
  "ts_init in_tsdata in_optmode = (if find_opt in_optmode ''perf'' 0 \<noteq> None then Some in_tsdata else None)"

definition ts_put :: "rat list \<Rightarrow> int \<Rightarrow> rat \<Rightarrow> rat list result" where
  "ts_put d i x = (if 0 \<le> i \<and> i < int (length d) then Inr (d[nat i := x]) else Inl Bad_access)"

definition ts_snap_store :: "rat list \<Rightarrow> char \<Rightarrow> string \<Rightarrow> rat \<Rightarrow> rat \<Rightarrow> rat list result" where
  "ts_snap_store d in_step in_optmode in_msg_ts now =
     (if in_step = CHR ''L'' \<and> in_msg_ts \<noteq> - 1 then
        (if length d < 10 then Inl Bad_access
         else let int_lat = now - in_msg_ts;
                  d1 = (if int_lat < d ! 7 then d[7 := int_lat] else d);
                  d2 = (if int_lat > d1 ! 8 then d1[8 := int_lat] else d1)
              in Inr (d2[9 := d2 ! 9 + int_lat]))
      else if find_opt in_optmode [in_step] 0 \<noteq> None
        then ts_put d ((if code_of in_step < 128 then code_of in_step else code_of in_step - 256) - 65) now
      else Inr d)"

text \<open>
  \<open>ts_report\<close>: the flag \<open>std::fixed\<close> stays on from the first stamp that is printed; \<open>show_double fixed x\<close> is
  the text of a double.
\<close>

fun ts_steps :: "(bool \<Rightarrow> rat \<Rightarrow> string) \<Rightarrow> bool \<Rightarrow> int \<Rightarrow> rat list \<Rightarrow> string \<times> bool" where
  "ts_steps show_double fx i [] = ('''', fx)"
| "ts_steps show_double fx i (x # xs) =
     (let fx1 = fx \<or> x > 0; (t, fx2) = ts_steps show_double fx1 (i + 1) xs
      in ('', '' @ [CHR 0x27] @ ''ts-'' @ [char_of (i + 65)] @ [CHR 0x27] @ '' : '' @
          (if x \<le> 0 then '''' else show_double True x) @ t, fx2))"

definition ts_report :: "(bool \<Rightarrow> rat \<Rightarrow> string) \<Rightarrow> rat list option \<Rightarrow> int \<Rightarrow> int \<Rightarrow> int \<Rightarrow> string" where
  "ts_report show_double in_tsdata in_msgcnt in_msgsize in_ecode =
     (case in_tsdata of
        None \<Rightarrow> ''{ }''
      | Some d \<Rightarrow>
          (let q = [CHR 0x27]; (t, fx) = ts_steps show_double False 0 (take 7 d); num = show_double fx
           in ''{ '' @ q @ ''msg-cnt'' @ q @ '' : '' @ show_int in_msgcnt @ '', '' @ q @ ''msg-size'' @ q @ '' : '' @
              show_int in_msgsize @ '', '' @ q @ ''ecode'' @ q @ '' : '' @ show_int in_ecode @ t @
              '', '' @ q @ ''lat-min'' @ q @ '' : '' @ num (d ! 7) @ '', '' @ q @ ''lat-max'' @ q @ '' : '' @ num (d ! 8) @
              '', '' @ q @ ''lat-acc'' @ q @ '' : '' @ num (d ! 9) @
              (if in_msgcnt \<noteq> 0 then '', '' @ q @ ''lat-avg'' @ q @ '' : '' @ num (d ! 9 / of_int in_msgcnt) else '''') @ '' }''))"

text \<open>Latencies stored one after another: pairs of a message's stamp and the time it is stored.\<close>

fun ts_latencies :: "string \<Rightarrow> (rat \<times> rat) list \<Rightarrow> rat list \<Rightarrow> rat list result" where
  "ts_latencies mode [] d = Inr d"
| "ts_latencies mode ((sent, now) # r) d = res_bind (ts_snap_store d (CHR ''L'') mode sent now) (ts_latencies mode r)"

text \<open>
  The least and the greatest latency bound every latency stored, the accumulated one grows by their sum, and
  the stamps of the steps are left alone.
\<close>

lemma ts_latencies_bounds:
  assumes "length d = 10" and "\<forall>p \<in> set ps. fst p \<noteq> - 1"
  shows "\<exists>d'. ts_latencies mode ps d = Inr d' \<and> length d' = 10 \<and> d' ! 9 = d ! 9 + (\<Sum>(s, t) \<leftarrow> ps. t - s) \<and>
    d' ! 7 \<le> d ! 7 \<and> d ! 8 \<le> d' ! 8 \<and> (\<forall>(s, t) \<in> set ps. d' ! 7 \<le> t - s \<and> t - s \<le> d' ! 8) \<and> take 7 d' = take 7 d"
  using assms
proof (induction ps arbitrary: d)
  case (Cons p ps)
  obtain s t where p: "p = (s, t)" by (cases p)
  define d1 where "d1 = (let d1 = (if t - s < d ! 7 then d[7 := t - s] else d);
      d2 = (if t - s > d1 ! 8 then d1[8 := t - s] else d1) in d2[9 := d2 ! 9 + (t - s)])"
  have step: "ts_snap_store d (CHR ''L'') mode s t = Inr d1"
    using Cons.prems p by (simp add: ts_snap_store_def d1_def Let_def)
  have d1: "length d1 = 10" "d1 ! 9 = d ! 9 + (t - s)" "d1 ! 7 \<le> d ! 7" "d1 ! 7 \<le> t - s" "d ! 8 \<le> d1 ! 8" "t - s \<le> d1 ! 8"
    "take 7 d1 = take 7 d"
    using Cons.prems(1) by (auto simp: d1_def Let_def)
  from Cons.IH [OF d1(1)] Cons.prems(2) obtain d' where d':
    "ts_latencies mode ps d1 = Inr d'" "length d' = 10" "d' ! 9 = d1 ! 9 + (\<Sum>(s, t) \<leftarrow> ps. t - s)"
    "d' ! 7 \<le> d1 ! 7" "d1 ! 8 \<le> d' ! 8" "\<forall>(s, t) \<in> set ps. d' ! 7 \<le> t - s \<and> t - s \<le> d' ! 8" "take 7 d' = take 7 d1"
    by auto
  show ?case
    using d1 d' by (intro exI [of _ d']) (auto simp: p step)
qed simp

end
