(* ===== verification/CommonH.thy ===== *)
theory CommonH
  imports Uri TimerM LoggerM Decoder UtilsM
begin

text \<open>
  \<open>CommonHandler\<close> (src/src/api/qpid-proton/reactor/handler): the state every event handler inherits, the
  connection options and SSL settings it builds, and the machinery of the three handler theories. A handler
  is a record that extends \<open>common_handler\<close> as its class extends \<open>CommonHandler\<close>; a method is a function
  on that record. What a method asks of the client library, of the streams and of the logger is appended to
  \<open>h_effects\<close>, in order; \<open>h_pending\<close> holds the callbacks that were scheduled and have not run;
  \<open>exit\<close> and an exception that leaves a callback set \<open>h_halt\<close>, after which nothing more is executed.
\<close>

subsection \<open>What a handler does to the outside\<close>

text \<open>\<open>proton::duration\<close>, by the expression that builds it: its arithmetic belongs to the library.\<close>

datatype duration =
    Immediate
  | Second
  | Millis int
  | Scaled int duration
  | Divided duration int

datatype work = Timer_event | Check_if_can_send | Run_drain

datatype verify_mode = ANONYMOUS_PEER | VERIFY_PEER | VERIFY_PEER_NAME

text \<open>The option objects of the library: \<open>None\<close> is an option that was not set.\<close>

record reconnect_options =
  ro_delay :: "duration option"
  ro_delay_multiplier :: "int option"
  ro_max_attempts :: "int option"
  ro_max_delay :: "duration option"

record conn_opts =
  co_user :: "string option"
  co_password :: "string option"
  co_sasl_enabled :: "bool option"
  co_insecure_mechs :: "bool option"
  co_allowed_mechs :: "string option"
  co_max_frame_size :: "int option"
  co_failover_urls :: "string list option"
  co_reconnect :: "reconnect_options option"
  co_idle_timeout :: "duration option"

record recv_opts =
  ra_capabilities :: "string list"
  ra_filter :: "string option"
  ra_copy :: bool
  ra_durable :: bool
  ra_name :: "string option"
  ra_credit_window :: "int option"

definition reconnect_default :: reconnect_options where
  "reconnect_default = \<lparr>ro_delay = None, ro_delay_multiplier = None, ro_max_attempts = None, ro_max_delay = None\<rparr>"

definition conn_opts_new :: conn_opts where
  "conn_opts_new = \<lparr>co_user = None, co_password = None, co_sasl_enabled = None, co_insecure_mechs = None,
     co_allowed_mechs = None, co_max_frame_size = None, co_failover_urls = None, co_reconnect = None,
     co_idle_timeout = None\<rparr>"

datatype effect =
    Log log_level "log_value list"
  | Log_millis log_level string duration string
  | Print string
  | Eprint string
  | Eprint_what string cpp_exn
  | Client_ssl verify_mode
  | Server_ssl string string string string verify_mode
  | Connect_configured
  | Connect string conn_opts
  | Listen string conn_opts
  | Open_sender string "string list option"
  | Open_receiver string "recv_opts option"
  | Open_session
  | Schedule duration work
  | Add_work work
  | Send string message
  | Accept
  | Reject
  | Release
  | Close_receiver
  | Detach_receiver
  | Close_sender
  | Close_session
  | Close_connection
  | Drain
  | Sleep_for_next rat int int int

datatype halt =
    Exited int
  | Crashed cpp_exn

subsection \<open>State\<close>

text \<open>The parameters all clients read from the command line (the arguments of the constructor).\<close>

record conn_settings =
  c_conn_urls :: "string list"
  c_is_topic :: bool
  c_user :: string
  c_password :: string
  c_sasl_mechanisms :: string
  c_conn_sasl_enabled :: string
  c_ssl_certificate :: string
  c_ssl_private_key :: string
  c_ssl_password :: string
  c_ssl_trust_store :: string
  c_ssl_verify_peer :: bool
  c_ssl_verify_peer_name :: bool
  c_reconnect :: string
  c_reconnect_interval :: int
  c_reconnect_limit :: int
  c_reconnect_timeout :: int
  c_reconnect_first :: int
  c_reconnect_increment :: int
  c_reconnect_doubling :: bool
  c_reconnect_custom :: bool
  c_heartbeat :: int
  c_max_frame_size :: int
  c_use_config_file :: bool
  c_log_msgs :: string

record common_handler = conn_settings +
  h_broker_url :: uri_parser
  h_work_q :: bool
  h_cont :: bool
  h_timer :: timer
  h_timeout :: int
  h_effects :: "effect list"
  h_pending :: "work list"
  h_halt :: "halt option"

text \<open>
  \<open>h_work_q\<close> and \<open>h_cont\<close> tell whether the two pointers have been set. The constructor parses the
  address, which can throw.
\<close>

definition common_handler_new :: "string \<Rightarrow> int \<Rightarrow> conn_settings \<Rightarrow> common_handler result" where
  "common_handler_new url_str timeout c =
     res_bind (uri_of url_str) (\<lambda>u. Inr (conn_settings.extend c
       (common_handler.fields u False False (timer_new timeout ''timeout'') timeout
         [Log Log_debug [LStr ''Creating a handler for '', LStr url_str]] [] None)))"

subsection \<open>Statements\<close>

definition act :: "effect list \<Rightarrow> 'a common_handler_scheme \<Rightarrow> 'a common_handler_scheme" where
  "act es h = h\<lparr>h_effects := h_effects h @ es\<rparr>"

definition schedule :: "duration \<Rightarrow> work \<Rightarrow> 'a common_handler_scheme \<Rightarrow> 'a common_handler_scheme" where
  "schedule d w h = h\<lparr>h_effects := h_effects h @ [Schedule d w], h_pending := h_pending h @ [w]\<rparr>"

definition add_work :: "work \<Rightarrow> 'a common_handler_scheme \<Rightarrow> 'a common_handler_scheme" where
  "add_work w h = h\<lparr>h_effects := h_effects h @ [Add_work w], h_pending := h_pending h @ [w]\<rparr>"

definition exit_with :: "int \<Rightarrow> 'a common_handler_scheme \<Rightarrow> 'a common_handler_scheme" where
  "exit_with n h = h\<lparr>h_halt := Some (Exited n)\<rparr>"

definition crash :: "cpp_exn \<Rightarrow> 'a common_handler_scheme \<Rightarrow> 'a common_handler_scheme" where
  "crash e h = h\<lparr>h_halt := Some (Crashed e)\<rparr>"

definition guard :: "bool \<Rightarrow> ('s \<Rightarrow> 's) \<Rightarrow> 's \<Rightarrow> 's" where
  "guard b f h = (if b then f h else h)"

text \<open>A block: its statements in order, until one stops the program.\<close>

fun block :: "('a common_handler_scheme \<Rightarrow> 'a common_handler_scheme) list \<Rightarrow> 'a common_handler_scheme \<Rightarrow> 'a common_handler_scheme" where
  "block [] h = h"
| "block (f # fs) h = (if h_halt h = None then block fs (f h) else h)"

definition dbg :: "log_value list \<Rightarrow> effect" where
  "dbg vs = Log Log_debug vs"

definition LBool :: "bool \<Rightarrow> log_value" where
  "LBool b = LInt (if b then 1 else 0)"

text \<open>The library takes a scheduled callback out of the queue and runs it.\<close>

definition take_work :: "work \<Rightarrow> 'a common_handler_scheme \<Rightarrow> 'a common_handler_scheme" where
  "take_work w h = h\<lparr>h_pending := remove1 w (h_pending h)\<rparr>"

definition tick_timer :: "'a common_handler_scheme \<Rightarrow> 'a common_handler_scheme" where
  "tick_timer h = (case timer_postdec (h_timer h) of
     Inl e \<Rightarrow> crash e h | Inr (_, t) \<Rightarrow> h\<lparr>h_timer := t\<rparr>)"

definition reset_timer :: "'a common_handler_scheme \<Rightarrow> 'a common_handler_scheme" where
  "reset_timer h = h\<lparr>h_timer := timer_reset (h_timer h)\<rparr>"

lemmas statement_defs = act_def schedule_def add_work_def exit_with_def crash_def guard_def take_work_def
  reset_timer_def dbg_def

subsection \<open>Connection options\<close>

text \<open>
  \<open>configure_reconnect\<close> fills the local variable \<open>ro\<close>, and hands it to the connection options in one
  of the two branches only.
\<close>

definition custom_reconnect :: "'a common_handler_scheme \<Rightarrow> reconnect_options" where
  "custom_reconnect h =
     (let ro1 = reconnect_default\<lparr>ro_delay := Some (Millis (c_reconnect_interval h))\<rparr>;
          ro2 = (if c_reconnect_doubling h then ro1\<lparr>ro_delay_multiplier := Some 2\<rparr> else ro1)
      in ro2\<lparr>ro_max_attempts := Some (c_reconnect_limit h), ro_max_delay := Some (Millis (c_reconnect_timeout h))\<rparr>)"

definition configure_reconnect :: "'a common_handler_scheme \<Rightarrow> conn_opts \<Rightarrow> effect list \<times> conn_opts" where
  "configure_reconnect h co =
     (let ro = reconnect_default
      in if c_reconnect h = ''true'' \<and> \<not> c_reconnect_custom h then ([], co\<lparr>co_reconnect := Some ro\<rparr>)
         else if c_reconnect h = ''true'' \<and> c_reconnect_custom h then
           (let ro = custom_reconnect h
            in ([dbg [LStr ''Reconnect first: '', LUint (c_reconnect_first h)],
                 dbg [LStr ''Reconnect interval (max): '', LInt (c_reconnect_interval h)],
                 dbg [LStr ''Reconnect increment: '', LUint (c_reconnect_increment h)],
                 dbg [LStr ''Reconnect doubling: '', LBool (c_reconnect_doubling h)],
                 dbg [LStr ''Reconnect limit (max_retries): '', LInt (c_reconnect_limit h)],
                 dbg [LStr ''Reconnect timeout: '', LInt (c_reconnect_timeout h)]], co))
         else ([], co))"

definition ssl_mode :: "'a common_handler_scheme \<Rightarrow> verify_mode" where
  "ssl_mode h = (if c_ssl_verify_peer_name h then VERIFY_PEER_NAME
     else if c_ssl_verify_peer h then VERIFY_PEER else ANONYMOUS_PEER)"

definition configure_ssl :: "'a common_handler_scheme \<Rightarrow> effect list" where
  "configure_ssl h =
     [dbg [LStr ''Configuring SSL...'']] @
     (if c_ssl_trust_store h \<noteq> '''' \<or> c_ssl_verify_peer_name h \<or> c_ssl_verify_peer h
      then [Client_ssl (ssl_mode h)] else []) @
     (if c_ssl_certificate h \<noteq> '''' then
        (if c_ssl_private_key h = ''''
         then [Log Log_error [LStr ''Client private key must be given: '', LStr sq, LStr (c_ssl_private_key h), LStr sq]]
         else []) @
        [Server_ssl (c_ssl_certificate h) (c_ssl_private_key h) (c_ssl_password h) (c_ssl_trust_store h) (ssl_mode h)]
      else [])"

text \<open>The statements the three \<open>on_container_start\<close> share.\<close>

definition basic_conn_opts :: "'a common_handler_scheme \<Rightarrow> conn_opts" where
  "basic_conn_opts h =
     conn_opts_new\<lparr>co_user := (if c_user h \<noteq> '''' then Some (c_user h) else None),
       co_password := (if c_password h \<noteq> '''' then Some (c_password h) else None),
       co_sasl_enabled := Some (c_conn_sasl_enabled h \<noteq> ''false''),
       co_insecure_mechs := Some True, co_allowed_mechs := Some (c_sasl_mechanisms h),
       co_failover_urls := Some (c_conn_urls h)\<rparr>"

definition heartbeat_opts :: "'a common_handler_scheme \<Rightarrow> conn_opts \<Rightarrow> effect list \<times> conn_opts" where
  "heartbeat_opts h co =
     (if c_heartbeat h \<noteq> 0
      then ([dbg [LStr ''Heartbeat: '', LUint (c_heartbeat h)]], co\<lparr>co_idle_timeout := Some (Scaled (c_heartbeat h) Second)\<rparr>)
      else ([], co))"

text \<open>Reconnection, SSL and heartbeat, in this order: the effects and the finished options.\<close>

definition finish_conn_opts :: "'a common_handler_scheme \<Rightarrow> conn_opts \<Rightarrow> effect list \<times> conn_opts" where
  "finish_conn_opts h co =
     (let (e1, co1) = configure_reconnect h co; (e2, co2) = heartbeat_opts h co1
      in ([dbg [LStr ''Setting a reconnect timer: '', LStr (c_reconnect h)],
           dbg [LStr ''Custom reconnect: '', LBool (c_reconnect_custom h)]] @ e1 @ configure_ssl h @ e2, co2))"

definition show_settings :: "'a common_handler_scheme \<Rightarrow> effect list" where
  "show_settings h =
     [dbg [LStr ''User: '', LStr (c_user h)], dbg [LStr ''Password: '', LStr (c_password h)],
      dbg [LStr ''SASL mechanisms: '', LStr (c_sasl_mechanisms h)], dbg [LStr ''SASL enabled: '', LStr (c_conn_sasl_enabled h)],
      dbg [LStr ''Maximum frame size: '', LUint (c_max_frame_size h)]]"

definition show_caps :: "string list \<Rightarrow> effect list" where
  "show_caps caps = dbg [LStr ''Source capabilities: ''] # map (\<lambda>c. dbg [LStr c]) caps"

definition open_connection :: "'a common_handler_scheme \<Rightarrow> conn_opts \<Rightarrow> effect" where
  "open_connection h co = (if c_use_config_file h then Connect_configured else Connect (u_uri (h_broker_url h)) co)"

subsection \<open>Errors of the peer\<close>

definition peer_name :: "'a common_handler_scheme \<Rightarrow> log_value list" where
  "peer_name h = [LStr (u_host (h_broker_url h)), LStr '':'', LStr (u_port (h_broker_url h))]"

definition connection_error :: "string \<Rightarrow> 'a common_handler_scheme \<Rightarrow> 'a common_handler_scheme" where
  "connection_error what h =
     block [act [Log Log_error (LStr ''Failed to connect to '' # peer_name h)],
       guard (find_opt what ''Unable to validate user'' 0 \<noteq> None) (exit_with 1)] h"

definition interrupted :: "string \<Rightarrow> 'a common_handler_scheme \<Rightarrow> effect" where
  "interrupted what h = Log Log_error (LStr ''The connection with '' # peer_name h @ [LStr '' was interrupted: '', LStr what])"

definition transport_error :: "string \<Rightarrow> 'a common_handler_scheme \<Rightarrow> 'a common_handler_scheme" where
  "transport_error what h =
     block [act [interrupted what h], guard (find_opt what ''unauthorized'' 0 \<noteq> None) (exit_with 1)] h"

text \<open>Printing a message in the format asked for; the second can only report its error.\<close>

definition print_dict :: "proton_lib \<Rightarrow> message \<Rightarrow> 'a common_handler_scheme \<Rightarrow> 'a common_handler_scheme" where
  "print_dict L m h =
     (case dict_print_message L dict_ops m '''' of
        Inl e \<Rightarrow> crash e h
      | Inr t \<Rightarrow> act [Print (w_endLine dict_ops t)] h)"

definition print_interop_view :: "proton_lib \<Rightarrow> message \<Rightarrow> 'a common_handler_scheme \<Rightarrow> 'a common_handler_scheme" where
  "print_interop_view L m h =
     (case print_interop L m of
        (t, None) \<Rightarrow> act [Print t] h
      | (t, Some e) \<Rightarrow> act [Eprint_what ''Error while getting message properties: '' e, Print t] h)"

definition print_in_format :: "proton_lib \<Rightarrow> message \<Rightarrow> 'a common_handler_scheme \<Rightarrow> 'a common_handler_scheme" where
  "print_in_format L m h =
     (if c_log_msgs h = ''dict'' then print_dict L m h
      else if c_log_msgs h = ''interop'' then print_interop_view L m h else h)"

text \<open>It writes to the two output streams only, or ends in an exception.\<close>

fun is_text :: "effect \<Rightarrow> bool" where
  "is_text (Log _ _) = True"
| "is_text (Log_millis _ _ _ _) = True"
| "is_text (Print _) = True"
| "is_text (Eprint _) = True"
| "is_text (Eprint_what _ _) = True"
| "is_text _ = False"

lemma is_text_dbg [simp]: "is_text (dbg vs)"
  by (simp add: dbg_def)

lemma print_in_format_other:
  assumes "c_log_msgs h \<noteq> ''dict''"
  obtains es where "list_all is_text es" "print_in_format L m h = act es h"
proof -
  obtain t r where r: "print_interop L m = (t, r)" by (cases "print_interop L m")
  let ?es = "if c_log_msgs h = ''interop'' then
      (case r of None \<Rightarrow> [Print t] | Some e \<Rightarrow> [Eprint_what ''Error while getting message properties: '' e, Print t]) else []"
  have "list_all is_text ?es" by (simp split: option.split)
  moreover have "print_in_format L m h = act ?es h"
    using assms r by (simp add: print_in_format_def print_interop_view_def act_def split: option.split)
  ultimately show thesis by (rule that)
qed

lemma print_in_format_cases:
  obtains (printed) es where "list_all is_text es" "print_in_format L m h = act es h"
    | (failed) e where "print_in_format L m h = crash e h"
proof (cases "c_log_msgs h = ''dict''")
  case True
  then show thesis
    by (cases "dict_print_message L dict_ops m ''''")
      (use printed [of "[Print _]"] failed in \<open>auto simp: print_in_format_def print_dict_def\<close>)
next
  case False
  then show thesis by (rule print_in_format_other) (rule printed)
qed

lemma print_in_format_ok:
  assumes "c_log_msgs h \<noteq> ''dict'' \<or> printable L m"
  obtains es where "list_all is_text es" "print_in_format L m h = act es h"
proof (cases "c_log_msgs h = ''dict''")
  case True
  with assms print_outcome(1) [of L m dict_ops "[]"] obtain t where "dict_print_message L dict_ops m '''' = Inr t"
    by (auto simp: outcome_def)
  with True have "print_in_format L m h = act [Print (w_endLine dict_ops t)] h" by (simp add: print_in_format_def print_dict_def)
  then show thesis by (rule that [rotated]) simp
next
  case False
  then show thesis by (rule print_in_format_other) (rule that)
qed

subsection \<open>Runs\<close>

text \<open>
  The library calls a handler's methods one after another: a run is a sequence of events, each allowed in
  the state it meets. \<open>reaches\<close> is that relation, \<open>run_events\<close> its executable form.
\<close>

inductive reaches :: "('e \<Rightarrow> 's \<Rightarrow> 's) \<Rightarrow> ('e \<Rightarrow> 's \<Rightarrow> bool) \<Rightarrow> 's \<Rightarrow> 's \<Rightarrow> bool"
  for step :: "'e \<Rightarrow> 's \<Rightarrow> 's" and ok :: "'e \<Rightarrow> 's \<Rightarrow> bool" and s0 :: 's where
  reaches_start: "reaches step ok s0 s0"
| reaches_event: "reaches step ok s0 s \<Longrightarrow> ok e s \<Longrightarrow> reaches step ok s0 (step e s)"

inductive_cases reachesE: "reaches step ok s0 s"

fun run_events :: "('e \<Rightarrow> 's \<Rightarrow> 's) \<Rightarrow> ('e \<Rightarrow> 's \<Rightarrow> bool) \<Rightarrow> 'e list \<Rightarrow> 's \<Rightarrow> 's option" where
  "run_events step ok [] s = Some s"
| "run_events step ok (e # es) s = (if ok e s then run_events step ok es (step e s) else None)"

lemma reaches_trans: "reaches step ok s1 s2 \<Longrightarrow> reaches step ok s0 s1 \<Longrightarrow> reaches step ok s0 s2"
  by (induction rule: reaches.induct) (auto intro: reaches.intros)

lemma run_events_reaches: "run_events step ok es s = Some s' \<Longrightarrow> reaches step ok s s'"
proof (induction es arbitrary: s)
  case (Cons e es)
  then have r: "reaches step ok (step e s) s'" and "ok e s" by (auto split: if_splits)
  from this(2) have "reaches step ok s (step e s)" by (intro reaches.intros)
  with r show ?case by (rule reaches_trans)
qed (simp add: reaches_start)

lemma run_events_append:
  "run_events step ok (es @ fs) s = Option.bind (run_events step ok es s) (run_events step ok fs)"
  by (induction es arbitrary: s) auto

text \<open>
  The contract of a handler: an invariant that every allowed event preserves, and a record of effects
  that only grows. What follows from it holds in every state of every run.
\<close>

locale event_handler =
  fixes step :: "'e \<Rightarrow> 's \<Rightarrow> 's"
    and ok :: "'e \<Rightarrow> 's \<Rightarrow> bool"
    and inv :: "'s \<Rightarrow> bool"
    and effects :: "'s \<Rightarrow> effect list"
  assumes inv_step: "inv s \<Longrightarrow> ok e s \<Longrightarrow> inv (step e s)"
    and effects_step: "inv s \<Longrightarrow> ok e s \<Longrightarrow> prefix (effects s) (effects (step e s))"
begin

lemma reaches_inv: "reaches step ok s0 s \<Longrightarrow> inv s0 \<Longrightarrow> inv s"
  by (induction rule: reaches.induct) (auto intro: inv_step)

lemma reaches_effects: "reaches step ok s0 s \<Longrightarrow> inv s0 \<Longrightarrow> prefix (effects s0) (effects s)"
  by (induction rule: reaches.induct) (auto intro: effects_step reaches_inv prefix_order.trans)

lemma effect_stays: "reaches step ok s0 s \<Longrightarrow> inv s0 \<Longrightarrow> e \<in> set (effects s0) \<Longrightarrow> e \<in> set (effects s)"
  by (auto dest!: reaches_effects simp: prefix_def)

lemma run_inv: "run_events step ok es s0 = Some s \<Longrightarrow> inv s0 \<Longrightarrow> inv s"
  by (auto dest: run_events_reaches reaches_inv)

end

subsection \<open>Facts about statements\<close>

lemma block_effects:
  assumes "\<And>f h. f \<in> set fs \<Longrightarrow> prefix (h_effects h) (h_effects (f h))"
  shows "prefix (h_effects h) (h_effects (block fs h))"
  using assms
proof (induction fs arbitrary: h)
  case (Cons f fs)
  have "prefix (h_effects (f h)) (h_effects (block fs (f h)))" using Cons by simp
  with Cons.prems [of f h] show ?case by (auto intro: prefix_order.trans)
qed simp

lemma statement_effects [simp]:
  "h_effects (act es h) = h_effects h @ es"
  "h_effects (schedule d w h) = h_effects h @ [Schedule d w]"
  "h_effects (add_work w h) = h_effects h @ [Add_work w]"
  "h_effects (exit_with n h) = h_effects h"
  "h_effects (crash e h) = h_effects h"
  "h_effects (take_work w h) = h_effects h"
  "h_effects (reset_timer h) = h_effects h"
  "h_effects (tick_timer h) = h_effects h"
  by (simp_all add: statement_defs tick_timer_def split: sum.splits prod.splits)

lemma statement_halt [simp]:
  "h_halt (act es h) = h_halt h"
  "h_halt (schedule d w h) = h_halt h"
  "h_halt (add_work w h) = h_halt h"
  "h_halt (exit_with n h) = Some (Exited n)"
  "h_halt (crash e h) = Some (Crashed e)"
  "h_halt (take_work w h) = h_halt h"
  "h_halt (reset_timer h) = h_halt h"
  by (simp_all add: statement_defs)

lemma statement_pending [simp]:
  "h_pending (act es h) = h_pending h"
  "h_pending (schedule d w h) = h_pending h @ [w]"
  "h_pending (add_work w h) = h_pending h @ [w]"
  "h_pending (exit_with n h) = h_pending h"
  "h_pending (crash e h) = h_pending h"
  "h_pending (take_work w h) = remove1 w (h_pending h)"
  "h_pending (reset_timer h) = h_pending h"
  "h_pending (tick_timer h) = h_pending h"
  by (simp_all add: statement_defs tick_timer_def split: sum.splits prod.splits)

lemma statement_timer [simp]:
  "h_timer (act es h) = h_timer h"
  "h_timer (schedule d w h) = h_timer h"
  "h_timer (take_work w h) = h_timer h"
  by (simp_all add: statement_defs)

lemma guard_simps [simp]: "guard True f h = f h" "guard False f h = h"
  by (simp_all add: guard_def)

lemma tick_timer_ok:
  assumes "timer_ok (h_timer h)" and "\<not> is_expired (h_timer h)"
  shows "h_halt (tick_timer h) = h_halt h \<and> timer_ok (h_timer (tick_timer h))"
  using timer_dec_step [OF assms] assms(1)
  by (auto simp: tick_timer_def timer_postdec_def Let_def)

text \<open>
  C21. None of the reconnection parameters has an effect on the connection: with \<open>--conn-reconnect true\<close>
  and any \<open>--conn-reconnect-*\<close> option given, the connection options are built as if reconnection had not
  been configured at all, whatever the values are.
\<close>

theorem reconnect_parameters_ignored:
  "snd (finish_conn_opts (h\<lparr>c_reconnect_interval := a, c_reconnect_limit := b, c_reconnect_timeout := c,
       c_reconnect_first := d, c_reconnect_increment := e, c_reconnect_doubling := f\<rparr>) co) =
     snd (finish_conn_opts h co) \<and>
   co_reconnect (snd (finish_conn_opts h co)) =
     (if c_reconnect h = ''true'' \<and> \<not> c_reconnect_custom h then Some reconnect_default else co_reconnect co)"
  by (simp add: finish_conn_opts_def configure_reconnect_def heartbeat_opts_def Let_def)

text \<open>
  C22. A trust store that is given is not used to verify the server: without a client certificate the SSL
  configuration is the same for every non-empty \<open>--conn-ssl-trust-store\<close>; only its presence turns the
  client's SSL options on.
\<close>

theorem trust_store_not_applied:
  assumes "c_ssl_certificate h = ''''" and "store \<noteq> ''''" and "store' \<noteq> ''''"
  shows "configure_ssl (h\<lparr>c_ssl_trust_store := store\<rparr>) = configure_ssl (h\<lparr>c_ssl_trust_store := store'\<rparr>) \<and>
    Client_ssl (ssl_mode h) \<in> set (configure_ssl (h\<lparr>c_ssl_trust_store := store\<rparr>))"
  using assms by (simp add: configure_ssl_def ssl_mode_def)

subsection \<open>Reading the effects\<close>

text \<open>What a run has sent and closed, read off its effects.\<close>

definition sent_messages :: "effect list \<Rightarrow> message list" where
  "sent_messages es = concat (map (\<lambda>e. case e of Send _ m \<Rightarrow> [m] | _ \<Rightarrow> []) es)"

definition closings :: "effect list \<Rightarrow> nat" where
  "closings es = length (filter (\<lambda>e. e = Close_connection) es)"

definition crashed :: "'a common_handler_scheme \<Rightarrow> bool" where
  "crashed h = (case h_halt h of Some (Crashed _) \<Rightarrow> True | _ \<Rightarrow> False)"

lemma crashed_simps [simp]: "h_halt h = None \<Longrightarrow> \<not> crashed h" "h_halt h = Some (Exited n) \<Longrightarrow> \<not> crashed h"
  "h_halt h = Some (Crashed e) \<Longrightarrow> crashed h"
  by (simp_all add: crashed_def)

lemma sent_messages_simps [simp]:
  "sent_messages [] = []" "sent_messages (es @ fs) = sent_messages es @ sent_messages fs"
  "sent_messages (e # es) = (case e of Send _ m \<Rightarrow> [m] | _ \<Rightarrow> []) @ sent_messages es"
  by (simp_all add: sent_messages_def)

lemma closings_simps [simp]:
  "closings [] = 0" "closings (es @ fs) = closings es + closings fs"
  "closings (e # es) = (if e = Close_connection then 1 else 0) + closings es"
  by (simp_all add: closings_def)

lemma quiet_dbg [simp]: "dbg vs \<noteq> Close_connection" "(case dbg vs of Send _ m \<Rightarrow> [m] | _ \<Rightarrow> []) = []"
  by (simp_all add: dbg_def)

definition quiet :: "effect list \<Rightarrow> bool" where
  "quiet es = (sent_messages es = [] \<and> closings es = 0)"

lemma quiet_simps [simp]: "quiet []" "quiet (es @ fs) \<longleftrightarrow> quiet es \<and> quiet fs"
  "quiet (e # es) \<longleftrightarrow> sent_messages [e] = [] \<and> e \<noteq> Close_connection \<and> quiet es"
  by (auto simp: quiet_def split: effect.splits if_splits)

lemma quiet_start: "quiet (show_settings h)" "quiet (show_caps caps)" "quiet (configure_ssl h)"
  "quiet (fst (finish_conn_opts h co))" "quiet [open_connection h co]"
proof -
  show "quiet (show_caps caps)" by (induction caps) (auto simp: show_caps_def quiet_def)
  show ssl: "quiet (configure_ssl h)" by (simp add: configure_ssl_def quiet_def)
  show "quiet (fst (finish_conn_opts h co))"
    using ssl by (simp add: finish_conn_opts_def configure_reconnect_def heartbeat_opts_def quiet_def Let_def)
qed (simp_all add: show_settings_def quiet_def open_connection_def)

lemma quiet_text: "list_all is_text es \<Longrightarrow> quiet es"
proof (induction es)
  case (Cons e es)
  then show ?case by (cases e) (auto simp: quiet_def)
qed (simp add: quiet_def)

text \<open>
  How often an effect occurred, the addresses of the plain senders opened, and the effects that are neither a
  message, nor an acknowledgement, nor the end of something.
\<close>

definition times :: "effect \<Rightarrow> effect list \<Rightarrow> nat" where
  "times a es = length (filter (\<lambda>e. e = a) es)"

definition opened :: "effect list \<Rightarrow> string list" where
  "opened es = concat (map (\<lambda>e. case e of Open_sender a None \<Rightarrow> [a] | _ \<Rightarrow> []) es)"

lemma times_simps [simp]:
  "times a [] = 0" "times a (es @ fs) = times a es + times a fs"
  "times a (e # es) = (if e = a then 1 else 0) + times a es"
  by (simp_all add: times_def)

lemma opened_simps [simp]:
  "opened [] = []" "opened (es @ fs) = opened es @ opened fs"
  "opened (e # es) = (case e of Open_sender a None \<Rightarrow> [a] | _ \<Rightarrow> []) @ opened es"
  by (simp_all add: opened_def)

lemma closings_times: "closings es = times Close_connection es"
  by (simp add: closings_def times_def)

fun silent :: "effect \<Rightarrow> bool" where
  "silent (Client_ssl _) = True"
| "silent (Server_ssl _ _ _ _ _) = True"
| "silent Connect_configured = True"
| "silent (Connect _ _) = True"
| "silent (Listen _ _) = True"
| "silent (Open_receiver _ _) = True"
| "silent (Schedule _ _) = True"
| "silent (Add_work _) = True"
| "silent (Sleep_for_next _ _ _ _) = True"
| "silent e = is_text e"

lemma silent_text: "is_text e \<Longrightarrow> silent e"
  by (cases e) simp_all

lemma silent_text_all: "list_all is_text es \<Longrightarrow> list_all silent es"
  by (induction es) (auto intro: silent_text)

lemma silent_dbg [simp]: "silent (dbg vs)"
  by (simp add: dbg_def)

lemma silent_no:
  assumes "list_all silent es"
  shows "sent_messages es = []" "opened es = []" "\<not> silent a \<Longrightarrow> times a es = 0"
proof -
  have "sent_messages es = [] \<and> opened es = [] \<and> (\<not> silent a \<longrightarrow> times a es = 0)"
    using assms
  proof (induction es)
    case (Cons e es)
    then show ?case by (cases e) auto
  qed simp
  then show "sent_messages es = []" "opened es = []" "\<not> silent a \<Longrightarrow> times a es = 0" by auto
qed

lemma silent_start: "list_all silent (show_settings h)" "list_all silent (show_caps caps)"
  "list_all silent (fst (finish_conn_opts h co))" "silent (open_connection h co)"
proof -
  show "list_all silent (show_caps caps)" by (induction caps) (auto simp: show_caps_def)
qed (simp_all add: show_settings_def finish_conn_opts_def configure_reconnect_def configure_ssl_def heartbeat_opts_def
    open_connection_def Let_def)

subsection \<open>Runs with their history\<close>

definition traced :: "('e \<Rightarrow> 's \<Rightarrow> 's) \<Rightarrow> 'e \<Rightarrow> 'e list \<times> 's \<Rightarrow> 'e list \<times> 's" where
  "traced step e p = (fst p @ [e], step e (snd p))"

lemma run_traced:
  "run_events step ok es s = Some s' \<Longrightarrow> reaches (traced step) (\<lambda>e p. ok e (snd p)) (h, s) (h @ es, s')"
proof (induction es arbitrary: h s)
  case (Cons e es)
  then have ok: "ok e s" and run: "run_events step ok es (step e s) = Some s'" by (auto split: if_splits)
  have "reaches (traced step) (\<lambda>e p. ok e (snd p)) (h, s) (traced step e (h, s))"
    using ok by (intro reaches.intros) simp
  then have "reaches (traced step) (\<lambda>e p. ok e (snd p)) (h, s) (h @ [e], step e s)" by (simp add: traced_def)
  with Cons.IH [OF run, of "h @ [e]"] show ?case by (auto intro: reaches_trans)
qed (simp add: reaches_start)

lemma block_halted: "h_halt h \<noteq> None \<Longrightarrow> block fs h = h"
  by (cases fs; cases "h_halt h") simp_all

lemma common_handler_new_state:
  assumes "common_handler_new url timeout cfg = Inr h"
  shows "h_work_q h = False" "h_cont h = False" "h_timer h = timer_new timeout ''timeout''" "h_pending h = []" "h_halt h = None"
    "h_effects h = [Log Log_debug [LStr ''Creating a handler for '', LStr url]]" "conn_settings.truncate h = cfg"
  using assms by (auto simp: common_handler_new_def res_bind_eq_Inr common_handler.defs conn_settings.defs)

text \<open>Parameters for the witnesses.\<close>

definition sample_settings :: conn_settings where
  "sample_settings = \<lparr>c_conn_urls = [], c_is_topic = False, c_user = '''', c_password = '''',
     c_sasl_mechanisms = ''ANONYMOUS'', c_conn_sasl_enabled = ''true'', c_ssl_certificate = '''', c_ssl_private_key = '''',
     c_ssl_password = '''', c_ssl_trust_store = '''', c_ssl_verify_peer = False, c_ssl_verify_peer_name = False,
     c_reconnect = ''true'', c_reconnect_interval = 10, c_reconnect_limit = 0, c_reconnect_timeout = - 1,
     c_reconnect_first = 0, c_reconnect_increment = 100, c_reconnect_doubling = True, c_reconnect_custom = False,
     c_heartbeat = 0, c_max_frame_size = 4294967295, c_use_config_file = False, c_log_msgs = ''''\<rparr>"

definition sample_common :: common_handler where
  "sample_common = conn_settings.extend sample_settings
     (common_handler.fields uri_new False False (timer_new 1 ''timeout'') 1 [] [] None)"

lemma trust_store_not_applied_witness:
  "configure_ssl (sample_common\<lparr>c_ssl_trust_store := ''/a''\<rparr>) = configure_ssl (sample_common\<lparr>c_ssl_trust_store := ''/b''\<rparr>)"
proof -
  have "c_ssl_certificate sample_common = ''''" "''/a'' \<noteq> ''''" "''/b'' \<noteq> ''''" by code_simp+
  from trust_store_not_applied [OF this] show ?thesis by blast
qed

end
