(* ===== verification/SenderH.thy ===== *)
theory SenderH
  imports CommonH
begin

text \<open>
  \<open>SenderHandler\<close> (src/src/api/qpid-proton/reactor/handler/SenderHandler.cpp): the state, every method, the
  step function on the events of the library, and what holds in every run: which messages are sent, when
  the connection is closed, and that the handler never stops trying while messages are left.
\<close>

subsection \<open>State\<close>

record sender_handler = common_handler +
  sh_ready :: bool
  sh_count :: int
  sh_duration_time :: int
  sh_duration_mode :: string
  sh_sent :: int
  sh_confirmed :: int
  sh_message :: message
  sh_interval :: duration

definition sender_new :: "string \<Rightarrow> int \<Rightarrow> int \<Rightarrow> string \<Rightarrow> conn_settings \<Rightarrow> sender_handler result" where
  "sender_new url timeout duration_time duration_mode c =
     res_bind (common_handler_new url timeout c) (\<lambda>h. Inr (common_handler.extend h
       (sender_handler.fields False 1 duration_time duration_mode 0 0 message_new Immediate)))"

definition sender_setCount :: "int \<Rightarrow> sender_handler \<Rightarrow> sender_handler" where
  "sender_setCount n s = s\<lparr>sh_count := n\<rparr>"

definition sender_setMessage :: "message \<Rightarrow> sender_handler \<Rightarrow> sender_handler" where
  "sender_setMessage m s = s\<lparr>sh_message := m\<rparr>"

subsection \<open>Methods\<close>

definition sender_timerEvent :: "sender_handler \<Rightarrow> sender_handler" where
  "sender_timerEvent s =
     (if is_expired (h_timer s) then block [act [Log Log_info [LStr ''Timed out'']], exit_with 0] s
      else block [tick_timer, act [dbg [LStr ''Waiting ...'']], schedule Second Timer_event] s)"

text \<open>The body of a text message, with the first \<open>%d\<close> replaced by the number of messages sent.\<close>

definition number_text :: "int \<Rightarrow> string \<Rightarrow> string" where
  "number_text n t = (case find_opt t ''%d'' 0 of None \<Rightarrow> t | Some i \<Rightarrow> take i t @ show_int n @ drop (i + 2) t)"

definition number_message :: "int \<Rightarrow> message \<Rightarrow> message" where
  "number_message n m = (case m_body m of VString t \<Rightarrow> m\<lparr>m_body := VString (number_text n t)\<rparr> | _ \<Rightarrow> m)"

definition plural :: "int \<Rightarrow> log_value" where
  "plural n = LStr (if n > 1 then ''s'' else '''')"

text \<open>What \<open>send\<close> logs before it hands the message to the link.\<close>

definition send_head :: "int \<Rightarrow> sender_handler \<Rightarrow> effect list" where
  "send_head credit s = [dbg [LStr ''Preparing to send message'']] @
     (if credit = 0 then [Log Log_warning [LStr ''There not enough credit to send messages'']] else []) @
     [dbg [LStr ''The handler has enough credit to send '', LInt credit, LStr '' message'', plural credit],
      dbg [LStr ''The handler has sent '', LInt (sh_sent s), LStr '' messages'', plural (sh_sent s)],
      Log Log_trace [LStr ''Sending messages through the link'']]"

text \<open>\<open>send\<close>, with the link's credit as the library reports it.\<close>

definition sender_send :: "proton_lib \<Rightarrow> int \<Rightarrow> sender_handler \<Rightarrow> sender_handler" where
  "sender_send L credit s =
     (let m = number_message (sh_sent s) (sh_message s)
      in block
        [act (send_head credit s),
         act [Send (u_path (h_broker_url s)) m],
         print_in_format L m,
         (\<lambda>s. s\<lparr>sh_sent := wrap32 (sh_sent s + 1)\<rparr>),
         reset_timer,
         (\<lambda>s. s\<lparr>sh_ready := False\<rparr>)] s)"

definition sender_checkIfCanSend :: "proton_lib \<Rightarrow> int \<Rightarrow> sender_handler \<Rightarrow> sender_handler" where
  "sender_checkIfCanSend L credit s =
     (if sh_sent s < sh_count s
      then block [schedule (sh_interval s) Check_if_can_send,
             (if credit > 0 then sender_send L credit else (\<lambda>s. s\<lparr>sh_ready := True\<rparr>))] s
      else s)"

text \<open>The end of \<open>on_container_start\<close>: the interval between messages and the two callbacks.\<close>

definition sender_set_interval :: "sender_handler \<Rightarrow> sender_handler" where
  "sender_set_interval s =
     (if sh_duration_time s > 0 \<and> sh_count s > 0
      then let iv = Divided (Scaled (sh_duration_time s) Second) (sh_count s)
           in act [Log_millis Log_trace ''Interval for duration: '' iv '' ms''] (s\<lparr>sh_interval := iv\<rparr>)
      else s)"

definition sender_first_check :: "sender_handler \<Rightarrow> sender_handler" where
  "sender_first_check s =
     (if sh_duration_time s > 0 \<and> sh_duration_mode s = ''after-send'' then schedule Immediate Check_if_can_send s
      else if sh_duration_time s > 0 \<and> sh_duration_mode s = ''before-send'' then schedule (sh_interval s) Check_if_can_send s
      else schedule Immediate Check_if_can_send s)"

definition sender_start :: "sender_handler \<Rightarrow> sender_handler" where
  "sender_start s =
     (let caps = (if c_is_topic s then [''topic''] else []);
          (es, co) = finish_conn_opts s (basic_conn_opts s)
      in block
        [act ([dbg [LStr ''Starting messaging handler'']] @ show_settings s @ [dbg [LStr ''Topic: '', LBool (c_is_topic s)]] @
           show_caps caps @ es @ [dbg [LStr ''Creating a sender'']]),
         act [open_connection s co],
         act [Open_sender (u_path (h_broker_url s)) (Some caps)],
         (\<lambda>s. s\<lparr>h_work_q := True\<rparr>),
         act [Log Log_trace [LStr ''Setting up timer'']],
         sender_set_interval,
         schedule Immediate Timer_event,
         sender_first_check] s)"

definition sender_sendable :: "proton_lib \<Rightarrow> int \<Rightarrow> sender_handler \<Rightarrow> sender_handler" where
  "sender_sendable L credit s = guard (sh_ready s) (sender_send L credit) s"

definition sender_accept :: "sender_handler \<Rightarrow> sender_handler" where
  "sender_accept s =
     block [act [Log Log_trace [LStr ''Message accepted. Now obtaining the connection reference object''],
                 Log Log_trace [LStr ''Confirmed message delivery'']],
       (\<lambda>s. s\<lparr>sh_confirmed := wrap32 (sh_confirmed s + 1)\<rparr>),
       (\<lambda>s. guard (sh_confirmed s = sh_count s)
         (act [Log Log_trace [LStr ''Closing the sender after sending '', LInt (sh_confirmed s), LStr '' message'', plural (sh_confirmed s)],
               Close_connection]) s)] s"

definition sender_transport_close :: "sender_handler \<Rightarrow> sender_handler" where
  "sender_transport_close s =
     block [act [dbg [LStr ''Closing the transport'']], guard (c_reconnect s = ''false'') (exit_with 1)] s"

definition sender_transport_error :: "string \<Rightarrow> sender_handler \<Rightarrow> sender_handler" where
  "sender_transport_error what s = transport_error what s"

definition sender_reject :: "sender_handler \<Rightarrow> sender_handler" where
  "sender_reject s = block [act [Eprint (''[error] Delivery rejected'' @ newline)], exit_with 1] s"

definition sender_connection_close :: "sender_handler \<Rightarrow> sender_handler" where
  "sender_connection_close s = act [dbg [LStr ''Closing connection'']] s"

definition sender_connection_error :: "string \<Rightarrow> sender_handler \<Rightarrow> sender_handler" where
  "sender_connection_error what s = connection_error what s"

lemmas sender_methods = sender_timerEvent_def sender_checkIfCanSend_def sender_start_def sender_sendable_def
  sender_accept_def sender_transport_close_def sender_transport_error_def sender_reject_def
  sender_connection_close_def sender_connection_error_def

subsection \<open>Events\<close>

text \<open>The calls of the library, with what it answers during the call: the credit, an error's text.\<close>

datatype sender_event =
    S_start
  | S_timer
  | S_check int
  | S_sendable int
  | S_accept
  | S_reject
  | S_transport_error string
  | S_transport_close
  | S_connection_error string
  | S_connection_close

fun sender_step :: "proton_lib \<Rightarrow> sender_event \<Rightarrow> sender_handler \<Rightarrow> sender_handler" where
  "sender_step L S_start s = sender_start s"
| "sender_step L S_timer s = sender_timerEvent (take_work Timer_event s)"
| "sender_step L (S_check credit) s = sender_checkIfCanSend L credit (take_work Check_if_can_send s)"
| "sender_step L (S_sendable credit) s = sender_sendable L credit s"
| "sender_step L S_accept s = sender_accept s"
| "sender_step L S_reject s = sender_reject s"
| "sender_step L (S_transport_error what) s = sender_transport_error what s"
| "sender_step L S_transport_close s = sender_transport_close s"
| "sender_step L (S_connection_error what) s = sender_connection_error what s"
| "sender_step L S_connection_close s = sender_connection_close s"

text \<open>
  When the library makes a call: never after the program has stopped, the start once and first, a callback
  when it was scheduled, and an acceptance for a delivery that was sent and not accepted before.
\<close>

definition sender_ok :: "sender_event \<Rightarrow> sender_handler \<Rightarrow> bool" where
  "sender_ok e s =
     (h_halt s = None \<and>
      (case e of
         S_start \<Rightarrow> \<not> h_work_q s
       | S_timer \<Rightarrow> Timer_event \<in> set (h_pending s)
       | S_check _ \<Rightarrow> Check_if_can_send \<in> set (h_pending s)
       | S_accept \<Rightarrow> sh_confirmed s < sh_sent s
       | _ \<Rightarrow> h_work_q s))"

subsection \<open>The invariant\<close>

text \<open>One call of \<open>send\<close>: exactly one message leaves, and either it is counted or printing it failed.\<close>

lemma quiet_head: "quiet (send_head credit s)"
  by (simp add: send_head_def quiet_def)

lemma sender_send_cases:
  assumes "h_halt s = None"
  obtains
    (sent) es where "quiet es" "sender_send L credit s =
      (act (send_head credit s @ [Send (u_path (h_broker_url s)) (number_message (sh_sent s) (sh_message s))] @ es) s)
        \<lparr>sh_sent := wrap32 (sh_sent s + 1), h_timer := timer_reset (h_timer s), sh_ready := False\<rparr>"
  | (failed) e where "sender_send L credit s =
      crash e (act (send_head credit s @ [Send (u_path (h_broker_url s)) (number_message (sh_sent s) (sh_message s))]) s)"
proof -
  let ?m = "number_message (sh_sent s) (sh_message s)"
  let ?a = "act (send_head credit s @ [Send (u_path (h_broker_url s)) ?m]) s"
  have a: "h_halt ?a = None" "act [Send (u_path (h_broker_url s)) ?m] (act (send_head credit s) s) = ?a"
    using assms by (simp_all add: act_def)
  have eq: "sender_send L credit s = block [print_in_format L ?m, (\<lambda>s. s\<lparr>sh_sent := wrap32 (sh_sent s + 1)\<rparr>), reset_timer,
      (\<lambda>s. s\<lparr>sh_ready := False\<rparr>)] ?a"
    by (simp add: sender_send_def Let_def assms a)
  show thesis
  proof (cases rule: print_in_format_cases [of L ?m ?a])
    case (printed es)
    then have "sender_send L credit s = (act es ?a)\<lparr>sh_sent := wrap32 (sh_sent s + 1), h_timer := timer_reset (h_timer s), sh_ready := False\<rparr>"
      using assms by (simp add: eq statement_defs)
    with quiet_text [OF printed(1)] show thesis by (intro sent) (simp_all add: act_def)
  next
    case (failed e)
    then have "sender_send L credit s = crash e ?a" using assms by (simp add: eq)
    then show thesis by (rule that(2))
  qed
qed

text \<open>
  What holds in every state of a run that sends \<open>c\<close> copies of \<open>m\<close>: the first \<open>sh_sent\<close> numbered copies
  have left, in order (and one more, not counted, when printing it failed); the connection was closed once
  if all are confirmed and not otherwise; a handler that waits for credit has messages left; and while the
  program runs both callbacks stay scheduled.
\<close>

definition sender_progress :: "int \<Rightarrow> message \<Rightarrow> sender_handler \<Rightarrow> bool" where
  "sender_progress c m s =
     (sh_count s = c \<and> sh_message s = m \<and> int32 c \<and>
      0 \<le> sh_confirmed s \<and> sh_confirmed s \<le> sh_sent s \<and> sh_sent s \<le> max 0 c \<and> (sh_ready s \<longrightarrow> sh_sent s < c) \<and>
      closings (h_effects s) = (if 0 < c \<and> sh_confirmed s = c then 1 else 0) \<and>
      (\<exists>k. (k = sh_sent s \<or> k = sh_sent s + 1 \<and> crashed s) \<and> k \<le> max 0 c \<and>
         sent_messages (h_effects s) = map (\<lambda>i. number_message i m) [0..k - 1]))"

definition sender_alive :: "int \<Rightarrow> sender_handler \<Rightarrow> bool" where
  "sender_alive c s =
     (h_work_q s \<and> h_halt s = None \<longrightarrow>
        Timer_event \<in> set (h_pending s) \<and> (sh_sent s < c \<longrightarrow> Check_if_can_send \<in> set (h_pending s)))"

lemma sender_send_progress:
  assumes "sender_progress c m s" and "h_halt s = None" and "sh_sent s < c"
  shows "sender_progress c m (sender_send L credit s)"
proof -
  have c: "wrap32 (sh_sent s + 1) = sh_sent s + 1"
    using assms by (intro wrap32_id) (auto simp: sender_progress_def int32_def int_limits)
  have up: "[0..sh_sent s] = [0..sh_sent s - 1] @ [sh_sent s]"
    using assms by (intro upto_rec2) (auto simp: sender_progress_def)
  have pre: "sent_messages (h_effects s) = map (\<lambda>i. number_message i m) [0..sh_sent s - 1]"
    "\<not> crashed s" "sh_message s = m" "sh_count s = c"
    using assms(1,2) by (auto simp: sender_progress_def)
  have q: "quiet (send_head credit s)" by (rule quiet_head)
  show ?thesis
    using assms(2)
  proof (cases rule: sender_send_cases [of s L credit])
    case (sent es)
    have "sent_messages (h_effects (sender_send L credit s)) = map (\<lambda>i. number_message i m) [0..sh_sent s]"
      using sent(1) q pre up by (simp add: sent(2) quiet_def)
    moreover have "closings (h_effects (sender_send L credit s)) = closings (h_effects s)"
      using sent(1) q by (simp add: sent(2) quiet_def)
    ultimately show ?thesis
      using assms(1,3) c unfolding sender_progress_def
      by (intro conjI exI [where x = "sh_sent s + 1"]) (auto simp: sent(2) act_def)
  next
    case (failed e)
    have "sent_messages (h_effects (sender_send L credit s)) = map (\<lambda>i. number_message i m) [0..sh_sent s]"
      using q pre up by (simp add: failed quiet_def)
    moreover have "closings (h_effects (sender_send L credit s)) = closings (h_effects s)"
      using q by (simp add: failed quiet_def)
    ultimately show ?thesis
      using assms(1,3) unfolding sender_progress_def
      by (intro conjI exI [where x = "sh_sent s + 1"]) (auto simp: failed act_def crash_def)
  qed
qed

lemma sender_send_alive:
  assumes "h_halt s = None" and "Timer_event \<in> set (h_pending s)" and "Check_if_can_send \<in> set (h_pending s)"
  shows "sender_alive c (sender_send L credit s)"
  using assms(1)
  by (cases rule: sender_send_cases [of s L credit]) (use assms in \<open>simp_all add: sender_alive_def act_def crash_def\<close>)

lemma sender_accept_state:
  assumes "h_halt s = None"
  shows "h_halt (sender_accept s) = None" "sh_sent (sender_accept s) = sh_sent s" "sh_count (sender_accept s) = sh_count s"
    "sh_message (sender_accept s) = sh_message s" "sh_ready (sender_accept s) = sh_ready s"
    "h_pending (sender_accept s) = h_pending s" "h_work_q (sender_accept s) = h_work_q s"
    "sh_confirmed (sender_accept s) = wrap32 (sh_confirmed s + 1)"
    "sent_messages (h_effects (sender_accept s)) = sent_messages (h_effects s)"
    "closings (h_effects (sender_accept s)) =
       closings (h_effects s) + (if wrap32 (sh_confirmed s + 1) = sh_count s then 1 else 0)"
  using assms by (simp_all add: sender_accept_def statement_defs)

lemma sender_accept_inv:
  assumes "sender_progress c m s" and "sender_alive c s" and "h_halt s = None" and "sh_confirmed s < sh_sent s"
  shows "sender_progress c m (sender_accept s) \<and> sender_alive c (sender_accept s)"
proof -
  have w: "wrap32 (sh_confirmed s + 1) = sh_confirmed s + 1"
    using assms by (intro wrap32_id) (auto simp: sender_progress_def int32_def int_limits)
  have nc: "\<not> crashed s" "\<not> crashed (sender_accept s)" using assms(3) sender_accept_state(1) by simp_all
  show ?thesis
    using assms nc unfolding sender_progress_def sender_alive_def
    by (auto simp: sender_accept_state w)
qed

lemma set_interval_state [simp]:
  "h_halt (sender_set_interval s) = h_halt s" "sh_sent (sender_set_interval s) = sh_sent s"
  "sh_count (sender_set_interval s) = sh_count s" "sh_message (sender_set_interval s) = sh_message s"
  "sh_ready (sender_set_interval s) = sh_ready s" "sh_confirmed (sender_set_interval s) = sh_confirmed s"
  "h_work_q (sender_set_interval s) = h_work_q s" "h_pending (sender_set_interval s) = h_pending s"
  "sent_messages (h_effects (sender_set_interval s)) = sent_messages (h_effects s)"
  "closings (h_effects (sender_set_interval s)) = closings (h_effects s)"
  by (simp_all add: sender_set_interval_def act_def Let_def)

lemma first_check_state [simp]:
  "h_halt (sender_first_check s) = h_halt s" "sh_sent (sender_first_check s) = sh_sent s"
  "sh_count (sender_first_check s) = sh_count s" "sh_message (sender_first_check s) = sh_message s"
  "sh_ready (sender_first_check s) = sh_ready s" "sh_confirmed (sender_first_check s) = sh_confirmed s"
  "h_work_q (sender_first_check s) = h_work_q s" "h_pending (sender_first_check s) = h_pending s @ [Check_if_can_send]"
  "sent_messages (h_effects (sender_first_check s)) = sent_messages (h_effects s)"
  "closings (h_effects (sender_first_check s)) = closings (h_effects s)"
  by (simp_all add: sender_first_check_def schedule_def)

lemma sender_act_state [simp]:
  "sh_sent (act es s) = sh_sent s" "sh_count (act es s) = sh_count s" "sh_message (act es s) = sh_message s"
  "sh_ready (act es s) = sh_ready s" "sh_confirmed (act es s) = sh_confirmed s" "h_work_q (act es s) = h_work_q s"
  "sh_sent (schedule d w s) = sh_sent s" "sh_count (schedule d w s) = sh_count s" "sh_message (schedule d w s) = sh_message s"
  "sh_ready (schedule d w s) = sh_ready s" "sh_confirmed (schedule d w s) = sh_confirmed s"
  "h_work_q (schedule d w s) = h_work_q s"
  by (simp_all add: act_def schedule_def)

lemma sender_start_state:
  assumes "h_halt s = None"
  shows "h_halt (sender_start s) = None" "sh_sent (sender_start s) = sh_sent s" "sh_count (sender_start s) = sh_count s"
    "sh_message (sender_start s) = sh_message s" "sh_ready (sender_start s) = sh_ready s"
    "sh_confirmed (sender_start s) = sh_confirmed s" "h_work_q (sender_start s)"
    "h_pending (sender_start s) = h_pending s @ [Timer_event, Check_if_can_send]"
    "sent_messages (h_effects (sender_start s)) = sent_messages (h_effects s)"
    "closings (h_effects (sender_start s)) = closings (h_effects s)"
proof -
  let ?caps = "if c_is_topic s then [''topic''] else []"
  obtain es co where f: "finish_conn_opts s (basic_conn_opts s) = (es, co)" by (cases "finish_conn_opts s (basic_conn_opts s)")
  have q: "quiet es" "quiet (show_settings s)" "quiet (show_caps ?caps)" "quiet [open_connection s co]"
    using quiet_start(4) [of s "basic_conn_opts s"] quiet_start by (simp_all add: f)
  show "h_halt (sender_start s) = None" "sh_sent (sender_start s) = sh_sent s" "sh_count (sender_start s) = sh_count s"
    "sh_message (sender_start s) = sh_message s" "sh_ready (sender_start s) = sh_ready s"
    "sh_confirmed (sender_start s) = sh_confirmed s" "h_work_q (sender_start s)"
    "h_pending (sender_start s) = h_pending s @ [Timer_event, Check_if_can_send]"
    using assms by (simp_all add: sender_start_def f Let_def)
  show "sent_messages (h_effects (sender_start s)) = sent_messages (h_effects s)"
    "closings (h_effects (sender_start s)) = closings (h_effects s)"
    using assms q by (simp_all add: sender_start_def f Let_def quiet_def)
qed

text \<open>The other events leave the sender's own members alone.\<close>

definition sender_frame :: "sender_handler \<Rightarrow> sender_handler \<Rightarrow> bool" where
  "sender_frame s s' =
     (sh_sent s' = sh_sent s \<and> sh_count s' = sh_count s \<and> sh_message s' = sh_message s \<and> sh_ready s' = sh_ready s \<and>
      sh_confirmed s' = sh_confirmed s \<and> sent_messages (h_effects s') = sent_messages (h_effects s) \<and>
      closings (h_effects s') = closings (h_effects s))"

lemma frame_progress: "sender_frame s s' \<Longrightarrow> sender_progress c m s \<Longrightarrow> h_halt s = None \<Longrightarrow> sender_progress c m s'"
  by (auto simp: sender_frame_def sender_progress_def)

lemma frame_trans: "sender_frame s t \<Longrightarrow> sender_frame t u \<Longrightarrow> sender_frame s u"
  by (simp add: sender_frame_def)

lemma take_work_frame: "sender_frame s (take_work w s)" "h_work_q (take_work w s) = h_work_q s"
  by (simp_all add: sender_frame_def take_work_def)

lemma sender_tick_state [simp]:
  "sh_sent (tick_timer s) = sh_sent s" "sh_count (tick_timer s) = sh_count s" "sh_message (tick_timer s) = sh_message s"
  "sh_ready (tick_timer s) = sh_ready s" "sh_confirmed (tick_timer s) = sh_confirmed s" "h_work_q (tick_timer s) = h_work_q s"
  by (simp_all add: tick_timer_def crash_def split: sum.split prod.split)

lemma sender_exit_state [simp]:
  "sh_sent (exit_with n s) = sh_sent s" "sh_count (exit_with n s) = sh_count s" "sh_message (exit_with n s) = sh_message s"
  "sh_ready (exit_with n s) = sh_ready s" "sh_confirmed (exit_with n s) = sh_confirmed s" "h_work_q (exit_with n s) = h_work_q s"
  by (simp_all add: exit_with_def)

lemma timer_event_frame:
  assumes "h_halt s = None"
  shows "sender_frame s (sender_timerEvent s)" "h_work_q (sender_timerEvent s) = h_work_q s"
    "h_halt (sender_timerEvent s) = None \<Longrightarrow> h_pending (sender_timerEvent s) = h_pending s @ [Timer_event]"
proof -
  have "sender_frame s (sender_timerEvent s) \<and> h_work_q (sender_timerEvent s) = h_work_q s \<and>
      (h_halt (sender_timerEvent s) = None \<longrightarrow> h_pending (sender_timerEvent s) = h_pending s @ [Timer_event])"
    using assms by (cases "is_expired (h_timer s)"; cases "h_halt (tick_timer s)")
      (simp_all add: sender_timerEvent_def sender_frame_def)
  then show "sender_frame s (sender_timerEvent s)" "h_work_q (sender_timerEvent s) = h_work_q s"
    "h_halt (sender_timerEvent s) = None \<Longrightarrow> h_pending (sender_timerEvent s) = h_pending s @ [Timer_event]"
    by blast+
qed

lemma peer_frames:
  assumes "h_halt s = None"
  shows "sender_frame s (sender_reject s)" "sender_frame s (sender_transport_error what s)"
    "sender_frame s (sender_transport_close s)" "sender_frame s (sender_connection_error what s)"
    "sender_frame s (sender_connection_close s)"
    "h_pending (sender_reject s) = h_pending s" "h_pending (sender_transport_error what s) = h_pending s"
    "h_pending (sender_transport_close s) = h_pending s" "h_pending (sender_connection_error what s) = h_pending s"
    "h_pending (sender_connection_close s) = h_pending s"
  using assms
  by (simp_all add: sender_reject_def sender_transport_error_def transport_error_def sender_transport_close_def
      sender_connection_error_def connection_error_def sender_connection_close_def interrupted_def sender_frame_def guard_def)

lemma remove1_member: "x \<noteq> y \<Longrightarrow> x \<in> set xs \<Longrightarrow> x \<in> set (remove1 y xs)"
  by simp

lemma sender_check_inv:
  assumes "sender_progress c m s" and "sender_alive c s" and "sender_ok (S_check credit) s" and "h_work_q s"
  shows "sender_progress c m (sender_step L (S_check credit) s) \<and> sender_alive c (sender_step L (S_check credit) s)"
proof -
  define t where "t = take_work Check_if_can_send s"
  have h: "h_halt s = None" "h_halt t = None" using assms(3) by (simp_all add: sender_ok_def t_def)
  have tm: "Timer_event \<in> set (h_pending t)" using assms(2,4) h(1) by (simp add: sender_alive_def t_def)
  have p: "sender_progress c m t" using frame_progress [OF take_work_frame(1) assms(1) h(1)] by (simp add: t_def)
  have c: "sh_count t = c" using p by (simp add: sender_progress_def)
  show ?thesis
  proof (cases "sh_sent t < c")
    case False
    with p tm h c show ?thesis by (simp add: sender_checkIfCanSend_def t_def [symmetric] sender_alive_def)
  next
    case True
    define u where "u = schedule (sh_interval t) Check_if_can_send t"
    have fr: "sender_frame t u" by (simp add: sender_frame_def u_def)
    have u: "sender_progress c m u" "h_halt u = None" "sh_sent u < c" "Timer_event \<in> set (h_pending u)"
      "Check_if_can_send \<in> set (h_pending u)"
      using frame_progress [OF fr p h(2)] h True tm by (simp_all add: u_def)
    show ?thesis
    proof (cases "credit > 0")
      case True
      then have "sender_step L (S_check credit) s = sender_send L credit u"
        using \<open>sh_sent t < c\<close> c h by (simp add: sender_checkIfCanSend_def t_def [symmetric] u_def)
      then show ?thesis using sender_send_progress [OF u(1-3)] sender_send_alive [OF u(2,4,5)] by simp
    next
      case False
      then have "sender_step L (S_check credit) s = u\<lparr>sh_ready := True\<rparr>"
        using \<open>sh_sent t < c\<close> c h by (simp add: sender_checkIfCanSend_def t_def [symmetric] u_def)
      with u show ?thesis by (auto simp: sender_progress_def sender_alive_def)
    qed
  qed
qed

definition sender_inv :: "int \<Rightarrow> message \<Rightarrow> sender_handler \<Rightarrow> bool" where
  "sender_inv c m s = (sender_progress c m s \<and> sender_alive c s \<and> (h_work_q s \<or> h_pending s = []))"

lemma frame_inv:
  assumes "sender_inv c m s" and "sender_frame s s'" and "h_pending s' = h_pending s" and "h_halt s = None"
    and "h_work_q s" and "h_work_q s' = h_work_q s"
  shows "sender_inv c m s'"
proof -
  have "sender_progress c m s'" using frame_progress [OF assms(2)] assms(1,4) by (simp add: sender_inv_def)
  moreover have "sh_count s = c" using assms(1) by (simp add: sender_inv_def sender_progress_def)
  moreover have "sh_sent s' = sh_sent s" using assms(2) by (simp add: sender_frame_def)
  ultimately show ?thesis
    using assms unfolding sender_inv_def sender_alive_def by auto
qed

lemma peer_work_q:
  assumes "h_halt s = None"
  shows "h_work_q (sender_reject s) = h_work_q s" "h_work_q (sender_transport_error what s) = h_work_q s"
    "h_work_q (sender_transport_close s) = h_work_q s" "h_work_q (sender_connection_error what s) = h_work_q s"
    "h_work_q (sender_connection_close s) = h_work_q s"
  using assms
  by (simp_all add: sender_reject_def sender_transport_error_def transport_error_def sender_transport_close_def
      sender_connection_error_def connection_error_def sender_connection_close_def guard_def)

lemma sender_send_work_q: "h_halt s = None \<Longrightarrow> h_work_q (sender_send L credit s) = h_work_q s"
  by (cases rule: sender_send_cases [of s L credit]) (simp_all add: crash_def)

lemma sender_send_pending: "h_halt s = None \<Longrightarrow> h_pending (sender_send L credit s) = h_pending s"
  by (cases rule: sender_send_cases [of s L credit]) (simp_all add: crash_def)

lemma sender_inv_step:
  assumes inv: "sender_inv c m s" and ok: "sender_ok e s"
  shows "sender_inv c m (sender_step L e s)"
proof -
  have h: "h_halt s = None" using ok by (simp add: sender_ok_def)
  have parts: "sender_progress c m s" "sender_alive c s" "h_work_q s \<or> h_pending s = []"
    using inv by (simp_all add: sender_inv_def)
  have pc: "sh_count s = c" using parts(1) by (simp add: sender_progress_def)
  note peer = frame_inv [OF inv _ _ h]
  show ?thesis
  proof (cases e)
    case S_start
    have "sender_progress c m (sender_start s)"
      using frame_progress [of s "sender_start s"] parts(1) h sender_start_state [OF h] by (simp add: sender_frame_def)
    with S_start sender_start_state [OF h] show ?thesis by (simp add: sender_inv_def sender_alive_def)
  next
    case S_timer
    let ?t = "take_work Timer_event s"
    have w: "h_work_q s" using ok parts(3) S_timer by (auto simp: sender_ok_def)
    have t: "h_halt ?t = None" "h_work_q ?t" "sh_sent ?t = sh_sent s" using h w by (simp_all add: take_work_def)
    note fr = timer_event_frame [OF t(1)]
    have "sender_frame s (sender_timerEvent ?t)" using frame_trans [OF take_work_frame(1) fr(1)] .
    then have p: "sender_progress c m (sender_timerEvent ?t)" using frame_progress parts(1) h by blast
    have "sh_sent (sender_timerEvent ?t) = sh_sent s" using fr(1) by (simp add: sender_frame_def take_work_def)
    then have "sender_alive c (sender_timerEvent ?t)"
      using fr(3) parts(2) w h by (auto simp: sender_alive_def)
    with p fr(2) t S_timer show ?thesis by (simp add: sender_inv_def)
  next
    case (S_check credit)
    have w: "h_work_q s" using ok parts(3) S_check by (auto simp: sender_ok_def)
    have "h_work_q (sender_step L (S_check credit) s)"
      using w h sender_send_work_q [of "schedule (sh_interval s) Check_if_can_send (take_work Check_if_can_send s)" L credit]
      by (simp add: sender_checkIfCanSend_def take_work_def)
    with sender_check_inv [OF parts(1,2)] ok w S_check show ?thesis by (simp add: sender_inv_def)
  next
    case (S_sendable credit)
    have w: "h_work_q s" using ok S_sendable by (simp add: sender_ok_def)
    show ?thesis
    proof (cases "sh_ready s")
      case True
      then have lt: "sh_sent s < c" using parts(1) by (simp add: sender_progress_def)
      have "sender_alive c (sender_send L credit s)"
        using sender_send_alive [OF h] parts(2) w h lt by (simp add: sender_alive_def)
      with sender_send_progress [OF parts(1) h lt] sender_send_work_q [OF h] w True S_sendable show ?thesis
        by (simp add: sender_inv_def sender_sendable_def)
    qed (use inv S_sendable in \<open>simp add: sender_sendable_def\<close>)
  next
    case S_accept
    then have "sh_confirmed s < sh_sent s" using ok by (simp add: sender_ok_def)
    from sender_accept_inv [OF parts(1,2) h this] sender_accept_state [OF h] parts(3) S_accept show ?thesis
      by (simp add: sender_inv_def)
  next
    case S_reject
    then show ?thesis using peer [of "sender_reject s"] peer_frames [OF h] peer_work_q [OF h] ok by (simp add: sender_ok_def)
  next
    case (S_transport_error w)
    then show ?thesis using peer [of "sender_transport_error w s"] peer_frames [OF h] peer_work_q [OF h] ok by (simp add: sender_ok_def)
  next
    case S_transport_close
    then show ?thesis using peer [of "sender_transport_close s"] peer_frames [OF h] peer_work_q [OF h] ok by (simp add: sender_ok_def)
  next
    case (S_connection_error w)
    then show ?thesis using peer [of "sender_connection_error w s"] peer_frames [OF h] peer_work_q [OF h] ok by (simp add: sender_ok_def)
  next
    case S_connection_close
    then show ?thesis using peer [of "sender_connection_close s"] peer_frames [OF h] peer_work_q [OF h] ok by (simp add: sender_ok_def)
  qed
qed

lemma sender_effects_step: "sender_ok e s \<Longrightarrow> prefix (h_effects s) (h_effects (sender_step L e s))"
proof -
  assume ok: "sender_ok e s"
  then have h: "h_halt s = None" "h_halt (take_work w s) = None" for w by (simp_all add: sender_ok_def)
  have send: "prefix (h_effects t) (h_effects (sender_send L credit t))" if "h_halt t = None" for t credit
    using that by (cases rule: sender_send_cases [of t L credit]) simp_all
  have timer: "prefix (h_effects t) (h_effects (sender_timerEvent t))" if "h_halt t = None" for t
    using that by (cases "h_halt (tick_timer t)") (simp_all add: sender_timerEvent_def)
  have start: "prefix (h_effects s) (h_effects (sender_start s))"
    using h by (simp add: sender_start_def sender_set_interval_def sender_first_check_def Let_def split_beta)
  have check: "prefix (h_effects t) (h_effects (sender_checkIfCanSend L credit t))" if "h_halt t = None" for t credit
    using that send [of "schedule (sh_interval t) Check_if_can_send t" credit]
    by (auto simp: sender_checkIfCanSend_def dest: append_prefixD)
  show "prefix (h_effects s) (h_effects (sender_step L e s))"
    using h start timer [OF h(2) [of Timer_event]] check [OF h(2) [of Check_if_can_send]] send [OF h(1)]
    by (cases e) (simp_all add: sender_sendable_def guard_def sender_accept_def sender_reject_def
        sender_transport_error_def transport_error_def sender_transport_close_def sender_connection_error_def
        connection_error_def sender_connection_close_def)
qed

interpretation sender: event_handler "sender_step L" sender_ok "sender_inv c m" h_effects for L c m
  by unfold_locales (blast intro: sender_inv_step sender_effects_step)+

text \<open>A new sender, told how many copies of which message to send.\<close>

definition sender_for :: "sender_handler \<Rightarrow> int \<Rightarrow> message \<Rightarrow> sender_handler" where
  "sender_for s0 c m = sender_setCount c (sender_setMessage m s0)"

lemma sender_new_state:
  assumes "sender_new url timeout d mode cfg = Inr s0"
  shows "sh_sent s0 = 0" "sh_confirmed s0 = 0" "sh_ready s0 = False" "h_halt s0 = None" "h_pending s0 = []"
    "h_work_q s0 = False" "sent_messages (h_effects s0) = []" "closings (h_effects s0) = 0"
    "c_log_msgs s0 = c_log_msgs cfg" "h_timer s0 = timer_new timeout ''timeout''" "c_reconnect s0 = c_reconnect cfg"
proof -
  from assms obtain h where h: "common_handler_new url timeout cfg = Inr h"
    and s0: "s0 = common_handler.extend h (sender_handler.fields False 1 d mode 0 0 message_new Immediate)"
    by (auto simp: sender_new_def res_bind_eq_Inr)
  note n = common_handler_new_state [OF h]
  have "c_log_msgs h = c_log_msgs cfg" "c_reconnect h = c_reconnect cfg" using n(7) by (auto simp: conn_settings.defs)
  with n show "sh_sent s0 = 0" "sh_confirmed s0 = 0" "sh_ready s0 = False" "h_halt s0 = None" "h_pending s0 = []"
    "h_work_q s0 = False" "sent_messages (h_effects s0) = []" "closings (h_effects s0) = 0" "c_log_msgs s0 = c_log_msgs cfg"
    "h_timer s0 = timer_new timeout ''timeout''" "c_reconnect s0 = c_reconnect cfg"
    by (simp_all add: s0 common_handler.defs sender_handler.defs)
qed

lemma sender_for_inv:
  assumes "sender_new url timeout d mode cfg = Inr s0" and "int32 c"
  shows "sender_inv c m (sender_for s0 c m)"
proof -
  note n = sender_new_state [OF assms(1)]
  have "sender_progress c m (sender_for s0 c m)"
    using assms(2) n by (auto simp: sender_for_def sender_setCount_def sender_setMessage_def sender_progress_def)
  with n show ?thesis by (simp add: sender_inv_def sender_alive_def sender_for_def sender_setCount_def sender_setMessage_def)
qed

lemma sender_progress_sent:
  assumes "sender_progress c m s"
  shows "sent_messages (h_effects s) = map (\<lambda>i. number_message i m) [0..int (length (sent_messages (h_effects s))) - 1] \<and>
    int (length (sent_messages (h_effects s))) \<le> max 0 c \<and>
    closings (h_effects s) = (if 0 < c \<and> sh_confirmed s = c then 1 else 0)"
proof -
  from assms obtain k where k: "k = sh_sent s \<or> k = sh_sent s + 1 \<and> crashed s" "k \<le> max 0 c"
      "sent_messages (h_effects s) = map (\<lambda>i. number_message i m) [0..k - 1]"
    and "0 \<le> sh_confirmed s" "sh_confirmed s \<le> sh_sent s"
      "closings (h_effects s) = (if 0 < c \<and> sh_confirmed s = c then 1 else 0)"
    unfolding sender_progress_def by blast
  moreover from this have "0 \<le> k" by linarith
  ultimately show ?thesis by simp
qed

text \<open>
  C1. Whatever the library does, a sender told to send \<open>c\<close> copies of a message has sent the first so many
  numbered copies, in order and without a gap or a repetition, and never more than \<open>c\<close>; it has closed the
  connection exactly once when all \<open>c\<close> are confirmed, and not at all before.
\<close>

theorem sender_sends_in_order:
  assumes "sender_new url timeout d mode cfg = Inr s0" and "int32 c"
    and "reaches (sender_step L) sender_ok (sender_for s0 c m) s"
  shows "sent_messages (h_effects s) = map (\<lambda>i. number_message i m) [0..int (length (sent_messages (h_effects s))) - 1] \<and>
    int (length (sent_messages (h_effects s))) \<le> max 0 c \<and>
    closings (h_effects s) = (if 0 < c \<and> sh_confirmed s = c then 1 else 0)"
  using sender.reaches_inv [OF assms(3) sender_for_inv [OF assms(1,2)]] sender_progress_sent unfolding sender_inv_def by blast

text \<open>
  C15. A running sender never gets stuck: after the start its time-out callback stays scheduled, and as long
  as messages are left so does the callback that sends them.
\<close>

theorem sender_keeps_trying:
  assumes "sender_new url timeout d mode cfg = Inr s0" and "int32 c"
    and "reaches (sender_step L) sender_ok (sender_for s0 c m) s"
    and "h_halt s = None" and "h_work_q s"
  shows "Timer_event \<in> set (h_pending s) \<and> (if sh_sent s < c then Check_if_can_send \<in> set (h_pending s) else True)"
  using sender.reaches_inv [OF assms(3) sender_for_inv [OF assms(1,2)]] assms(4,5)
  by (simp add: sender_inv_def sender_alive_def)

subsection \<open>Completion\<close>

lemma printable_numbered [simp]: "printable L (number_message n m) = printable L m"
  by (cases "m_body m") (simp_all add: number_message_def printable_def body_ok_def)

text \<open>A message can be sent when it is not printed with \<open>--log-msgs dict\<close> or can be.\<close>

definition prints_safely :: "proton_lib \<Rightarrow> message \<Rightarrow> sender_handler \<Rightarrow> bool" where
  "prints_safely L m s = (c_log_msgs s \<noteq> ''dict'' \<or> printable L m)"

lemma sender_check_sends:
  fixes L :: proton_lib
  assumes inv: "sender_inv c m s" and h: "h_halt s = None" and w: "h_work_q s" and q: "prints_safely L m s" and lt: "sh_sent s < c"
  defines "s' \<equiv> sender_step L (S_check 1) s"
  shows "sender_ok (S_check 1) s \<and> h_halt s' = None \<and> h_work_q s' \<and> prints_safely L m s' \<and> sh_sent s' = sh_sent s + 1"
proof -
  define t where "t = schedule (sh_interval s) Check_if_can_send (take_work Check_if_can_send s)"
  have p: "sh_message s = m" "sh_count s = c" "sh_sent s \<le> max 0 c" "int32 c" "0 \<le> sh_sent s"
    using inv by (auto simp: sender_inv_def sender_progress_def)
  have t: "h_halt t = None" "c_log_msgs t = c_log_msgs s" "sh_sent t = sh_sent s" "h_work_q t" "sh_message t = m"
    using h w p(1) by (simp_all add: t_def take_work_def schedule_def)
  have s': "s' = sender_send L 1 t"
    using h lt p(2) by (simp add: s'_def sender_checkIfCanSend_def t_def) (simp add: take_work_def)
  have wr: "wrap32 (sh_sent s + 1) = sh_sent s + 1"
    using p lt by (intro wrap32_id) (simp add: int32_def int_limits)
  let ?u = "act [Send (u_path (h_broker_url t)) (number_message (sh_sent t) m)] (act (send_head 1 t) t)"
  have "c_log_msgs ?u \<noteq> ''dict'' \<or> printable L (number_message (sh_sent t) m)"
    using q t(2) by (auto simp: prints_safely_def act_def)
  then obtain es where print: "print_in_format L (number_message (sh_sent t) m) ?u = act es ?u" by (rule print_in_format_ok)
  have "s' = (reset_timer ((act es ?u)\<lparr>sh_sent := wrap32 (sh_sent t + 1)\<rparr>))\<lparr>sh_ready := False\<rparr>"
    unfolding s' using t(1,5) print by (simp add: sender_send_def Let_def)
  then have "h_halt s' = None \<and> h_work_q s' \<and> prints_safely L m s' \<and> sh_sent s' = wrap32 (sh_sent t + 1)"
    using t q by (simp add: prints_safely_def reset_timer_def act_def)
  moreover have "Check_if_can_send \<in> set (h_pending s)"
    using inv h w lt by (simp add: sender_inv_def sender_alive_def)
  ultimately show ?thesis using h wr t(3) by (simp add: sender_ok_def)
qed

lemma sender_checks_complete:
  assumes "sender_inv c m s" and "h_halt s = None" and "h_work_q s" and "prints_safely L m s" and "sh_sent s + int n = c"
  shows "\<exists>s'. run_events (sender_step L) sender_ok (replicate n (S_check 1)) s = Some s' \<and> sender_inv c m s' \<and>
    h_halt s' = None \<and> sh_sent s' = c"
  using assms
proof (induction n arbitrary: s)
  case (Suc n)
  then have lt: "sh_sent s < c" by simp
  note st = sender_check_sends [OF Suc.prems(1-4) lt]
  have "sender_inv c m (sender_step L (S_check 1) s)" using sender.inv_step [OF Suc.prems(1)] st by blast
  with Suc.IH [of "sender_step L (S_check 1) s"] st Suc.prems(5) show ?case by simp
qed simp

text \<open>
  C13. A running sender finishes once there is credit. From any state of a run in which it has been started and has not
  stopped, as many calls of the sending callback as messages are left, each with one credit, are all possible and leave
  exactly \<open>c\<close> messages sent, for \<open>c \<ge> 0\<close>. The only condition is that the messages, when they are printed with
  \<open>--log-msgs dict\<close>, can be printed.
\<close>

theorem sender_completes:
  assumes "sender_new url timeout d mode cfg = Inr s0" and "int32 c"
    and "reaches (sender_step L) sender_ok (sender_for s0 c m) s"
    and "h_halt s = None" and "h_work_q s" and "prints_safely L m s" and "0 \<le> c"
  shows "\<exists>s'. run_events (sender_step L) sender_ok (replicate (nat (c - sh_sent s)) (S_check 1)) s = Some s' \<and>
    sent_messages (h_effects s') = map (\<lambda>i. number_message i m) [0..c - 1]"
proof -
  have inv: "sender_inv c m s" using sender.reaches_inv [OF assms(3) sender_for_inv [OF assms(1,2)]] .
  then have "sh_sent s \<le> c" using assms(7) by (auto simp: sender_inv_def sender_progress_def)
  then have "sh_sent s + int (nat (c - sh_sent s)) = c" by simp
  from sender_checks_complete [OF inv assms(4-6) this]
  obtain s' where s': "run_events (sender_step L) sender_ok (replicate (nat (c - sh_sent s)) (S_check 1)) s = Some s'"
    "sender_inv c m s'" "h_halt s' = None" "sh_sent s' = c" by blast
  from s'(2-4) have "sent_messages (h_effects s') = map (\<lambda>i. number_message i m) [0..c - 1]"
    by (auto simp: sender_inv_def sender_progress_def)
  with s'(1) show ?thesis by blast
qed

subsection \<open>A run\<close>

definition sample_message :: message where
  "sample_message = message_new\<lparr>m_body := VString ''msg %d''\<rparr>"

definition sample_sender :: sender_handler where
  "sample_sender = projr (sender_new ''h/q'' 1 0 ''after-send'' sample_settings)"

definition sample_sending :: "sender_event list \<Rightarrow> sender_handler option" where
  "sample_sending es = run_events (sender_step sample_lib) sender_ok es (sender_for sample_sender 2 sample_message)"

lemma sample_sender_new: "sender_new ''h/q'' 1 0 ''after-send'' sample_settings = Inr sample_sender"
proof -
  have "\<not> isl (uri_of ''h/q'')" by code_simp
  then show ?thesis by (cases "uri_of ''h/q''") (simp_all add: sample_sender_def sender_new_def common_handler_new_def)
qed

lemma sample_sending_reaches:
  assumes "\<not> Option.is_none (sample_sending es)"
  shows "reaches (sender_step sample_lib) sender_ok (sender_for sample_sender 2 sample_message) (the (sample_sending es))"
  using assms by (intro run_events_reaches [where es = es]) (auto simp: sample_sending_def Option.is_none_def)

lemma sender_sends_in_order_witness:
  "map m_body (sent_messages (h_effects (the (sample_sending [S_start, S_check 1, S_timer, S_check 0, S_sendable 1, S_accept, S_accept])))) =
     [VString ''msg 0'', VString ''msg 1'']"
proof -
  let ?s = "the (sample_sending [S_start, S_check 1, S_timer, S_check 0, S_sendable 1, S_accept, S_accept])"
  have r: "\<not> Option.is_none (sample_sending [S_start, S_check 1, S_timer, S_check 0, S_sendable 1, S_accept, S_accept])"
    by code_simp
  have "length (sent_messages (h_effects ?s)) = 2" "int32 2"
    "map m_body (map (\<lambda>i. number_message i sample_message) [0..2 - 1]) = [VString ''msg 0'', VString ''msg 1'']" by code_simp+
  moreover from sender_sends_in_order [OF sample_sender_new this(2) sample_sending_reaches [OF r]]
  have "sent_messages (h_effects ?s) =
      map (\<lambda>i. number_message i sample_message) [0..int (length (sent_messages (h_effects ?s))) - 1]" by blast
  ultimately show ?thesis by simp
qed

lemma sender_keeps_trying_witness:
  "Check_if_can_send \<in> set (h_pending (the (sample_sending [S_start, S_check 1])))"
proof -
  let ?s = "the (sample_sending [S_start, S_check 1])"
  have r: "\<not> Option.is_none (sample_sending [S_start, S_check 1])" by code_simp
  have "h_halt ?s = None" "h_work_q ?s" "sh_sent ?s < 2" "int32 2" by code_simp+
  with sender_keeps_trying [OF sample_sender_new _ sample_sending_reaches [OF r]] show ?thesis by simp
qed

lemma sender_completes_witness:
  "\<exists>s'. run_events (sender_step sample_lib) sender_ok [S_check 1] (the (sample_sending [S_start, S_check 1])) = Some s' \<and>
     map m_body (sent_messages (h_effects s')) = [VString ''msg 0'', VString ''msg 1'']"
proof -
  let ?s = "the (sample_sending [S_start, S_check 1])"
  have r: "\<not> Option.is_none (sample_sending [S_start, S_check 1])" by code_simp
  have c: "h_halt ?s = None" "h_work_q ?s" "prints_safely sample_lib sample_message ?s" "int32 2" "(0 :: int) \<le> 2" "sh_sent ?s = 1"
    "map m_body (map (\<lambda>i. number_message i sample_message) [0..2 - 1]) = [VString ''msg 0'', VString ''msg 1'']" by code_simp+
  have "replicate (nat (2 - sh_sent ?s)) (S_check 1) = [S_check 1]" using c(6) by simp
  with sender_completes [OF sample_sender_new c(4) sample_sending_reaches [OF r] c(1-3,5)] c(7) show ?thesis by metis
qed

end
