(* ===== verification/ReceiverH.thy ===== *)
theory ReceiverH
  imports CommonH
begin

text \<open>
  \<open>ReceiverHandler\<close> (src/src/api/qpid-proton/reactor/handler/ReceiverHandler.cpp): the state, every method, the
  step function on the events of the library. The proton objects \<open>recv\<close> and \<open>cont\<close> are known by whether they have been
  assigned: a call on a receiver that was never opened, which the library forbids, is \<open>Bad_access\<close>.
\<close>

subsection \<open>State\<close>

text \<open>The arguments of the constructor that only a receiver has.\<close>

record receiver_settings =
  r_durable_subscriber :: bool
  r_subscriber_unsubscribe :: bool
  r_durable_subscriber_prefix :: string
  r_durable_subscriber_name :: string
  r_shared_subscriber :: bool
  r_msg_action :: string
  r_msg_action_size :: int
  r_count :: int
  r_duration_time :: int
  r_duration_mode :: string
  r_process_reply_to :: bool
  r_browse :: bool
  r_recv_listen :: string
  r_recv_listen_port :: int
  r_recv_credit_window :: int
  r_recv_drain_after_credit_window :: bool

text \<open>
  \<open>rh_set\<close> holds those arguments but for the name, which the handler may assign. \<open>rh_senders\<close> maps an address
  to the sender, known by the address it was opened for.
\<close>

record receiver_handler = common_handler +
  rh_set :: receiver_settings
  rh_recv :: bool
  rh_ts :: rat
  rh_fm :: "string option"
  rh_durable_subscriber_name :: string
  rh_interval :: duration
  rh_msg_received_cnt :: int
  rh_senders :: "(string, string) smap"

definition receiver_new :: "string \<Rightarrow> int \<Rightarrow> conn_settings \<Rightarrow> receiver_settings \<Rightarrow> receiver_handler result" where
  "receiver_new url timeout c r =
     res_bind (common_handler_new url timeout c) (\<lambda>h. Inr (common_handler.extend h
       (receiver_handler.fields r False 0 None (r_durable_subscriber_name r) (Scaled timeout Second) 0 [])))"

definition setSelector :: "string \<Rightarrow> receiver_handler \<Rightarrow> receiver_handler" where
  "setSelector selector s = s\<lparr>rh_fm := Some selector\<rparr>"

definition listening :: "receiver_handler \<Rightarrow> bool" where
  "listening s = (r_recv_listen (rh_set s) = ''true'')"

definition subscribing :: "receiver_handler \<Rightarrow> bool" where
  "subscribing s = (r_durable_subscriber (rh_set s) \<or> r_subscriber_unsubscribe (rh_set s))"

subsection \<open>Time-out\<close>

text \<open>The two branches on \<open>recv_listen\<close> schedule the same callback, on the connection or on the container.\<close>

definition receiver_timerEvent :: "receiver_handler \<Rightarrow> receiver_handler" where
  "receiver_timerEvent s =
     (if is_expired (h_timer s) then block [act [Log Log_info [LStr ''Timed out'']], exit_with 0] s
      else block [tick_timer, act [dbg [LStr ''Waiting ...'']], schedule Second Timer_event] s)"

subsection \<open>Start\<close>

definition createSubscriptionName :: "string \<Rightarrow> string \<Rightarrow> receiver_handler \<Rightarrow> receiver_handler" where
  "createSubscriptionName client_uuid customPrefix s =
     (let s1 = (if rh_durable_subscriber_name s = ''''
                then s\<lparr>rh_durable_subscriber_name :=
                       (if customPrefix = '''' then ''qpid-proton-cpp-'' else customPrefix) @ client_uuid\<rparr>
                else s)
      in act [dbg [LStr ''Durable subscription name: '', LStr (rh_durable_subscriber_name s1)]] s1)"

definition receiver_caps :: "receiver_handler \<Rightarrow> string list" where
  "receiver_caps s =
     (if c_is_topic s then [''topic''] @ (if r_shared_subscriber (rh_set s) then [''shared'', ''global''] else []) else [])"

definition credit_window_opt :: "receiver_handler \<Rightarrow> int option" where
  "credit_window_opt s =
     (if r_duration_time (rh_set s) > 0 \<and> r_recv_credit_window (rh_set s) = - 1 then Some 1
      else if r_recv_credit_window (rh_set s) \<noteq> - 1 then Some (r_recv_credit_window (rh_set s)) else None)"

text \<open>The receiver's options, which the browsing branch and the plain one build alike but for the copy mode.\<close>

definition receiver_opts :: "bool \<Rightarrow> string list \<Rightarrow> receiver_handler \<Rightarrow> recv_opts" where
  "receiver_opts copy caps s =
     \<lparr>ra_capabilities = caps, ra_filter = rh_fm s, ra_copy = copy, ra_durable = subscribing s,
      ra_name = (if subscribing s then Some (rh_durable_subscriber_name s) else None),
      ra_credit_window = credit_window_opt s\<rparr>"

definition receiver_open :: "bool \<Rightarrow> string list \<Rightarrow> conn_opts \<Rightarrow> receiver_handler \<Rightarrow> receiver_handler" where
  "receiver_open copy caps co s =
     (act [dbg [LStr ''Creating a receiver and connecting to the server''], open_connection s co,
       Open_receiver (u_path (h_broker_url s)) (Some (receiver_opts copy caps s))] s)\<lparr>rh_recv := True, h_work_q := True\<rparr>"

definition receiver_listen :: "conn_opts \<Rightarrow> receiver_handler \<Rightarrow> receiver_handler" where
  "receiver_listen co s =
     act [dbg [LStr ''Creating a listener''], Listen (''0.0.0.0:'' @ show_int (r_recv_listen_port (rh_set s))) co] s"

definition receiver_connect :: "string list \<Rightarrow> conn_opts \<Rightarrow> receiver_handler \<Rightarrow> receiver_handler" where
  "receiver_connect caps co s =
     block [act [dbg [LStr ''Browsing: '', LBool (r_browse (rh_set s))]],
       (if r_browse (rh_set s) then receiver_open True caps co
        else (\<lambda>s. block [act [dbg [LStr ''Peer-to-peer: '', LStr (r_recv_listen (rh_set s))],
                              dbg [LStr ''Peer-to-peer port: '', LInt (r_recv_listen_port (rh_set s))]],
                    (if listening s then receiver_listen co else receiver_open False caps co)] s))] s"

text \<open>The end of \<open>on_container_start\<close>, with the clock reading of \<open>get_time\<close>.\<close>

definition receiver_run :: "rat \<Rightarrow> receiver_handler \<Rightarrow> receiver_handler" where
  "receiver_run now s =
     (if r_subscriber_unsubscribe (rh_set s) \<and> rh_durable_subscriber_name s \<noteq> ''''
      then (if rh_recv s then act [Close_receiver, Close_connection] s else crash Bad_access s)
      else block [(\<lambda>s. s\<lparr>rh_ts := now\<rparr>), schedule Immediate Timer_event] s)"

definition receiver_topic :: "string \<Rightarrow> receiver_handler \<Rightarrow> receiver_handler" where
  "receiver_topic client_uuid s =
     block [act (show_settings s @ [dbg [LStr ''Topic: '', LBool (c_is_topic s)]]),
       guard (c_is_topic s \<and> subscribing s)
         (\<lambda>s. createSubscriptionName client_uuid (r_durable_subscriber_prefix (rh_set s)) s)] s"

definition receiver_start :: "rat \<Rightarrow> string \<Rightarrow> receiver_handler \<Rightarrow> receiver_handler" where
  "receiver_start now client_uuid s =
     (let caps = receiver_caps s; (es, co) = finish_conn_opts s (basic_conn_opts s)
      in block
        [act [dbg [LStr ''Starting messaging handler'']],
         (\<lambda>s. if listening s then s\<lparr>h_cont := True\<rparr> else s),
         receiver_topic client_uuid,
         act (show_caps caps @ es),
         receiver_connect caps co,
         act [dbg [LStr ''Connected to the broker/p2p and waiting for messages'']],
         receiver_run now] s)"

subsection \<open>Messages\<close>

definition do_message_action :: "receiver_handler \<Rightarrow> receiver_handler" where
  "do_message_action s =
     (let a = r_msg_action (rh_set s)
      in act ([dbg [LStr ''Message action: '', LStr a], dbg [LStr ''Message action size: '', LInt (r_msg_action_size (rh_set s))]] @
           (if a = ''ack'' then [Accept, dbg [LStr ''Message acknowledged'']]
            else if a = ''reject'' then [Reject, dbg [LStr ''Message rejected'']]
            else if a = ''release'' then [Release, dbg [LStr ''Message released'']]
            else [])) s)"

text \<open>The cache of senders: looked up, and filled by opening a sender on the receiver's connection.\<close>

definition find_sender :: "string \<Rightarrow> receiver_handler \<Rightarrow> receiver_handler" where
  "find_sender r s =
     (if smap_get (rh_senders s) r \<noteq> None
      then act [dbg [LStr ''Sender for '', LStr r, LStr '' found'']] s
      else block
        [act [dbg [LStr ''Sender for '', LStr r, LStr '' not found''], dbg [LStr ''Creating sender for '', LStr r]],
         (\<lambda>s. if rh_recv s then act [Open_sender r None] s else crash Bad_access s),
         (\<lambda>s. s\<lparr>rh_senders := smap_put r r (rh_senders s)\<rparr>),
         act [dbg [LStr ''Sender for '', LStr r, LStr '' created'']]] s)"

definition reply_message :: "message \<Rightarrow> message" where
  "reply_message m = m\<lparr>m_to := m_reply_to m\<rparr>"

definition do_process_reply_to :: "message \<Rightarrow> receiver_handler \<Rightarrow> receiver_handler" where
  "do_process_reply_to m s =
     block
       [act [dbg [LStr ''Processing reply-to'']],
        find_sender (m_reply_to m),
        (\<lambda>s. let r = reply_message m
             in act [dbg [LStr ''Sending reply to '', LStr (m_to r)],
                  Send (the (smap_get (rh_senders s) (m_reply_to m))) r] s)] s"

definition print_received :: "proton_lib \<Rightarrow> message \<Rightarrow> receiver_handler \<Rightarrow> receiver_handler" where
  "print_received L m s =
     block [guard (c_log_msgs s = ''dict'') (act [Log Log_trace [LStr ''Decoding message'']]), print_in_format L m] s"

definition wait_for :: "string \<Rightarrow> log_value list list \<Rightarrow> receiver_handler \<Rightarrow> receiver_handler" where
  "wait_for mode notes s =
     guard (r_duration_time (rh_set s) > 0 \<and> r_duration_mode (rh_set s) = mode)
       (act (map dbg notes @
          [Sleep_for_next (rh_ts s) (r_count (rh_set s)) (r_duration_time (rh_set s)) (rh_msg_received_cnt s)])) s"

text \<open>A remainder by zero is undefined.\<close>

definition act_on_batch :: "receiver_handler \<Rightarrow> receiver_handler" where
  "act_on_batch s =
     (if r_msg_action_size (rh_set s) = 0 then crash Bad_access s
      else guard (r_msg_action_size (rh_set s) dvd rh_msg_received_cnt s) do_message_action s)"

definition answer :: "message \<Rightarrow> receiver_handler \<Rightarrow> receiver_handler" where
  "answer m s =
     block [act [dbg [LStr ''Process-reply-to: '', LBool (r_process_reply_to (rh_set s))]],
       guard (r_process_reply_to (rh_set s))
         (if m_reply_to m \<noteq> ''''
          then (\<lambda>s. block [act [dbg [LStr ''Reply-to address: '', LStr (m_reply_to m)]], do_process_reply_to m] s)
          else act [dbg [LStr ''Reply-to address is not set'']])] s"

definition schedule_drain :: "receiver_handler \<Rightarrow> receiver_handler" where
  "schedule_drain s =
     guard (r_recv_drain_after_credit_window (rh_set s) \<and> rh_msg_received_cnt s = r_recv_credit_window (rh_set s))
       (\<lambda>s. block [act [dbg [LStr ''Scheduling drain'']], add_work Run_drain] s) s"

definition finish_or_reset :: "receiver_handler \<Rightarrow> receiver_handler" where
  "finish_or_reset s =
     (if \<not> r_process_reply_to (rh_set s) \<and> rh_msg_received_cnt s = r_count (rh_set s)
      then act [if r_durable_subscriber (rh_set s) then Detach_receiver else Close_receiver, Close_connection] s
      else reset_timer s)"

definition receiver_message :: "proton_lib \<Rightarrow> message \<Rightarrow> receiver_handler \<Rightarrow> receiver_handler" where
  "receiver_message L m s =
     block
       [(\<lambda>s. s\<lparr>rh_msg_received_cnt := wrap32 (rh_msg_received_cnt s + 1)\<rparr>),
        act [dbg [LStr ''Processing received message'']],
        print_received L m,
        wait_for ''after-receive'' [[LStr ''Waiting...'']],
        act_on_batch,
        wait_for ''after-receive-action'' [],
        answer m,
        schedule_drain,
        finish_or_reset] s"

subsection \<open>The other methods\<close>

definition receiver_drain :: "receiver_handler \<Rightarrow> receiver_handler" where
  "receiver_drain s =
     block [act [dbg [LStr ''Draining...'']],
       (\<lambda>s. if rh_recv s then act [Drain] s else crash Bad_access s)] s"

definition receiver_drain_finish :: "receiver_handler \<Rightarrow> receiver_handler" where
  "receiver_drain_finish s = act [dbg [LStr ''Receiver drain finished'']] s"

definition receiver_tracker_accept :: "receiver_handler \<Rightarrow> receiver_handler" where
  "receiver_tracker_accept s = act [dbg [LStr ''Delivery accepted'']] s"

definition receiver_tracker_reject :: "receiver_handler \<Rightarrow> receiver_handler" where
  "receiver_tracker_reject s = act [dbg [LStr ''Delivery rejected'']] s"

definition receiver_transport_close :: "receiver_handler \<Rightarrow> receiver_handler" where
  "receiver_transport_close s =
     block [act [dbg [LStr ''Closing the transport'']],
       (\<lambda>s. if c_reconnect s = ''false'' then exit_with 1 s
            else if rh_msg_received_cnt s = r_count (rh_set s) then exit_with 0 s else s)] s"

definition receiver_transport_error :: "string \<Rightarrow> receiver_handler \<Rightarrow> receiver_handler" where
  "receiver_transport_error what s = transport_error what s"

definition receiver_connection_close :: "receiver_handler \<Rightarrow> receiver_handler" where
  "receiver_connection_close s = act [dbg [LStr ''Disconnecting ...'']] s"

definition receiver_connection_error :: "string \<Rightarrow> receiver_handler \<Rightarrow> receiver_handler" where
  "receiver_connection_error what s = connection_error what s"

subsection \<open>Events\<close>

datatype receiver_event =
    R_start rat string
  | R_timer
  | R_message message
  | R_drain
  | R_drain_finish
  | R_tracker_accept
  | R_tracker_reject
  | R_transport_error string
  | R_transport_close
  | R_connection_error string
  | R_connection_close

fun receiver_step :: "proton_lib \<Rightarrow> receiver_event \<Rightarrow> receiver_handler \<Rightarrow> receiver_handler" where
  "receiver_step L (R_start now client_uuid) s = receiver_start now client_uuid s"
| "receiver_step L R_timer s = receiver_timerEvent (take_work Timer_event s)"
| "receiver_step L (R_message m) s = receiver_message L m s"
| "receiver_step L R_drain s = receiver_drain (take_work Run_drain s)"
| "receiver_step L R_drain_finish s = receiver_drain_finish s"
| "receiver_step L R_tracker_accept s = receiver_tracker_accept s"
| "receiver_step L R_tracker_reject s = receiver_tracker_reject s"
| "receiver_step L (R_transport_error what) s = receiver_transport_error what s"
| "receiver_step L R_transport_close s = receiver_transport_close s"
| "receiver_step L (R_connection_error what) s = receiver_connection_error what s"
| "receiver_step L R_connection_close s = receiver_connection_close s"

text \<open>
  When the library makes a call: never after the program has stopped, the start once and first, a callback when
  it was scheduled. A message is one that \<open>int\<close> can still count.
\<close>

definition receiver_ok :: "receiver_event \<Rightarrow> receiver_handler \<Rightarrow> bool" where
  "receiver_ok e s =
     (h_halt s = None \<and>
      (case e of
         R_start _ _ \<Rightarrow> \<not> (h_work_q s \<or> h_cont s)
       | R_timer \<Rightarrow> Timer_event \<in> set (h_pending s)
       | R_drain \<Rightarrow> Run_drain \<in> set (h_pending s)
       | R_message _ \<Rightarrow> (h_work_q s \<or> h_cont s) \<and> rh_msg_received_cnt s < INT_MAX
       | _ \<Rightarrow> h_work_q s \<or> h_cont s))"

end
