(* ===== verification/ReceiverLaws.thy ===== *)
theory ReceiverLaws
  imports ReceiverH
begin

text \<open>
  What holds in every run of a receiver: an abstract specification of what the peer sees (\<open>receiver_view\<close>,
  \<open>spec_step\<close>), the proof that the handler implements it, and from the specification what is acknowledged,
  answered and closed; then the time-out, and what a listening receiver cannot do.
\<close>

subsection \<open>The specification\<close>

text \<open>
  What the peer sees of a receiver: acknowledgements, links opened for replies, replies, and the end of links and
  connections. The specification keeps the number of messages received and the addresses that were answered.
\<close>

definition visible :: "effect list \<Rightarrow> effect list" where
  "visible es = filter (\<lambda>e. \<not> silent e) es"

definition spec_action :: "receiver_settings \<Rightarrow> int \<Rightarrow> effect list" where
  "spec_action r k =
     (if r_msg_action_size r dvd k
      then if r_msg_action r = ''ack'' then [Accept] else if r_msg_action r = ''reject'' then [Reject]
        else if r_msg_action r = ''release'' then [Release] else []
      else [])"

definition answers :: "receiver_settings \<Rightarrow> message \<Rightarrow> bool" where
  "answers r m = (r_process_reply_to r \<and> m_reply_to m \<noteq> '''')"

definition spec_reply :: "receiver_settings \<Rightarrow> string set \<Rightarrow> message \<Rightarrow> effect list" where
  "spec_reply r known m =
     (if answers r m
      then (if m_reply_to m \<in> known then [] else [Open_sender (m_reply_to m) None]) @ [Send (m_reply_to m) (reply_message m)]
      else [])"

definition spec_finish :: "receiver_settings \<Rightarrow> int \<Rightarrow> effect list" where
  "spec_finish r k =
     (if \<not> r_process_reply_to r \<and> k = r_count r
      then [if r_durable_subscriber r then Detach_receiver else Close_receiver, Close_connection] else [])"

text \<open>An unsubscribing receiver that has a name ends at once; on a topic it always has one.\<close>

definition spec_start :: "receiver_settings \<Rightarrow> bool \<Rightarrow> effect list" where
  "spec_start r topic =
     (if r_subscriber_unsubscribe r \<and> (topic \<or> r_durable_subscriber_name r \<noteq> '''') then [Close_receiver, Close_connection] else [])"

type_synonym receiver_view = "int \<times> string set"

fun spec_step :: "receiver_settings \<Rightarrow> bool \<Rightarrow> receiver_event \<Rightarrow> receiver_view \<Rightarrow> effect list \<times> receiver_view" where
  "spec_step r topic (R_start _ _) v = (spec_start r topic, v)"
| "spec_step r topic (R_message m) (k, known) =
     (spec_action r (k + 1) @ spec_reply r known m @ spec_finish r (k + 1),
      (k + 1, if answers r m then insert (m_reply_to m) known else known))"
| "spec_step r topic R_drain v = ([Drain], v)"
| "spec_step r topic _ v = ([], v)"

fun spec_run :: "receiver_settings \<Rightarrow> bool \<Rightarrow> receiver_event list \<Rightarrow> receiver_view \<Rightarrow> effect list \<times> receiver_view" where
  "spec_run r topic [] v = ([], v)"
| "spec_run r topic (e # es) v =
     (let (a, v1) = spec_step r topic e v; (b, v2) = spec_run r topic es v1 in (a @ b, v2))"

definition view :: "receiver_handler \<Rightarrow> receiver_view" where
  "view s = (rh_msg_received_cnt s, fst ` set (rh_senders s))"

lemma spec_run_snoc:
  "spec_run r topic (es @ [e]) v =
     (fst (spec_run r topic es v) @ fst (spec_step r topic e (snd (spec_run r topic es v))),
      snd (spec_step r topic e (snd (spec_run r topic es v))))"
  by (induction es arbitrary: v) (simp_all add: Let_def split_beta)

lemma visible_simps [simp]:
  "visible [] = []" "visible (es @ fs) = visible es @ visible fs"
  "visible (e # es) = (if silent e then visible es else e # visible es)"
  by (simp_all add: visible_def)

lemma visible_silent [simp]: "list_all silent es \<Longrightarrow> visible es = []"
  by (auto simp: visible_def list_all_iff filter_empty_conv)

subsection \<open>What each statement shows\<close>

text \<open>
  \<open>emits v sn s t\<close>: the effects grow, and if \<open>t\<close> has not crashed the visible ones are \<open>v\<close>, the cache is \<open>sn\<close>
  and the rest of the receiver is as in \<open>s\<close>.
\<close>

definition same_receiver :: "receiver_handler \<Rightarrow> receiver_handler \<Rightarrow> bool" where
  "same_receiver s t =
     (rh_set t = rh_set s \<and> rh_msg_received_cnt t = rh_msg_received_cnt s \<and> rh_recv t = rh_recv s \<and>
      rh_durable_subscriber_name t = rh_durable_subscriber_name s \<and> c_is_topic t = c_is_topic s \<and>
      h_work_q t = h_work_q s \<and> h_cont t = h_cont s)"

definition emits :: "effect list \<Rightarrow> (string, string) smap \<Rightarrow> receiver_handler \<Rightarrow> receiver_handler \<Rightarrow> bool" where
  "emits v sn s t =
     (prefix (h_effects s) (h_effects t) \<and>
      (crashed t \<or> h_halt t = None \<and> same_receiver s t \<and> rh_senders t = sn \<and>
         visible (h_effects t) = visible (h_effects s) @ v))"

lemma same_receiver_refl [simp]: "same_receiver s s"
  by (simp add: same_receiver_def)

lemma same_receiver_trans: "same_receiver s t \<Longrightarrow> same_receiver t u \<Longrightarrow> same_receiver s u"
  by (simp add: same_receiver_def)

lemma same_receiver_statements [simp]:
  "same_receiver s (act es t) = same_receiver s t" "same_receiver s (schedule d w t) = same_receiver s t"
  "same_receiver s (add_work w t) = same_receiver s t" "same_receiver s (take_work w t) = same_receiver s t"
  "same_receiver s (reset_timer t) = same_receiver s t" "same_receiver s (exit_with n t) = same_receiver s t"
  "same_receiver s (crash e t) = same_receiver s t" "same_receiver s (tick_timer t) = same_receiver s t"
  by (simp_all add: same_receiver_def statement_defs tick_timer_def split: sum.split prod.split)

lemma senders_statements [simp]:
  "rh_senders (act es s) = rh_senders s" "rh_senders (schedule d w s) = rh_senders s"
  "rh_senders (add_work w s) = rh_senders s" "rh_senders (take_work w s) = rh_senders s"
  "rh_senders (reset_timer s) = rh_senders s" "rh_senders (exit_with n s) = rh_senders s"
  "rh_senders (crash e s) = rh_senders s" "rh_senders (tick_timer s) = rh_senders s"
  by (simp_all add: statement_defs tick_timer_def split: sum.split prod.split)

lemma crashed_halt: "crashed s \<Longrightarrow> h_halt s \<noteq> None"
  by (cases "h_halt s") simp_all

lemma emits_crash: "crashed t \<Longrightarrow> prefix (h_effects s) (h_effects t) \<Longrightarrow> emits v sn s t"
  by (simp add: emits_def)

lemma emits_act: "h_halt s = None \<Longrightarrow> visible es = v \<Longrightarrow> rh_senders s = sn \<Longrightarrow> emits v sn s (act es s)"
  by (simp add: emits_def)

lemma emits_nothing: "h_halt s = None \<Longrightarrow> rh_senders s = sn \<Longrightarrow> emits [] sn s s"
  by (simp add: emits_def)

lemma emits_Nil: "h_halt s = None \<Longrightarrow> rh_senders s = sn \<Longrightarrow> emits [] sn s (block [] s)"
  by (simp add: emits_def)

lemma emits_Cons:
  assumes "h_halt s = None" and "emits v sn s (f s)"
    and "h_halt (f s) = None \<Longrightarrow> same_receiver s (f s) \<Longrightarrow> rh_senders (f s) = sn \<Longrightarrow> emits w sn' (f s) (block fs (f s))"
  shows "emits (v @ w) sn' s (block (f # fs) s)"
proof (cases "crashed (f s)")
  case True
  then have "h_halt (f s) \<noteq> None" by (rule crashed_halt)
  then have "block (f # fs) s = f s" using assms(1) block_halted [of "f s" fs] by simp
  with assms(2) True show ?thesis by (simp add: emits_def)
next
  case False
  with assms(2) have t: "h_halt (f s) = None" "same_receiver s (f s)" "rh_senders (f s) = sn" by (simp_all add: emits_def)
  from assms(3) [OF this] assms(1,2) False show ?thesis
    by (auto simp: emits_def intro: same_receiver_trans prefix_order.trans)
qed

lemma emits_Cons_silent:
  assumes "h_halt s = None" and "emits [] sn s (f s)"
    and "h_halt (f s) = None \<Longrightarrow> same_receiver s (f s) \<Longrightarrow> rh_senders (f s) = sn \<Longrightarrow> emits w sn' (f s) (block fs (f s))"
  shows "emits w sn' s (block (f # fs) s)"
  using emits_Cons [of s "[]" sn f w sn' fs] assms by simp

lemma emits_last: "h_halt s = None \<Longrightarrow> emits v sn s (f s) \<Longrightarrow> emits v sn s (block [f] s)"
  using emits_Cons [of s v sn f "[]" sn "[]"] emits_nothing by (simp add: emits_def)

lemma print_emits:
  assumes "h_halt s = None"
  shows "emits [] (rh_senders s) s (print_in_format L m s)"
proof (cases rule: print_in_format_cases [of L m s])
  case (printed es)
  then show ?thesis using assms silent_text_all [OF printed(1)] by (auto intro: emits_act)
qed (auto intro: emits_crash)

lemma print_received_emits:
  assumes "h_halt s = None"
  shows "emits [] (rh_senders s) s (print_received L m s)"
  unfolding print_received_def
proof (rule emits_Cons_silent [OF assms])
  show "emits [] (rh_senders s) s (guard (c_log_msgs s = ''dict'') (act [Log Log_trace [LStr ''Decoding message'']]) s)"
    using assms by (auto simp: guard_def intro!: emits_act emits_nothing)
qed (metis emits_last print_emits)

lemma wait_for_emits: "h_halt s = None \<Longrightarrow> emits [] (rh_senders s) s (wait_for mode notes s)"
  by (auto simp: wait_for_def guard_def list_all_iff intro!: emits_act emits_nothing visible_silent)

lemma act_on_batch_emits:
  "h_halt s = None \<Longrightarrow> emits (spec_action (rh_set s) (rh_msg_received_cnt s)) (rh_senders s) s (act_on_batch s)"
  by (simp add: act_on_batch_def spec_action_def do_message_action_def guard_def Let_def emits_def)

lemma schedule_drain_emits: "h_halt s = None \<Longrightarrow> emits [] (rh_senders s) s (schedule_drain s)"
  by (simp add: schedule_drain_def emits_def guard_def)

lemma finish_emits:
  "h_halt s = None \<Longrightarrow> emits (spec_finish (rh_set s) (rh_msg_received_cnt s)) (rh_senders s) s (finish_or_reset s)"
  by (auto simp: finish_or_reset_def spec_finish_def emits_def)

text \<open>The cache: every sender in it was opened for the address it is filed under.\<close>

definition cache_ok :: "(string, string) smap \<Rightarrow> bool" where
  "cache_ok sn = (smap_sorted sn \<and> (\<forall>a. smap_get sn a = (if a \<in> fst ` set sn then Some a else None)))"

lemma cache_ok_put: "cache_ok sn \<Longrightarrow> cache_ok (smap_put a a sn)"
  by (auto simp: cache_ok_def smap.invar_put smap.get_put smap_put_keys)

lemma cache_ok_Nil: "cache_ok []"
  by (simp add: cache_ok_def smap.get_empty smap.invar_empty)

definition cache_after :: "receiver_settings \<Rightarrow> message \<Rightarrow> (string, string) smap \<Rightarrow> (string, string) smap" where
  "cache_after r m sn =
     (if answers r m \<and> m_reply_to m \<notin> fst ` set sn then smap_put (m_reply_to m) (m_reply_to m) sn else sn)"

lemma cache_after_ok: "cache_ok sn \<Longrightarrow> cache_ok (cache_after r m sn)"
  by (simp add: cache_after_def cache_ok_put)

lemma cache_after_keys:
  "fst ` set (cache_after r m sn) = (if answers r m then insert (m_reply_to m) (fst ` set sn) else fst ` set sn)"
  by (auto simp: cache_after_def smap_put_keys)

lemma find_sender_emits:
  assumes "h_halt s = None" and "cache_ok (rh_senders s)"
  shows "emits (if a \<in> fst ` set (rh_senders s) then [] else [Open_sender a None])
    (if a \<in> fst ` set (rh_senders s) then rh_senders s else smap_put a a (rh_senders s)) s (find_sender a s)"
  using assms by (simp add: find_sender_def cache_ok_def emits_def)
    (simp add: same_receiver_def act_def)

lemma answer_emits:
  assumes "h_halt s = None" and "cache_ok (rh_senders s)"
  shows "emits (spec_reply (rh_set s) (fst ` set (rh_senders s)) m) (cache_after (rh_set s) m (rh_senders s)) s (answer m s)"
proof (cases "answers (rh_set s) m")
  case False
  then show ?thesis
    using assms
    by (auto simp: answers_def answer_def spec_reply_def cache_after_def emits_def guard_def)
next
  case True
  let ?a = "m_reply_to m"
  let ?g1 = "act [dbg [LStr ''Process-reply-to: '', LBool (r_process_reply_to (rh_set s))]]"
  let ?g2 = "act [dbg [LStr ''Reply-to address: '', LStr ?a]]"
  define t where "t = act [dbg [LStr ''Processing reply-to'']] (?g2 (?g1 s))"
  have t: "h_halt t = None" "rh_senders t = rh_senders s" "same_receiver s t" "prefix (h_effects s) (h_effects t)"
    "visible (h_effects t) = visible (h_effects s)" using assms by (simp_all add: t_def)
  have eq: "answer m s = block [find_sender ?a,
      (\<lambda>s. act [dbg [LStr ''Sending reply to '', LStr (m_to (reply_message m))],
           Send (the (smap_get (rh_senders s) ?a)) (reply_message m)] s)] t"
    using True assms(1) by (simp add: t_def answer_def answers_def do_process_reply_to_def Let_def)
  have "emits (spec_reply (rh_set s) (fst ` set (rh_senders s)) m) (cache_after (rh_set s) m (rh_senders s)) t (answer m s)"
    unfolding eq spec_reply_def cache_after_def if_P [OF True]
  proof (rule emits_Cons [OF t(1)])
    show "emits (if ?a \<in> fst ` set (rh_senders s) then [] else [Open_sender ?a None])
        (if ?a \<in> fst ` set (rh_senders s) then rh_senders s else smap_put ?a ?a (rh_senders s)) t (find_sender ?a t)"
      using find_sender_emits [OF t(1), of ?a] assms(2) unfolding t(2) by blast
  next
    let ?u = "find_sender ?a t"
    assume "h_halt ?u = None"
      and u: "rh_senders ?u = (if ?a \<in> fst ` set (rh_senders s) then rh_senders s else smap_put ?a ?a (rh_senders s))"
    moreover have "smap_get (rh_senders ?u) ?a = Some ?a"
      unfolding u using assms(2) by (simp add: cache_ok_def smap.get_put)
    ultimately show "emits [Send ?a (reply_message m)]
        (if answers (rh_set s) m \<and> ?a \<notin> fst ` set (rh_senders s) then smap_put ?a ?a (rh_senders s) else rh_senders s) ?u
        (block [\<lambda>s. act [dbg [LStr ''Sending reply to '', LStr (m_to (reply_message m))],
             Send (the (smap_get (rh_senders s) ?a)) (reply_message m)] s] ?u)"
      using True by (intro emits_last emits_act) (auto simp: u)
  qed
  then show ?thesis using t by (auto simp: emits_def intro: same_receiver_trans prefix_order.trans)
qed

text \<open>
  A statement's contract, in every state that is like \<open>s\<close> but for the cache; contracts compose along a block.
\<close>

definition contract :: "effect list \<Rightarrow> (string, string) smap \<Rightarrow> (string, string) smap \<Rightarrow> receiver_handler \<Rightarrow>
    (receiver_handler \<Rightarrow> receiver_handler) \<Rightarrow> bool" where
  "contract v a b s f = (\<forall>t. h_halt t = None \<longrightarrow> same_receiver s t \<longrightarrow> rh_senders t = a \<longrightarrow> emits v b t (f t))"

lemma contract_Nil: "contract [] a a s (block [])"
  by (simp add: contract_def emits_nothing)

lemma contract_Cons:
  assumes "contract v a b s f" and "contract w b c s (block fs)"
  shows "contract (v @ w) a c s (block (f # fs))"
proof -
  have "emits (v @ w) c t (block (f # fs) t)" if t: "h_halt t = None" "same_receiver s t" "rh_senders t = a" for t
  proof (rule emits_Cons [OF t(1)])
    show "emits v b t (f t)" using assms(1) t by (simp add: contract_def)
    show "h_halt (f t) = None \<Longrightarrow> same_receiver t (f t) \<Longrightarrow> rh_senders (f t) = b \<Longrightarrow> emits w c (f t) (block fs (f t))"
      using assms(2) t(2) by (auto simp: contract_def intro: same_receiver_trans)
  qed
  then show ?thesis by (simp add: contract_def)
qed

lemma contract_emits: "contract v (rh_senders s) b s f \<Longrightarrow> h_halt s = None \<Longrightarrow> emits v b s (f s)"
  by (simp add: contract_def)

lemma contract_statements:
  "list_all silent es \<Longrightarrow> contract [] a a s (act es)"
  "contract [] a a s (print_received L m)"
  "contract [] a a s (wait_for mode notes)"
  "contract (spec_action (rh_set s) (rh_msg_received_cnt s)) a a s act_on_batch"
  "cache_ok a \<Longrightarrow> contract (spec_reply (rh_set s) (fst ` set a) m) a (cache_after (rh_set s) m a) s (answer m)"
  "contract [] a a s schedule_drain"
  "contract (spec_finish (rh_set s) (rh_msg_received_cnt s)) a a s finish_or_reset"
proof -
  show "list_all silent es \<Longrightarrow> contract [] a a s (act es)" by (simp add: contract_def emits_act)
  show "contract [] a a s (print_received L m)" unfolding contract_def using print_received_emits by blast
  show "contract [] a a s (wait_for mode notes)" unfolding contract_def using wait_for_emits by blast
  show "contract [] a a s schedule_drain" unfolding contract_def using schedule_drain_emits by blast
  show "contract (spec_action (rh_set s) (rh_msg_received_cnt s)) a a s act_on_batch"
    unfolding contract_def same_receiver_def using act_on_batch_emits by metis
  show "contract (spec_finish (rh_set s) (rh_msg_received_cnt s)) a a s finish_or_reset"
    unfolding contract_def same_receiver_def using finish_emits by metis
  show "cache_ok a \<Longrightarrow> contract (spec_reply (rh_set s) (fst ` set a) m) a (cache_after (rh_set s) m a) s (answer m)"
    unfolding contract_def same_receiver_def using answer_emits by metis
qed

text \<open>A message as a whole: the count goes up first, and everything else depends on the new count.\<close>

lemma receiver_message_emits:
  fixes s :: receiver_handler
  assumes h: "h_halt s = None" and c: "cache_ok (rh_senders s)" "int32 (rh_msg_received_cnt s + 1)"
  defines "t \<equiv> s\<lparr>rh_msg_received_cnt := rh_msg_received_cnt s + 1\<rparr>"
  shows "emits (spec_action (rh_set s) (rh_msg_received_cnt t) @ spec_reply (rh_set s) (fst ` set (rh_senders s)) m @
      spec_finish (rh_set s) (rh_msg_received_cnt t)) (cache_after (rh_set s) m (rh_senders s)) t (receiver_message L m s)"
proof -
  let ?k = "rh_msg_received_cnt s + 1"
  let ?a = "rh_senders t" and ?b = "cache_after (rh_set t) m (rh_senders t)"
  have w: "wrap32 ?k = ?k" using c(2) by (rule wrap32_id)
  have t: "h_halt t = None" "rh_set t = rh_set s" "rh_senders t = rh_senders s"
    using h by (simp_all add: t_def)
  have ok: "cache_ok ?a" using c(1) t(3) by simp
  let ?fs = "[act [dbg [LStr ''Processing received message'']], print_received L m,
      wait_for ''after-receive'' [[LStr ''Waiting...'']], act_on_batch, wait_for ''after-receive-action'' [], answer m,
      schedule_drain, finish_or_reset]"
  have "receiver_message L m s = block ?fs t"
    using h by (simp add: receiver_message_def w t_def)
  moreover have "contract ([] @ [] @ [] @ spec_action (rh_set t) (rh_msg_received_cnt t) @ [] @
      spec_reply (rh_set t) (fst ` set ?a) m @ [] @ spec_finish (rh_set t) (rh_msg_received_cnt t) @ []) ?a ?b t (block ?fs)"
  proof -
    note rules = contract_statements(2-4,6,7) contract_statements(1) [where es = "[dbg vs]" for vs, simplified]
      contract_statements(5) [OF ok]
    show ?thesis by (rule contract_Cons, rule rules)+ (rule contract_Nil)
  qed
  ultimately show ?thesis using contract_emits [OF _ t(1)] t by (simp del: block.simps)
qed

subsection \<open>Every step implements the specification\<close>

definition receiver_shape :: "receiver_settings \<Rightarrow> bool \<Rightarrow> receiver_handler \<Rightarrow> bool" where
  "receiver_shape r topic s =
     (rh_set s = r \<and> c_is_topic s = topic \<and> 0 \<le> rh_msg_received_cnt s \<and> cache_ok (rh_senders s) \<and>
      (\<not> (h_work_q s \<or> h_cont s) \<longrightarrow> rh_durable_subscriber_name s = r_durable_subscriber_name r) \<and>
      (r_recv_listen r = ''true'' \<and> \<not> r_browse r \<longrightarrow> \<not> rh_recv s))"

definition follows :: "receiver_settings \<Rightarrow> bool \<Rightarrow> receiver_event \<Rightarrow> receiver_handler \<Rightarrow> receiver_handler \<Rightarrow> bool" where
  "follows r topic e s t =
     (prefix (h_effects s) (h_effects t) \<and>
      (crashed t \<or> receiver_shape r topic t \<and>
         visible (h_effects t) = visible (h_effects s) @ fst (spec_step r topic e (view s)) \<and>
         view t = snd (spec_step r topic e (view s))))"

text \<open>A step that shows nothing and leaves the receiver as it is.\<close>

definition quietly :: "receiver_handler \<Rightarrow> receiver_handler \<Rightarrow> bool" where
  "quietly s t = (same_receiver s t \<and> rh_senders t = rh_senders s \<and> prefix (h_effects s) (h_effects t) \<and>
     visible (h_effects t) = visible (h_effects s))"

lemma follows_quietly:
  assumes "receiver_shape r topic s" and "quietly s t" and "spec_step r topic e (view s) = ([], view s)"
  shows "follows r topic e s t"
  using assms by (auto simp: quietly_def follows_def receiver_shape_def same_receiver_def view_def)

text \<open>The start up to the decision whether to unsubscribe: nothing visible, and only the connection is new.\<close>

definition prepared :: "receiver_handler \<Rightarrow> receiver_handler \<Rightarrow> bool" where
  "prepared s t =
     (h_halt t = None \<and> prefix (h_effects s) (h_effects t) \<and> visible (h_effects t) = visible (h_effects s) \<and>
      rh_set t = rh_set s \<and> c_is_topic t = c_is_topic s \<and> rh_msg_received_cnt t = rh_msg_received_cnt s \<and>
      rh_senders t = rh_senders s \<and> h_pending t = h_pending s \<and> h_timer t = h_timer s)"

lemma prepared_trans: "prepared s t \<Longrightarrow> prepared t u \<Longrightarrow> prepared s u"
  by (auto simp: prepared_def intro: prefix_order.trans)

lemma prepared_act: "h_halt s = None \<Longrightarrow> visible es = [] \<Longrightarrow> prepared s (act es s)"
  by (simp add: prepared_def) (simp add: act_def)

lemma prepared_halt: "prepared s t \<Longrightarrow> h_halt t = None"
  by (simp add: prepared_def)

lemma act_receiver [simp]:
  "h_work_q (act es (s :: receiver_handler)) = h_work_q s" "h_cont (act es s) = h_cont s" "rh_recv (act es s) = rh_recv s"
  "rh_durable_subscriber_name (act es s) = rh_durable_subscriber_name s" "listening (act es s) = listening s"
  by (simp_all add: act_def listening_def)

lemma receiver_topic_prepared:
  fixes s :: receiver_handler
  assumes "h_halt s = None"
  shows "prepared s (receiver_topic client_uuid s)"
    "h_work_q (receiver_topic client_uuid s) = h_work_q s" "h_cont (receiver_topic client_uuid s) = h_cont s"
    "rh_recv (receiver_topic client_uuid s) = rh_recv s"
    "rh_durable_subscriber_name (receiver_topic client_uuid s) \<noteq> '''' \<longleftrightarrow>
       rh_durable_subscriber_name s \<noteq> '''' \<or> c_is_topic s \<and> subscribing s"
proof -
  have "visible (show_settings s) = []" by (rule visible_silent, rule silent_start)
  then show "prepared s (receiver_topic client_uuid s)"
    using assms by (simp add: prepared_def receiver_topic_def guard_def createSubscriptionName_def Let_def) (simp add: act_def)
qed (use assms in \<open>simp_all add: receiver_topic_def guard_def createSubscriptionName_def Let_def act_def subscribing_def\<close>)

lemma receiver_connect_prepared:
  fixes s :: receiver_handler
  assumes "h_halt s = None"
  shows "prepared s (receiver_connect caps co s)"
    "h_work_q (receiver_connect caps co s) \<or> h_cont (receiver_connect caps co s) \<longleftrightarrow>
       h_work_q s \<or> h_cont s \<or> r_browse (rh_set s) \<or> \<not> listening s"
    "rh_durable_subscriber_name (receiver_connect caps co s) = rh_durable_subscriber_name s"
    "rh_recv (receiver_connect caps co s) \<longleftrightarrow> rh_recv s \<or> r_browse (rh_set s) \<or> \<not> listening s"
proof -
  have "silent (open_connection s' co)" for s' :: receiver_handler by (rule silent_start)
  with assms show "prepared s (receiver_connect caps co s)"
    by (simp add: prepared_def receiver_connect_def receiver_open_def receiver_listen_def) (simp add: act_def)
qed (use assms in \<open>auto simp: receiver_connect_def receiver_open_def receiver_listen_def listening_def act_def\<close>)

lemma receiver_start_prepared:
  fixes s :: receiver_handler
  assumes h: "h_halt s = None"
  obtains u where "receiver_start now client_uuid s = receiver_run now u" "prepared s u" "h_work_q u \<or> h_cont u"
    "rh_durable_subscriber_name u \<noteq> '''' \<longleftrightarrow> rh_durable_subscriber_name s \<noteq> '''' \<or> c_is_topic s \<and> subscribing s"
    "rh_recv u \<longleftrightarrow> rh_recv s \<or> r_browse (rh_set s) \<or> \<not> listening s"
proof -
  obtain es co where f: "finish_conn_opts s (basic_conn_opts s) = (es, co)"
    by (cases "finish_conn_opts s (basic_conn_opts s)")
  let ?caps = "receiver_caps s"
  have q: "visible (show_caps ?caps @ es) = []"
    using silent_start(3) [of s "basic_conn_opts s"] silent_start(2) [of ?caps] by (simp add: f)
  let ?hello = "act [dbg [LStr ''Starting messaging handler'']] s"
  define a where "a = (if listening ?hello then ?hello\<lparr>h_cont := True\<rparr> else ?hello)"
  have a: "prepared s a" "listening s \<Longrightarrow> h_cont a" "rh_durable_subscriber_name a = rh_durable_subscriber_name s"
    "subscribing a = subscribing s" "rh_recv a = rh_recv s"
    using h by (simp_all add: a_def prepared_def subscribing_def) (simp_all add: act_def)
  note ah = prepared_halt [OF a(1)]
  define b where "b = receiver_topic client_uuid a"
  note b = receiver_topic_prepared [OF ah, of client_uuid, folded b_def]
  define c where "c = act (show_caps ?caps @ es) b"
  have bc: "prepared b c" using prepared_act [OF prepared_halt [OF b(1)] q] by (simp add: c_def)
  have sc: "prepared s c" by (rule prepared_trans [OF a(1) prepared_trans [OF b(1) bc]])
  note d = receiver_connect_prepared [OF prepared_halt [OF sc], of ?caps co]
  let ?last = "[dbg [LStr ''Connected to the broker/p2p and waiting for messages'']]"
  define u where "u = act ?last (receiver_connect ?caps co c)"
  have cu: "prepared c u" using prepared_trans [OF d(1) prepared_act [OF prepared_halt [OF d(1)], of ?last]] by (simp add: u_def)
  have same: "rh_set c = rh_set s" "c_is_topic a = c_is_topic s" using sc a(1) by (simp_all add: prepared_def)
  show thesis
  proof (rule that [of u])
    show "receiver_start now client_uuid s = receiver_run now u"
      using h ah prepared_halt [OF b(1)] prepared_halt [OF sc] prepared_halt [OF d(1)]
      by (simp add: receiver_start_def f Let_def u_def c_def b_def a_def)
    show "prepared s u" by (rule prepared_trans [OF sc cu])
    show "h_work_q u \<or> h_cont u" using d(2) a(2) b(3) same(1) by (auto simp: u_def c_def listening_def)
    show "rh_durable_subscriber_name u \<noteq> '''' \<longleftrightarrow> rh_durable_subscriber_name s \<noteq> '''' \<or> c_is_topic s \<and> subscribing s"
      using d(3) b(5) a same(2) by (simp add: u_def c_def)
    show "rh_recv u \<longleftrightarrow> rh_recv s \<or> r_browse (rh_set s) \<or> \<not> listening s"
      using d(4) b(4) a(5) same(1) by (simp add: u_def c_def listening_def)
  qed
qed

lemma take_work_state [simp]:
  "view (take_work w s) = view s" "receiver_shape r topic (take_work w s) = receiver_shape r topic s"
  by (simp_all add: take_work_def view_def receiver_shape_def)

lemma act_view [simp]: "view (act es s) = view s" "receiver_shape r topic (act es s) = receiver_shape r topic s"
  by (simp_all add: act_def view_def receiver_shape_def)

lemma schedule_view [simp]: "view (schedule d w s) = view s" "receiver_shape r topic (schedule d w s) = receiver_shape r topic s"
  by (simp_all add: schedule_def view_def receiver_shape_def)

lemma ts_view [simp]: "view (s\<lparr>rh_ts := x\<rparr>) = view s" "receiver_shape r topic (s\<lparr>rh_ts := x\<rparr>) = receiver_shape r topic s"
  by (simp_all add: view_def receiver_shape_def)

lemma receiver_start_follows:
  assumes "receiver_shape r topic s" and "receiver_ok (R_start now client_uuid) s"
  shows "follows r topic (R_start now client_uuid) s (receiver_start now client_uuid s)"
proof -
  have h: "h_halt s = None" "\<not> (h_work_q s \<or> h_cont s)" using assms(2) by (simp_all add: receiver_ok_def)
  obtain u where u: "receiver_start now client_uuid s = receiver_run now u" "prepared s u" "h_work_q u \<or> h_cont u"
    "rh_durable_subscriber_name u \<noteq> '''' \<longleftrightarrow> rh_durable_subscriber_name s \<noteq> '''' \<or> c_is_topic s \<and> subscribing s"
    "rh_recv u \<longleftrightarrow> rh_recv s \<or> r_browse (rh_set s) \<or> \<not> listening s"
    using receiver_start_prepared [OF h(1)] .
  have shape: "receiver_shape r topic u" "view u = view s" "rh_set u = r"
    using assms(1) u(2,3,5) by (auto simp: receiver_shape_def prepared_def view_def listening_def)
  have name: "r_subscriber_unsubscribe r \<Longrightarrow>
      rh_durable_subscriber_name u \<noteq> '''' \<longleftrightarrow> topic \<or> r_durable_subscriber_name r \<noteq> ''''"
    using u(4) assms(1) h(2) by (auto simp: receiver_shape_def subscribing_def)
  have hu: "h_halt u = None" "prefix (h_effects s) (h_effects u)" "visible (h_effects u) = visible (h_effects s)"
    using u(2) by (simp_all add: prepared_def)
  show ?thesis
  proof (cases "r_subscriber_unsubscribe r \<and> rh_durable_subscriber_name u \<noteq> ''''")
    case True
    then have "spec_start r topic = [Close_receiver, Close_connection]" using name by (simp add: spec_start_def)
    then show ?thesis using shape hu True by (simp add: u(1) receiver_run_def follows_def)
  next
    case False
    then have "spec_start r topic = []" using name by (auto simp: spec_start_def)
    moreover have "receiver_run now u = schedule Immediate Timer_event (u\<lparr>rh_ts := now\<rparr>)"
      using False shape(3) hu(1) by (auto simp: receiver_run_def)
    ultimately show ?thesis using shape hu by (simp add: u(1) follows_def)
  qed
qed

lemma receiver_message_follows:
  assumes shape: "receiver_shape r topic s" and ok: "receiver_ok (R_message m) s"
  shows "follows r topic (R_message m) s (receiver_message L m s)"
proof -
  let ?k = "rh_msg_received_cnt s + 1" and ?u = "receiver_message L m s"
  let ?t = "s\<lparr>rh_msg_received_cnt := ?k\<rparr>"
  have s: "h_halt s = None" "rh_set s = r" "cache_ok (rh_senders s)" "0 \<le> rh_msg_received_cnt s" "int32 ?k"
    "h_work_q s \<or> h_cont s" "c_is_topic s = topic" "r_recv_listen r = ''true'' \<and> \<not> r_browse r \<longrightarrow> \<not> rh_recv s"
    using shape ok by (simp_all add: receiver_shape_def receiver_ok_def int32_def int_limits)
  from receiver_message_emits [OF s(1,3,5), of m L]
  have p: "prefix (h_effects s) (h_effects ?u)"
    and e: "crashed ?u \<or> same_receiver ?t ?u \<and> rh_senders ?u = cache_after r m (rh_senders s) \<and>
      visible (h_effects ?u) = visible (h_effects s) @ fst (spec_step r topic (R_message m) (view s))"
    unfolding emits_def view_def by (simp_all add: s(2)) blast
  show ?thesis
  proof (cases "crashed ?u")
    case False
    with e have u: "same_receiver ?t ?u" "rh_senders ?u = cache_after r m (rh_senders s)" by simp_all
    then have "receiver_shape r topic ?u" using s cache_after_ok [of "rh_senders s" r m]
      unfolding receiver_shape_def same_receiver_def by simp
    moreover have "view ?u = snd (spec_step r topic (R_message m) (view s))"
      using u by (simp add: view_def same_receiver_def cache_after_keys)
    ultimately show ?thesis using p e False by (simp add: follows_def)
  qed (use p in \<open>simp add: follows_def\<close>)
qed

lemma quietly_timer: "h_halt s = None \<Longrightarrow> quietly s (receiver_timerEvent s)"
  by (cases "is_expired (h_timer s)"; cases "h_halt (tick_timer s)") (simp_all add: receiver_timerEvent_def quietly_def)

lemma quietly_peer:
  assumes "h_halt s = None"
  shows "quietly s (receiver_drain_finish s)" "quietly s (receiver_tracker_accept s)" "quietly s (receiver_tracker_reject s)"
    "quietly s (receiver_transport_close s)" "quietly s (receiver_transport_error w s)"
    "quietly s (receiver_connection_close s)" "quietly s (receiver_connection_error w s)"
  using assms
  by (simp_all add: quietly_def receiver_drain_finish_def receiver_tracker_accept_def receiver_tracker_reject_def
      receiver_transport_close_def receiver_transport_error_def transport_error_def receiver_connection_close_def
      receiver_connection_error_def connection_error_def interrupted_def guard_def)

lemma receiver_follows:
  assumes "receiver_shape r topic s" and "receiver_ok e s"
  shows "follows r topic e s (receiver_step L e s)"
proof -
  have h: "h_halt s = None" "h_halt (take_work w s) = None" for w using assms(2) by (simp_all add: receiver_ok_def)
  note peer = follows_quietly [OF assms(1) quietly_peer(1) [OF h(1)]] follows_quietly [OF assms(1) quietly_peer(2) [OF h(1)]]
    follows_quietly [OF assms(1) quietly_peer(3) [OF h(1)]] follows_quietly [OF assms(1) quietly_peer(4) [OF h(1)]]
    follows_quietly [OF assms(1) quietly_peer(5) [OF h(1)]] follows_quietly [OF assms(1) quietly_peer(6) [OF h(1)]]
    follows_quietly [OF assms(1) quietly_peer(7) [OF h(1)]]
  show ?thesis
  proof (cases e)
    case (R_start now client_uuid)
    then show ?thesis using receiver_start_follows assms by simp
  next
    case (R_message m)
    then show ?thesis using receiver_message_follows assms by simp
  next
    case R_timer
    have "receiver_shape r topic (take_work Timer_event s)" using assms(1) by simp
    from follows_quietly [OF this quietly_timer [OF h(2)], of R_timer] R_timer
    show ?thesis by (simp add: follows_def)
  next
    case R_drain
    then show ?thesis using assms(1) h by (simp add: receiver_drain_def follows_def)
  qed (simp_all add: peer)
qed

subsection \<open>Every run\<close>

definition receiver_tracks :: "receiver_settings \<Rightarrow> bool \<Rightarrow> receiver_event list \<times> receiver_handler \<Rightarrow> bool" where
  "receiver_tracks r topic p =
     (crashed (snd p) \<or> receiver_shape r topic (snd p) \<and>
        spec_run r topic (fst p) (0, {}) = (visible (h_effects (snd p)), view (snd p)))"

lemma receiver_tracks_step:
  assumes "receiver_tracks r topic p" and "receiver_ok e (snd p)"
  shows "receiver_tracks r topic (traced (receiver_step L) e p)"
proof -
  have "h_halt (snd p) = None" using assms(2) by (simp add: receiver_ok_def)
  then have "receiver_shape r topic (snd p)"
    and run: "spec_run r topic (fst p) (0, {}) = (visible (h_effects (snd p)), view (snd p))"
    using assms(1) by (auto simp: receiver_tracks_def)
  from receiver_follows [OF this(1) assms(2), of L] show ?thesis
    by (auto simp: receiver_tracks_def traced_def follows_def spec_run_snoc run)
qed

lemma receiver_grows:
  assumes "receiver_tracks r topic p" and "receiver_ok e (snd p)"
  shows "prefix (h_effects (snd p)) (h_effects (snd (traced (receiver_step L) e p)))"
proof -
  have "h_halt (snd p) = None" using assms(2) by (simp add: receiver_ok_def)
  then have "receiver_shape r topic (snd p)" using assms(1) by (auto simp: receiver_tracks_def)
  from receiver_follows [OF this assms(2), of L] show ?thesis by (simp add: follows_def traced_def)
qed

interpretation receiver: event_handler "traced (receiver_step L)" "\<lambda>e p. receiver_ok e (snd p)" "receiver_tracks r topic"
  "\<lambda>p. h_effects (snd p)" for L r topic
  by unfold_locales (blast intro: receiver_tracks_step receiver_grows)+

text \<open>A new receiver, with the selector the client may set.\<close>

definition receiver_for :: "receiver_handler \<Rightarrow> string option \<Rightarrow> receiver_handler" where
  "receiver_for s0 selector = (case selector of None \<Rightarrow> s0 | Some t \<Rightarrow> setSelector t s0)"

lemma receiver_new_state:
  assumes "receiver_new url timeout c r = Inr s0"
  shows "receiver_shape r (c_is_topic c) (receiver_for s0 sel)" "view (receiver_for s0 sel) = (0, {})"
    "h_effects (receiver_for s0 sel) = [Log Log_debug [LStr ''Creating a handler for '', LStr url]]"
    "h_halt (receiver_for s0 sel) = None" "h_timer (receiver_for s0 sel) = timer_new timeout ''timeout''"
    "\<not> (h_work_q (receiver_for s0 sel) \<or> h_cont (receiver_for s0 sel))" "h_pending (receiver_for s0 sel) = []"
    "rh_set (receiver_for s0 sel) = r" "c_log_msgs (receiver_for s0 sel) = c_log_msgs c"
    "c_reconnect (receiver_for s0 sel) = c_reconnect c" "\<not> rh_recv (receiver_for s0 sel)" "rh_senders (receiver_for s0 sel) = []"
proof -
  from assms obtain h where h: "common_handler_new url timeout c = Inr h"
    and s0: "s0 = common_handler.extend h
      (receiver_handler.fields r False 0 None (r_durable_subscriber_name r) (Scaled timeout Second) 0 [])"
    by (auto simp: receiver_new_def res_bind_eq_Inr)
  note n = common_handler_new_state [OF h]
  have "c_is_topic h = c_is_topic c" "c_log_msgs h = c_log_msgs c" "c_reconnect h = c_reconnect c" using n(7) by (auto simp: conn_settings.defs)
  with n show "receiver_shape r (c_is_topic c) (receiver_for s0 sel)" "view (receiver_for s0 sel) = (0, {})"
    "h_effects (receiver_for s0 sel) = [Log Log_debug [LStr ''Creating a handler for '', LStr url]]"
    "h_halt (receiver_for s0 sel) = None" "h_timer (receiver_for s0 sel) = timer_new timeout ''timeout''"
    "\<not> (h_work_q (receiver_for s0 sel) \<or> h_cont (receiver_for s0 sel))" "h_pending (receiver_for s0 sel) = []"
    "rh_set (receiver_for s0 sel) = r" "c_log_msgs (receiver_for s0 sel) = c_log_msgs c"
    "c_reconnect (receiver_for s0 sel) = c_reconnect c" "\<not> rh_recv (receiver_for s0 sel)" "rh_senders (receiver_for s0 sel) = []"
    by (simp_all add: receiver_for_def setSelector_def s0 common_handler.defs receiver_handler.defs receiver_shape_def view_def
        cache_ok_Nil split: option.split)
qed

lemma receiver_run_tracks:
  assumes "receiver_new url timeout c r = Inr s0"
    and "run_events (receiver_step L) receiver_ok es (receiver_for s0 sel) = Some s"
  shows "receiver_tracks r (c_is_topic c) (es, s)"
proof -
  note n = receiver_new_state [OF assms(1), of sel]
  have "receiver_tracks r (c_is_topic c) ([], receiver_for s0 sel)"
    using n(1-3) by (simp add: receiver_tracks_def)
  with receiver.reaches_inv [OF run_traced [OF assms(2), of "[]"]] show ?thesis by simp
qed

text \<open>
  C2. A receiver does what its specification says: whatever the order of the library's calls, the
  acknowledgements, the links and replies, the drain and the closing calls it makes are those of the
  specification, in the same order, unless an exception has ended the run.
\<close>

theorem receiver_implements_spec:
  assumes "receiver_new url timeout c r = Inr s0"
    and "run_events (receiver_step L) receiver_ok es (receiver_for s0 sel) = Some s" and "\<not> crashed s"
  shows "visible (h_effects s) = fst (spec_run r (c_is_topic c) es (0, {}))"
  using receiver_run_tracks [OF assms(1,2)] assms(3) by (simp add: receiver_tracks_def)

subsection \<open>What follows from the specification\<close>

definition received :: "receiver_event list \<Rightarrow> message list" where
  "received es = concat (map (\<lambda>e. case e of R_message m \<Rightarrow> [m] | _ \<Rightarrow> []) es)"

lemma received_simps [simp]:
  "received [] = []" "received (es @ fs) = received es @ received fs"
  "received (e # es) = (case e of R_message m \<Rightarrow> [m] | _ \<Rightarrow> []) @ received es"
  by (simp_all add: received_def)

lemma visible_observations:
  "\<not> silent a \<Longrightarrow> times a (visible es) = times a es" "sent_messages (visible es) = sent_messages es"
  "opened (visible es) = opened es" "list_all P (visible es) = list_all (\<lambda>e. silent e \<or> P e) es"
proof -
  show "\<not> silent a \<Longrightarrow> times a (visible es) = times a es" by (induction es) auto
  show "sent_messages (visible es) = sent_messages es" "opened (visible es) = opened es"
    by (induction es) (auto split: effect.split)
  show "list_all P (visible es) = list_all (\<lambda>e. silent e \<or> P e) es" by (induction es) auto
qed

lemma spec_view:
  "snd (spec_run r topic es (0, {})) = (int (length (received es)), m_reply_to ` set (filter (answers r) (received es)))"
proof (induction es rule: rev_induct)
  case (snoc e es)
  then show ?case by (cases e) (simp_all add: spec_run_snoc)
qed simp

lemma spec_snoc:
  "fst (spec_run r topic (es @ [e]) (0, {})) = fst (spec_run r topic es (0, {})) @
     fst (spec_step r topic e (int (length (received es)), m_reply_to ` set (filter (answers r) (received es))))"
  by (simp add: spec_run_snoc spec_view)

lemma spec_start_times: "times Accept (spec_start r t) = 0" "times Reject (spec_start r t) = 0"
  "times Release (spec_start r t) = 0" "sent_messages (spec_start r t) = []" "opened (spec_start r t) = []"
  by (simp_all add: spec_start_def)

lemma spec_acts:
  assumes "\<not> silent a" and "a \<in> {Accept, Reject, Release}" and "0 < r_msg_action_size r"
  shows "times a (fst (spec_run r topic es (0, {}))) =
    (if [a] = spec_action r 0 then length (received es) div nat (r_msg_action_size r) else 0)"
proof (induction es rule: rev_induct)
  case (snoc e es)
  obtain n where n: "r_msg_action_size r = int n" "0 < n" using assms(3) by (metis zero_less_imp_eq_int)
  show ?case
  proof (cases e)
    case (R_message m)
    let ?k = "length (received es)"
    have none: "times a (spec_reply r known m) = 0" "times a (spec_finish r k) = 0" for known k
      using assms(2) by (auto simp: spec_reply_def spec_finish_def)
    have "r_msg_action_size r dvd int ?k + 1 \<longleftrightarrow> Suc ?k mod n = 0"
      unfolding n(1) by (metis int_dvd_int_iff dvd_eq_mod_eq_0 of_nat_Suc add.commute)
    then have "times a (spec_action r (int ?k + 1)) = (if [a] = spec_action r 0 \<and> Suc ?k mod n = 0 then 1 else 0)"
      using assms(2) by (auto simp: spec_action_def)
    moreover have "Suc ?k div n = (if Suc ?k mod n = 0 then Suc (?k div n) else ?k div n)" by (rule div_Suc)
    ultimately show ?thesis using R_message snoc none n by (simp add: spec_snoc)
  qed (use snoc assms(2) in \<open>auto simp: spec_snoc spec_start_def\<close>)
qed simp

lemma spec_ends:
  assumes "\<not> r_subscriber_unsubscribe r"
  shows "times Close_connection (fst (spec_run r topic es (0, {}))) =
     (if \<not> r_process_reply_to r \<and> 0 < r_count r \<and> r_count r \<le> int (length (received es)) then 1 else 0)"
    "times (if r_durable_subscriber r then Detach_receiver else Close_receiver) (fst (spec_run r topic es (0, {}))) =
     times Close_connection (fst (spec_run r topic es (0, {})))"
proof -
  have none: "times a (spec_reply r known m) = 0" "times a (spec_action r k) = 0"
    if "a \<in> {Close_connection, Detach_receiver, Close_receiver}" for a known m k
    using that by (auto simp: spec_reply_def spec_action_def)
  show "times Close_connection (fst (spec_run r topic es (0, {}))) =
     (if \<not> r_process_reply_to r \<and> 0 < r_count r \<and> r_count r \<le> int (length (received es)) then 1 else 0)"
  proof (induction es rule: rev_induct)
    case (snoc e es)
    then show ?case by (cases e) (use assms in \<open>auto simp: spec_snoc spec_start_def none spec_finish_def\<close>)
  qed simp
  show "times (if r_durable_subscriber r then Detach_receiver else Close_receiver) (fst (spec_run r topic es (0, {}))) =
     times Close_connection (fst (spec_run r topic es (0, {})))"
  proof (induction es rule: rev_induct)
    case (snoc e es)
    then show ?case by (cases e) (use assms in \<open>auto simp: spec_snoc spec_start_def none spec_finish_def\<close>)
  qed simp
qed

lemma spec_replies:
  "sent_messages (fst (spec_run r topic es (0, {}))) = map reply_message (filter (answers r) (received es))"
  "distinct (opened (fst (spec_run r topic es (0, {}))))"
  "set (opened (fst (spec_run r topic es (0, {})))) = m_reply_to ` set (filter (answers r) (received es))"
  "list_all (\<lambda>e. case e of Send a m \<Rightarrow> a = m_to m | _ \<Rightarrow> True) (fst (spec_run r topic es (0, {})))"
proof -
  have quiet: "sent_messages (spec_action r k) = []" "opened (spec_action r k) = []" "sent_messages (spec_finish r k) = []"
    "opened (spec_finish r k) = []" for k
    by (simp_all add: spec_action_def spec_finish_def)
  show "sent_messages (fst (spec_run r topic es (0, {}))) = map reply_message (filter (answers r) (received es))"
  proof (induction es rule: rev_induct)
    case (snoc e es)
    then show ?case by (cases e) (auto simp: spec_snoc spec_start_def quiet spec_reply_def)
  qed simp
  show os: "set (opened (fst (spec_run r topic es (0, {})))) = m_reply_to ` set (filter (answers r) (received es))" for es
  proof (induction es rule: rev_induct)
    case (snoc e es)
    then show ?case by (cases e) (auto simp: spec_snoc spec_start_def quiet spec_reply_def)
  qed simp
  show "distinct (opened (fst (spec_run r topic es (0, {}))))"
  proof (induction es rule: rev_induct)
    case (snoc e es)
    then show ?case by (cases e) (auto simp: spec_snoc spec_start_def quiet spec_reply_def os)
  qed simp
  show "list_all (\<lambda>e. case e of Send a m \<Rightarrow> a = m_to m | _ \<Rightarrow> True) (fst (spec_run r topic es (0, {})))"
  proof (induction es rule: rev_induct)
    case (snoc e es)
    then show ?case
      by (cases e) (auto simp: spec_snoc spec_start_def spec_action_def spec_finish_def spec_reply_def reply_message_def)
  qed simp
qed

lemma receiver_settles:
  assumes "receiver_new url timeout c r = Inr s0"
    and "run_events (receiver_step L) receiver_ok es (receiver_for s0 sel) = Some s" and "\<not> crashed s"
    and "0 < r_msg_action_size r"
  shows "times Accept (h_effects s) =
      (if r_msg_action r = ''ack'' then length (received es) div nat (r_msg_action_size r) else 0) \<and>
    times Reject (h_effects s) =
      (if r_msg_action r = ''reject'' then length (received es) div nat (r_msg_action_size r) else 0) \<and>
    times Release (h_effects s) =
      (if r_msg_action r = ''release'' then length (received es) div nat (r_msg_action_size r) else 0)"
proof -
  have run: "visible (h_effects s) = fst (spec_run r (c_is_topic c) es (0, {}))"
    using receiver_run_tracks [OF assms(1,2)] assms(3) by (simp add: receiver_tracks_def)
  have "times a (h_effects s) = (if [a] = spec_action r 0 then length (received es) div nat (r_msg_action_size r) else 0)"
    if "\<not> silent a" "a \<in> {Accept, Reject, Release}" for a
    using spec_acts [OF that assms(4), of "c_is_topic c" es] visible_observations(1) [OF that(1), of "h_effects s"] run by simp
  from this [of Accept] this [of Reject] this [of Release] show ?thesis by (simp add: spec_action_def)
qed

lemma receiver_ends:
  assumes "receiver_new url timeout c r = Inr s0"
    and "run_events (receiver_step L) receiver_ok es (receiver_for s0 sel) = Some s" and "\<not> crashed s"
    and "\<not> r_subscriber_unsubscribe r"
  shows "times Close_connection (h_effects s) =
      (if \<not> r_process_reply_to r \<and> 0 < r_count r \<and> r_count r \<le> int (length (received es)) then 1 else 0) \<and>
    times (if r_durable_subscriber r then Detach_receiver else Close_receiver) (h_effects s) =
      times Close_connection (h_effects s)"
proof -
  have run: "visible (h_effects s) = fst (spec_run r (c_is_topic c) es (0, {}))"
    using receiver_run_tracks [OF assms(1,2)] assms(3) by (simp add: receiver_tracks_def)
  show ?thesis
    using spec_ends [OF assms(4), of "c_is_topic c" es] unfolding run [symmetric] by (simp add: visible_observations(1))
qed

text \<open>
  C14. In every run of a receiver that has not ended in an exception (as every answer of a listening one would, C17), the
  messages to be answered, which with \<open>--process-reply-to\<close> are those that have a reply-to address and without it are none,
  are answered once each, in the order of arrival, with a copy of the message addressed to it; a sender is opened once for
  each address, and every answer goes out through the sender that was opened for its address.
\<close>

theorem receiver_replies:
  assumes "receiver_new url timeout c r = Inr s0"
    and "run_events (receiver_step L) receiver_ok es (receiver_for s0 sel) = Some s" and "\<not> crashed s"
  shows "sent_messages (h_effects s) = map reply_message (filter (answers r) (received es)) \<and>
    distinct (opened (h_effects s)) \<and>
    set (opened (h_effects s)) = m_reply_to ` set (filter (answers r) (received es)) \<and>
    list_all (\<lambda>e. case e of Send a m \<Rightarrow> a = m_to m | _ \<Rightarrow> True) (h_effects s)"
proof -
  have run: "visible (h_effects s) = fst (spec_run r (c_is_topic c) es (0, {}))"
    using receiver_run_tracks [OF assms(1,2)] assms(3) by (simp add: receiver_tracks_def)
  let ?P = "\<lambda>e. case e of Send a m \<Rightarrow> a = m_to m | _ \<Rightarrow> True"
  have "list_all ?P (visible es) = list_all ?P es" for es
    unfolding visible_observations(4) by (rule list.pred_cong) (auto split: effect.split)
  with spec_replies [of r "c_is_topic c" es] show ?thesis
    unfolding run [symmetric] by (simp add: visible_observations)
qed

subsection \<open>A listening receiver\<close>

lemma block_append: "block (fs @ gs) s = (if h_halt (block fs s) = None then block gs (block fs s) else block fs s)"
  by (induction fs arbitrary: s) (auto simp: block_halted)

text \<open>
  What a listening receiver never does (\<open>unanswered\<close>), and the invariant of its runs: it has no receiver of its
  own, and so its cache of senders stays empty.
\<close>

definition unanswered :: "effect \<Rightarrow> bool" where
  "unanswered e = (case e of Open_receiver _ _ \<Rightarrow> False | Open_sender _ _ \<Rightarrow> False | Send _ _ \<Rightarrow> False | _ \<Rightarrow> True)"

definition deaf :: "receiver_settings \<Rightarrow> string \<Rightarrow> receiver_handler \<Rightarrow> bool" where
  "deaf r fmt s =
     (rh_set s = r \<and> r_recv_listen r = ''true'' \<and> \<not> r_browse r \<and> c_log_msgs s = fmt \<and> \<not> rh_recv s \<and> rh_senders s = [] \<and>
      list_all unanswered (h_effects s))"

lemma unanswered_simps [simp]:
  "unanswered (Log lv vs)" "unanswered (dbg vs)" "unanswered (Schedule d w)" "unanswered (Add_work w)"
  "unanswered (Listen a co)" "unanswered (Sleep_for_next t n n' k)" "unanswered (interrupted what s)"
  "unanswered Accept" "unanswered Reject" "unanswered Release" "unanswered Close_receiver" "unanswered Detach_receiver"
  "unanswered Close_connection" "unanswered Drain"
  by (simp_all add: unanswered_def dbg_def interrupted_def)

lemma unanswered_text: "list_all is_text es \<Longrightarrow> list_all unanswered es"
  by (erule list.pred_mono_strong) (auto simp: unanswered_def elim: is_text.elims)

lemma unanswered_start:
  "list_all unanswered (show_settings s)" "list_all unanswered (show_caps caps)"
  "list_all unanswered (fst (finish_conn_opts s co))"
  by (auto simp: show_settings_def show_caps_def finish_conn_opts_def configure_reconnect_def configure_ssl_def
      heartbeat_opts_def Let_def list_all_iff unanswered_def dbg_def split: prod.split)

definition preserves :: "('s \<Rightarrow> bool) \<Rightarrow> ('s \<Rightarrow> 's) \<Rightarrow> bool" where
  "preserves P f = (\<forall>s. P s \<longrightarrow> P (f s))"

lemma preservesI: "(\<And>s. P s \<Longrightarrow> P (f s)) \<Longrightarrow> preserves P f"
  by (simp add: preserves_def)

lemma preservesD: "preserves P f \<Longrightarrow> P s \<Longrightarrow> P (f s)"
  by (simp add: preserves_def)

lemma preserves_block: "list_all (preserves P) fs \<Longrightarrow> P s \<Longrightarrow> P (block fs s)"
  by (induction fs arbitrary: s) (auto dest: preservesD)

lemma deaf_statements [simp]:
  "deaf r fmt (act es s) = (deaf r fmt s \<and> list_all unanswered es)"
  "deaf r fmt (exit_with n s) = deaf r fmt s" "deaf r fmt (crash e s) = deaf r fmt s"
  "deaf r fmt (schedule d w s) = deaf r fmt s" "deaf r fmt (add_work w s) = deaf r fmt s"
  "deaf r fmt (take_work w s) = deaf r fmt s" "deaf r fmt (reset_timer s) = deaf r fmt s"
  "deaf r fmt (tick_timer s) = deaf r fmt s"
  "deaf r fmt (s\<lparr>rh_msg_received_cnt := k\<rparr>) = deaf r fmt s" "deaf r fmt (s\<lparr>rh_ts := x\<rparr>) = deaf r fmt s"
  "deaf r fmt (s\<lparr>h_cont := b\<rparr>) = deaf r fmt s" "deaf r fmt (s\<lparr>rh_durable_subscriber_name := name\<rparr>) = deaf r fmt s"
  by (auto simp: deaf_def statement_defs tick_timer_def split: sum.split prod.split)

lemma deaf_state: "deaf r fmt s \<Longrightarrow> \<not> rh_recv s \<and> rh_set s = r \<and> listening s \<and> \<not> r_browse r \<and> rh_senders s = []"
  by (simp add: deaf_def listening_def)

lemma deaf_print: "deaf r fmt s \<Longrightarrow> deaf r fmt (print_in_format L m s)"
  by (cases rule: print_in_format_cases [of L m s]) (simp_all add: unanswered_text)

lemma deaf_parts:
  "preserves (deaf r fmt) (act [dbg vs])" "preserves (deaf r fmt) (print_received L m)"
  "preserves (deaf r fmt) (wait_for mode notes)" "preserves (deaf r fmt) act_on_batch" "preserves (deaf r fmt) (find_sender a)"
  "preserves (deaf r fmt) schedule_drain" "preserves (deaf r fmt) finish_or_reset"
proof -
  show "preserves (deaf r fmt) (act [dbg vs])" by (simp add: preserves_def)
  show "preserves (deaf r fmt) (print_received L m)"
    by (rule preservesI) (auto simp: print_received_def guard_def deaf_print intro!: preserves_block preservesI)
  show "preserves (deaf r fmt) (wait_for mode notes)"
    by (rule preservesI) (simp add: wait_for_def guard_def list_all_iff)
  show "preserves (deaf r fmt) act_on_batch"
    by (rule preservesI) (simp add: act_on_batch_def do_message_action_def guard_def Let_def)
  show "preserves (deaf r fmt) (find_sender a)"
    by (rule preservesI) (simp add: find_sender_def deaf_state smap_get_def)
  show "preserves (deaf r fmt) schedule_drain"
    by (rule preservesI) (simp add: schedule_drain_def guard_def)
  show "preserves (deaf r fmt) finish_or_reset"
    by (rule preservesI) (simp add: finish_or_reset_def)
qed

lemma act_recv [simp]: "rh_set (act es (s :: receiver_handler)) = rh_set s" "c_log_msgs (act es s) = c_log_msgs s"
  by (simp_all add: act_def)

text \<open>An answer that is asked for ends in the opening of a sender on the receiver that is none.\<close>

definition no_sender :: "string \<Rightarrow> receiver_handler \<Rightarrow> bool" where
  "no_sender a s = (h_halt s = Some (Crashed Bad_access) \<and> last (h_effects s) = dbg [LStr ''Creating sender for '', LStr a])"

lemma find_sender_none: "deaf r fmt s \<Longrightarrow> h_halt s = None \<Longrightarrow> no_sender a (find_sender a s)"
  by (simp add: find_sender_def deaf_state smap_get_def no_sender_def)

lemma answer_none:
  "deaf r fmt s \<Longrightarrow> h_halt s = None \<Longrightarrow> answers r m \<Longrightarrow> no_sender (m_reply_to m) (answer m s)"
  using find_sender_none
  by (auto simp: answer_def guard_def do_process_reply_to_def answers_def deaf_state Let_def no_sender_def)

lemma deaf_answer: "preserves (deaf r fmt) (answer m)"
proof (rule preservesI)
  fix s
  assume s: "deaf r fmt s"
  have "h_halt (find_sender (m_reply_to m) t) = Some (Crashed Bad_access)" if "deaf r fmt t" "h_halt t = None" for t
    using find_sender_none [OF that] by (simp add: no_sender_def)
  with s preservesD [OF deaf_parts(5)] show "deaf r fmt (answer m s)"
    by (auto simp: answer_def guard_def do_process_reply_to_def Let_def)
qed

lemma deaf_message: "deaf r fmt s \<Longrightarrow> deaf r fmt (receiver_message L m s)"
  unfolding receiver_message_def
  by (rule preserves_block) (simp_all add: deaf_parts deaf_answer preservesI)

lemma deaf_start: "deaf r fmt s \<Longrightarrow> deaf r fmt (receiver_start now client_uuid s)"
proof -
  assume s: "deaf r fmt s"
  obtain es co where f: "finish_conn_opts s (basic_conn_opts s) = (es, co)"
    by (cases "finish_conn_opts s (basic_conn_opts s)")
  have es: "list_all unanswered es" using unanswered_start(3) [of s "basic_conn_opts s"] by (simp add: f)
  have "preserves (deaf r fmt) (receiver_topic client_uuid)"
    by (rule preservesI, unfold receiver_topic_def, rule preserves_block)
      (simp_all add: preserves_def guard_def createSubscriptionName_def Let_def unanswered_start)
  moreover have "preserves (deaf r fmt) (receiver_connect caps co)" for caps
    by (rule preservesI, unfold receiver_connect_def, rule preserves_block)
      (simp_all add: preserves_def receiver_listen_def deaf_state)
  moreover have "preserves (deaf r fmt) (receiver_run now)"
    by (rule preservesI) (simp add: receiver_run_def deaf_state)
  moreover have "preserves (deaf r fmt) (\<lambda>s. if listening s then s\<lparr>h_cont := True\<rparr> else s)"
    by (rule preservesI) simp
  moreover have "preserves (deaf r fmt) (act (show_caps caps @ es))" for caps
    by (rule preservesI) (simp add: unanswered_start es)
  ultimately show ?thesis
    unfolding receiver_start_def f Let_def prod.case by (intro preserves_block [where P = "deaf r fmt", OF _ s]) (simp add: deaf_parts)
qed

lemma deaf_step: "deaf r fmt s \<Longrightarrow> deaf r fmt (receiver_step L e s)"
  by (cases e)
     (auto simp: deaf_start deaf_message receiver_timerEvent_def receiver_drain_def receiver_drain_finish_def
       receiver_tracker_accept_def receiver_tracker_reject_def receiver_transport_close_def receiver_transport_error_def
       transport_error_def receiver_connection_close_def receiver_connection_error_def connection_error_def guard_def
       intro!: preserves_block preservesI)

lemma deaf_run:
  assumes "receiver_new url timeout c r = Inr s0"
    and "run_events (receiver_step L) receiver_ok es (receiver_for s0 sel) = Some s"
    and "r_recv_listen r = ''true''" and "\<not> r_browse r"
  shows "deaf r (c_log_msgs c) s"
proof -
  have "deaf r (c_log_msgs c) (receiver_for s0 sel)"
    using receiver_new_state [OF assms(1), of sel] assms(3,4) by (simp add: deaf_def)
  with run_events_reaches [OF assms(2)] show ?thesis
    by (induction rule: reaches.induct) (simp_all add: deaf_step)
qed

text \<open>How the message that asks for an answer ends the program.\<close>

definition refused :: "proton_lib \<Rightarrow> receiver_settings \<Rightarrow> string \<Rightarrow> message \<Rightarrow> receiver_handler \<Rightarrow> bool" where
  "refused L r fmt m s =
     (if fmt = ''dict'' \<and> \<not> printable L m then h_halt s = Some (Crashed Conversion_error)
      else if r_msg_action_size r = 0 then h_halt s = Some (Crashed Bad_access)
      else no_sender (m_reply_to m) s)"

lemma print_received_halt:
  assumes "h_halt s = None"
  shows "h_halt (print_received L m s) =
    (if c_log_msgs s = ''dict'' \<and> \<not> printable L m then Some (Crashed Conversion_error) else None)"
  using assms print_outcome(1) [of L m dict_ops "[]"]
  by (auto simp: print_received_def print_in_format_def print_dict_def print_interop_view_def guard_def outcome_def
      split: option.split prod.split)

lemma receiver_message_refused:
  assumes "deaf r fmt s" and "h_halt s = None" and "answers r m"
  shows "refused L r fmt m (receiver_message L m s)"
proof -
  define t where "t = act [dbg [LStr ''Processing received message'']] (s\<lparr>rh_msg_received_cnt := wrap32 (rh_msg_received_cnt s + 1)\<rparr>)"
  have t: "deaf r fmt t" "h_halt t = None" using assms(1,2) by (simp_all add: t_def)
  let ?p = "print_received L m t"
  have p: "deaf r fmt ?p" by (rule preservesD [OF deaf_parts(2) t(1)])
  have ph: "h_halt ?p = (if fmt = ''dict'' \<and> \<not> printable L m then Some (Crashed Conversion_error) else None)"
    using print_received_halt [OF t(2), of L m] t(1) by (simp add: deaf_def)
  define w where "w = wait_for ''after-receive'' [[LStr ''Waiting...'']] ?p"
  have w: "deaf r fmt w" "h_halt w = h_halt ?p"
    using preservesD [OF deaf_parts(3) p] by (simp_all add: w_def) (simp add: wait_for_def guard_def)
  define b where "b = act_on_batch w"
  have b: "deaf r fmt b" "r_msg_action_size r = 0 \<Longrightarrow> h_halt b = Some (Crashed Bad_access)"
    "r_msg_action_size r \<noteq> 0 \<Longrightarrow> h_halt b = h_halt w"
    using preservesD [OF deaf_parts(4) w(1)] deaf_state [OF w(1)]
    by (simp_all add: b_def act_on_batch_def do_message_action_def guard_def Let_def)
  define v where "v = wait_for ''after-receive-action'' [] b"
  have v: "deaf r fmt v" "h_halt v = h_halt b"
    using preservesD [OF deaf_parts(3) b(1)] by (simp_all add: v_def) (simp add: wait_for_def guard_def)
  have n: "no_sender (m_reply_to m) (answer m v)" if "h_halt v = None" by (rule answer_none [OF v(1) that assms(3)])
  show ?thesis
    using assms(2) t(2) ph w(2) b(2,3) v(2) n
    unfolding receiver_message_def refused_def
    by (auto simp: t_def [symmetric] w_def [symmetric] b_def [symmetric] v_def [symmetric] no_sender_def)
qed

text \<open>
  C17. A receiver that listens for connections, and does not browse, cannot answer: in no run does it open a
  receiver or a sender of its own or send anything. With \<open>--process-reply-to\<close> the first message that has a reply-to
  address is the last event of the run: the program ends in the opening of a sender on the connection of a receiver
  that was never assigned, unless it has died of the same message before that, because the message cannot be printed
  in the format asked for or because of an \<open>--action-size\<close> of 0.
\<close>

theorem listening_receiver_cannot_answer:
  assumes "receiver_new url timeout c r = Inr s0"
    and "run_events (receiver_step L) receiver_ok es (receiver_for s0 sel) = Some s"
    and "r_recv_listen r = ''true''" and "\<not> r_browse r"
  shows "list_all unanswered (h_effects s) \<and>
    (if list_all (\<lambda>m. \<not> answers r m) (received es) then True
     else last es = R_message (last (received es)) \<and> filter (answers r) (received es) = [last (received es)] \<and>
       refused L r (c_log_msgs c) (last (received es)) s)"
proof (cases "list_all (\<lambda>m. \<not> answers r m) (received es)")
  case True
  then show ?thesis using deaf_run [OF assms] by (simp add: deaf_def)
next
  case False
  let ?P = "\<lambda>e. \<exists>x. e = R_message x \<and> answers r x"
  have "\<exists>e \<in> set es. ?P e" using False by (auto simp: list_all_iff received_def split: receiver_event.splits)
  from split_list_first_prop [OF this] obtain pre m post where es: "es = pre @ R_message m # post"
    and m: "answers r m" and none: "\<forall>x \<in> set (received pre). \<not> answers r x"
    by (fastforce simp: received_def split: receiver_event.splits)
  from assms(2) obtain u where u: "run_events (receiver_step L) receiver_ok pre (receiver_for s0 sel) = Some u"
      and rest: "run_events (receiver_step L) receiver_ok (R_message m # post) u = Some s"
    unfolding es run_events_append by (cases "run_events (receiver_step L) receiver_ok pre (receiver_for s0 sel)") auto
  have ok: "receiver_ok (R_message m) u" using rest by (auto split: if_splits)
  have "refused L r (c_log_msgs c) m (receiver_message L m u)"
    using deaf_run [OF assms(1) u assms(3,4)] ok m by (intro receiver_message_refused) (simp_all add: receiver_ok_def)
  moreover from this have "h_halt (receiver_message L m u) \<noteq> None" by (auto simp: refused_def no_sender_def split: if_splits)
  then have "post = []" using rest ok by (cases post) (auto simp: receiver_ok_def)
  moreover from this have "s = receiver_message L m u" "received es = received pre @ [m]" "last es = R_message m"
    using rest ok by (simp_all add: es received_def)
  moreover have "filter (answers r) (received pre) = []" using none by (simp add: filter_empty_conv)
  ultimately show ?thesis using m deaf_run [OF assms] by (simp add: deaf_def)
qed

subsection \<open>Time-out\<close>

text \<open>The count-down of a started receiver is sound and its callback stays scheduled.\<close>

definition ticking :: "int \<Rightarrow> receiver_handler \<Rightarrow> bool" where
  "ticking T s = (timer_ok (h_timer s) \<and> t_timeout (h_timer s) = T \<and> Timer_event \<in> set (h_pending s))"

abbreviation keeps :: "int \<Rightarrow> (receiver_handler \<Rightarrow> receiver_handler) \<Rightarrow> bool" where
  "keeps T \<equiv> preserves (ticking T)"

lemmas keepsI = preservesI [where P = "ticking T" for T]
lemmas keepsD = preservesD [where P = "ticking T" for T]
lemmas keeps_block = preserves_block [where P = "ticking T" for T]

lemma keeps_guard [simp]: "keeps T f \<Longrightarrow> ticking T s \<Longrightarrow> ticking T (guard b f s)"
  by (simp add: guard_def keepsD)

lemma ticking_statements [simp]:
  "ticking T (act es s) = ticking T s" "ticking T (exit_with n s) = ticking T s" "ticking T (crash e s) = ticking T s"
  "ticking T (s\<lparr>rh_senders := sn\<rparr>) = ticking T s" "ticking T (s\<lparr>rh_msg_received_cnt := k\<rparr>) = ticking T s"
  "ticking T s \<Longrightarrow> ticking T (add_work w s)" "ticking T s \<Longrightarrow> ticking T (reset_timer s)"
  by (auto simp: ticking_def statement_defs timer_reset_def timer_ok_def)

lemma print_ticking [simp]: "ticking T (print_in_format L m s) = ticking T s"
  by (cases rule: print_in_format_cases [of L m s]) simp_all

lemma keeps_statements [simp]: "keeps T (act es)" "keeps T (print_in_format L m)" "keeps T (add_work w)"
  by (simp_all add: preserves_def)

lemma keeps_parts:
  "keeps T (print_received L m)" "keeps T (wait_for mode notes)" "keeps T do_message_action" "keeps T (find_sender a)"
  "keeps T schedule_drain" "keeps T finish_or_reset"
proof -
  show "keeps T (print_received L m)"
    by (rule keepsI) (auto simp: print_received_def intro!: keeps_block keepsI)
  show "keeps T (wait_for mode notes)" by (rule keepsI) (simp add: wait_for_def)
  show "keeps T do_message_action" by (rule keepsI) (simp add: do_message_action_def Let_def)
  show "keeps T (find_sender a)" by (rule keepsI) (auto simp: find_sender_def intro!: keeps_block keepsI)
  show "keeps T schedule_drain" by (rule keepsI) (auto simp: schedule_drain_def intro!: keeps_guard keeps_block keepsI)
  show "keeps T finish_or_reset" by (rule keepsI) (simp add: finish_or_reset_def)
qed

lemma keeps_answer: "keeps T (answer m)"
proof -
  have "keeps T (do_process_reply_to m)"
    unfolding do_process_reply_to_def by (intro keepsI keeps_block) (simp_all add: Let_def keeps_parts keepsI)
  then have "keeps T (\<lambda>s. block [act [dbg [LStr ''Reply-to address: '', LStr (m_reply_to m)]], do_process_reply_to m] s)"
    by (intro keepsI keeps_block) simp_all
  then have "keeps T (guard b (if m_reply_to m \<noteq> ''''
      then (\<lambda>s. block [act [dbg [LStr ''Reply-to address: '', LStr (m_reply_to m)]], do_process_reply_to m] s)
      else act es))" for b es
    by - (rule keepsI, rule keeps_guard, simp_all del: block.simps)
  then show ?thesis unfolding answer_def by (intro keepsI, intro keeps_block) (simp_all del: block.simps)
qed

lemma receiver_message_ticking: "ticking T s \<Longrightarrow> ticking T (receiver_message L m s)"
  using keepsD [OF keeps_parts(3)] unfolding receiver_message_def
  by (intro keeps_block) (simp_all add: keeps_parts keeps_answer keepsI act_on_batch_def guard_def)

lemma receiver_timer_ticking:
  fixes L :: proton_lib
  assumes "ticking T s" and "h_halt s = None"
  defines "t \<equiv> receiver_step L R_timer s"
  shows "if t_remaining (h_timer s) = 0 \<and> T \<noteq> FOREVER then h_halt t = Some (Exited 0)
    else ticking T t \<and> h_halt t = None \<and> (T \<noteq> FOREVER \<longrightarrow> t_remaining (h_timer t) = t_remaining (h_timer s) - 1)"
proof (cases "is_expired (h_timer s)")
  case True
  then show ?thesis
    using assms(1,2) by (auto simp: t_def receiver_timerEvent_def is_expired_def ticking_def take_work_def split: if_splits)
next
  case False
  obtain u where u: "timer_dec (h_timer s) = Inr u" "timer_ok u"
    "timer_rest u = map_option (\<lambda>n. n - 1) (timer_rest (h_timer s))"
    using timer_dec_step [of "h_timer s"] False assms(1) by (auto simp: ticking_def)
  have "h_timer (take_work Timer_event s) = h_timer s" "t_timeout u = T"
    using u(1) assms(1) by (auto simp: take_work_def timer_dec_def ticking_def Let_def split: if_splits)
  moreover have "T \<noteq> FOREVER \<Longrightarrow> t_remaining u = t_remaining (h_timer s) - 1"
    using u calculation(2) False assms(1)
    by (auto simp: ticking_def timer_rest_def timer_ok_def is_expired_def nat_diff_distrib)
  ultimately show ?thesis
    using False u assms(1,2)
    by (auto simp: t_def receiver_timerEvent_def tick_timer_def timer_postdec_def Let_def ticking_def is_expired_def
        act_def schedule_def split: if_splits)
qed

lemma receiver_ticks_out:
  assumes "ticking T s" and "h_halt s = None" and "T \<noteq> FOREVER" and "t_remaining (h_timer s) = int n"
  shows "\<exists>s'. run_events (receiver_step L) receiver_ok (replicate (Suc n) R_timer) s = Some s' \<and> h_halt s' = Some (Exited 0)"
  using assms
proof (induction n arbitrary: s)
  case 0
  then show ?case using receiver_timer_ticking [OF 0(1,2), of L] by (simp add: receiver_ok_def ticking_def)
next
  case (Suc n)
  let ?t = "receiver_step L R_timer s"
  have "ticking T ?t \<and> h_halt ?t = None \<and> t_remaining (h_timer ?t) = int n"
    using receiver_timer_ticking [OF Suc.prems(1,2), of L] Suc.prems by auto
  with Suc.IH [of ?t] Suc.prems show ?case by (auto simp: receiver_ok_def ticking_def)
qed

text \<open>The invariant: as long as the program runs, a started receiver that does not unsubscribe is ticking.\<close>

definition receiver_waits :: "receiver_settings \<Rightarrow> bool \<Rightarrow> int \<Rightarrow> receiver_handler \<Rightarrow> bool" where
  "receiver_waits r topic T s =
     (h_halt s = None \<longrightarrow> receiver_shape r topic s \<and> timer_ok (h_timer s) \<and> t_timeout (h_timer s) = T \<and>
        (h_work_q s \<or> h_cont s \<longrightarrow> Timer_event \<in> set (h_pending s)))"

definition idle :: "receiver_handler \<Rightarrow> receiver_handler \<Rightarrow> bool" where
  "idle s t = (same_receiver s t \<and> h_timer t = h_timer s \<and> h_pending t = h_pending s)"

lemma idle_peer:
  assumes "h_halt s = None"
  shows "idle s (receiver_drain_finish s)" "idle s (receiver_tracker_accept s)" "idle s (receiver_tracker_reject s)"
    "idle s (receiver_transport_close s)" "idle s (receiver_transport_error w s)" "idle s (receiver_connection_close s)"
    "idle s (receiver_connection_error w s)"
proof -
  have timer: "h_timer (act es u) = h_timer u" "h_timer (exit_with n u) = h_timer u" for es n and u :: receiver_handler
    by (simp_all add: act_def exit_with_def)
  show "idle s (receiver_drain_finish s)" "idle s (receiver_tracker_accept s)" "idle s (receiver_tracker_reject s)"
    "idle s (receiver_transport_close s)" "idle s (receiver_transport_error w s)" "idle s (receiver_connection_close s)"
    "idle s (receiver_connection_error w s)"
    using assms by (simp_all add: idle_def receiver_drain_finish_def receiver_tracker_accept_def receiver_tracker_reject_def
      receiver_transport_close_def receiver_transport_error_def transport_error_def receiver_connection_close_def
      receiver_connection_error_def connection_error_def guard_def timer)
qed

lemma receiver_start_waits:
  fixes now :: rat and client_uuid :: string
  assumes "h_halt s = None" and "\<not> r_subscriber_unsubscribe (rh_set s)"
  defines "t \<equiv> receiver_start now client_uuid s"
  shows "h_timer t = h_timer s \<and> Timer_event \<in> set (h_pending t) \<and> (h_work_q t \<or> h_cont t)"
proof -
  obtain u where u: "receiver_start now client_uuid s = receiver_run now u" "prepared s u" "h_work_q u \<or> h_cont u"
    using receiver_start_prepared [OF assms(1)] by blast
  then have "receiver_run now u = schedule Immediate Timer_event (u\<lparr>rh_ts := now\<rparr>)"
    using assms by (auto simp: receiver_run_def prepared_def)
  moreover have "h_timer u = h_timer s" using u(2) by (simp add: prepared_def)
  ultimately show ?thesis using u(1,3) by (simp add: t_def) (simp add: schedule_def)
qed

lemma same_waits:
  assumes "receiver_waits r topic T s" and "h_halt s = None" and "idle s t"
    and "h_halt t = None \<Longrightarrow> receiver_shape r topic t"
  shows "receiver_waits r topic T t"
  using assms by (auto simp: receiver_waits_def idle_def same_receiver_def)

lemma receiver_waits_step:
  assumes inv: "receiver_waits r topic T s" and unsub: "\<not> r_subscriber_unsubscribe r" and ok: "receiver_ok e s"
  shows "receiver_waits r topic T (receiver_step L e s)"
proof -
  let ?t = "receiver_step L e s"
  have h: "h_halt s = None" using ok by (simp add: receiver_ok_def)
  have s: "receiver_shape r topic s" "timer_ok (h_timer s)" "t_timeout (h_timer s) = T"
    "h_work_q s \<or> h_cont s \<Longrightarrow> Timer_event \<in> set (h_pending s)"
    using inv h by (simp_all add: receiver_waits_def)
  have shape: "receiver_shape r topic ?t" if "h_halt ?t = None"
    using receiver_follows [OF s(1) ok, of L] that by (auto simp: follows_def)
  have peer: ?thesis if "idle s ?t"
    using same_waits [OF inv h that shape] .
  have ticks: ?thesis if "h_halt ?t = None \<Longrightarrow> ticking T ?t"
    using that shape by (auto simp: receiver_waits_def ticking_def)
  show ?thesis
  proof (cases e)
    case (R_start now client_uuid)
    have "\<not> r_subscriber_unsubscribe (rh_set s)" using s(1) unsub by (simp add: receiver_shape_def)
    from receiver_start_waits [OF h this, of now client_uuid] R_start s(2,3) show ?thesis
      by (intro ticks) (simp add: ticking_def)
  next
    case R_timer
    then have "ticking T s" using s ok by (simp add: ticking_def receiver_ok_def)
    from receiver_timer_ticking [OF this h, of L] R_timer show ?thesis by (intro ticks) (auto split: if_splits)
  next
    case (R_message m)
    then have "ticking T s" using s ok by (auto simp: ticking_def receiver_ok_def)
    from receiver_message_ticking [OF this, of L m] R_message show ?thesis by (intro ticks) simp
  next
    case R_drain
    have "h_timer ?t = h_timer s" "h_work_q ?t = h_work_q s" "h_cont ?t = h_cont s" "h_pending ?t = remove1 Run_drain (h_pending s)"
      using R_drain h by (simp_all add: receiver_drain_def) (simp_all add: act_def crash_def take_work_def)
    with s shape show ?thesis by (auto simp: receiver_waits_def)
  qed (rule peer, simp add: idle_peer [OF h])+
qed

interpretation clock: event_handler "receiver_step L" receiver_ok
  "\<lambda>s. receiver_waits r topic T s \<and> \<not> r_subscriber_unsubscribe r" h_effects for L r topic T
proof unfold_locales
  show "receiver_waits r topic T s \<and> \<not> r_subscriber_unsubscribe r \<Longrightarrow> receiver_ok e s \<Longrightarrow>
      receiver_waits r topic T (receiver_step L e s) \<and> \<not> r_subscriber_unsubscribe r" for s e
    by (blast intro: receiver_waits_step)
  show "prefix (h_effects s) (h_effects (receiver_step L e s))"
    if "receiver_waits r topic T s \<and> \<not> r_subscriber_unsubscribe r" "receiver_ok e s" for s e
    using receiver_follows [of r topic s e L] that by (auto simp: receiver_waits_def receiver_ok_def follows_def)
qed

text \<open>
  C16. A receiver that has a time-out (not a negative one) and does not unsubscribe does not wait for ever: from every
  state it can be in after its start while it runs, when nothing arrives any more its timer callbacks are all called as
  scheduled and after at most \<open>timeout + 1\<close> of them the program has ended with exit code 0.
\<close>

theorem receiver_times_out:
  assumes "receiver_new url timeout c r = Inr s0" and "0 \<le> timeout" and "timeout \<le> INT_MAX"
    and "run_events (receiver_step L) receiver_ok es (receiver_for s0 sel) = Some s"
    and "h_halt s = None" and "h_work_q s \<or> h_cont s" and "\<not> r_subscriber_unsubscribe r"
  shows "\<exists>n s'. n \<le> nat timeout + 1 \<and>
    run_events (receiver_step L) receiver_ok (replicate n R_timer) s = Some s' \<and> h_halt s' = Some (Exited 0)"
proof -
  note n = receiver_new_state [OF assms(1), of sel]
  have "receiver_waits r (c_is_topic c) timeout (receiver_for s0 sel)"
    using n(1,5,6) assms(2,3) timer_new_ok [of timeout "''timeout''"] by (simp add: receiver_waits_def timer_new_def)
  with clock.run_inv [OF assms(4)] assms(7) have "receiver_waits r (c_is_topic c) timeout s" by blast
  then have t: "ticking timeout s" using assms(5,6) by (simp add: receiver_waits_def ticking_def)
  have f: "timeout \<noteq> FOREVER" using assms(2) by (simp add: FOREVER_def)
  then have rest: "0 \<le> t_remaining (h_timer s)" "t_remaining (h_timer s) \<le> timeout"
    using t by (auto simp: ticking_def timer_ok_def)
  then have "t_remaining (h_timer s) = int (nat (t_remaining (h_timer s)))" by simp
  from receiver_ticks_out [OF t assms(5) f this] rest show ?thesis
    by (intro exI [of _ "Suc (nat (t_remaining (h_timer s)))"]) auto
qed

subsection \<open>Runs\<close>

definition sample_receiving :: receiver_settings where
  "sample_receiving = \<lparr>r_durable_subscriber = False, r_subscriber_unsubscribe = False, r_durable_subscriber_prefix = '''',
     r_durable_subscriber_name = '''', r_shared_subscriber = False, r_msg_action = ''ack'', r_msg_action_size = 2,
     r_count = 3, r_duration_time = 0, r_duration_mode = ''after-receive'', r_process_reply_to = False, r_browse = False,
     r_recv_listen = ''false'', r_recv_listen_port = 5672, r_recv_credit_window = - 1,
     r_recv_drain_after_credit_window = False\<rparr>"

definition sample_receiver :: "receiver_settings \<Rightarrow> receiver_handler" where
  "sample_receiver r = projr (receiver_new ''h/q'' 1 sample_settings r)"

definition sample_received :: "receiver_settings \<Rightarrow> receiver_event list \<Rightarrow> receiver_handler option" where
  "sample_received r es = run_events (receiver_step sample_lib) receiver_ok es (receiver_for (sample_receiver r) None)"

definition ask :: "string \<Rightarrow> message" where
  "ask a = message_new\<lparr>m_reply_to := a\<rparr>"

lemma sample_receiver_new: "receiver_new ''h/q'' 1 sample_settings r = Inr (sample_receiver r)"
proof -
  have "\<not> isl (uri_of ''h/q'')" by code_simp
  then show ?thesis by (cases "uri_of ''h/q''") (simp_all add: sample_receiver_def receiver_new_def common_handler_new_def)
qed

lemma sample_received_run:
  assumes "\<not> Option.is_none (sample_received r es)"
  shows "run_events (receiver_step sample_lib) receiver_ok es (receiver_for (sample_receiver r) None) =
    Some (the (sample_received r es))"
  using assms by (auto simp: sample_received_def Option.is_none_def)

abbreviation three_messages :: "receiver_event list" where
  "three_messages \<equiv> [R_start 0 ''u'', R_message (ask ''''), R_timer, R_message (ask ''a''), R_message (ask ''a'')]"

lemma receiver_implements_spec_witness:
  "visible (h_effects (the (sample_received sample_receiving three_messages))) = [Accept, Close_receiver, Close_connection]"
proof -
  let ?s = "the (sample_received sample_receiving three_messages)"
  have r: "\<not> Option.is_none (sample_received sample_receiving three_messages)" by code_simp
  have "\<not> crashed ?s" by code_simp
  moreover have "fst (spec_run sample_receiving t three_messages (0, {})) = [Accept, Close_receiver, Close_connection]" for t
    by (simp add: spec_start_def spec_action_def spec_reply_def spec_finish_def sample_receiving_def answers_def Let_def)
  ultimately show ?thesis using receiver_implements_spec [OF sample_receiver_new sample_received_run [OF r]] by simp
qed

definition sample_replying :: receiver_settings where
  "sample_replying = sample_receiving\<lparr>r_process_reply_to := True\<rparr>"

lemma receiver_replies_witness:
  "opened (h_effects (the (sample_received sample_replying three_messages))) = [''a''] \<and>
   length (sent_messages (h_effects (the (sample_received sample_replying three_messages)))) = 2"
proof -
  let ?s = "the (sample_received sample_replying three_messages)"
  have r: "\<not> Option.is_none (sample_received sample_replying three_messages)" by code_simp
  have c: "\<not> crashed ?s" "length (filter (answers sample_replying) (received three_messages)) = 2"
    "opened (h_effects ?s) = [''a'']" by code_simp+
  from receiver_replies [OF sample_receiver_new sample_received_run [OF r] c(1)]
  have "sent_messages (h_effects ?s) = map reply_message (filter (answers sample_replying) (received three_messages))" by blast
  with c(2,3) show ?thesis by simp
qed

definition sample_listening :: receiver_settings where
  "sample_listening = sample_replying\<lparr>r_recv_listen := ''true''\<rparr>"

lemma listening_receiver_cannot_answer_witness:
  "no_sender ''a'' (the (sample_received sample_listening [R_start 0 ''u'', R_message (ask ''''), R_message (ask ''a'')]))"
proof -
  let ?es = "[R_start 0 ''u'', R_message (ask ''''), R_message (ask ''a'')]"
  have run: "\<not> Option.is_none (sample_received sample_listening ?es)" by code_simp
  have c: "r_recv_listen sample_listening = ''true''" "\<not> r_browse sample_listening" by code_simp+
  have n: "list_all (\<lambda>m. \<not> answers sample_listening m) (received ?es) = False" by code_simp
  have m: "last (received ?es) = ask ''a''" "c_log_msgs sample_settings = ''''" "r_msg_action_size sample_listening = 2"
    "m_reply_to (ask ''a'') = ''a''" by code_simp+
  from listening_receiver_cannot_answer [OF sample_receiver_new sample_received_run [OF run] c]
  have "refused sample_lib sample_listening (c_log_msgs sample_settings) (last (received ?es))
      (the (sample_received sample_listening ?es))" by (simp only: n if_False)
  then show ?thesis unfolding m by (simp add: refused_def m)
qed

lemma receiver_times_out_witness:
  "\<exists>n s'. n \<le> 2 \<and> run_events (receiver_step sample_lib) receiver_ok (replicate n R_timer)
      (the (sample_received sample_receiving [R_start 0 ''u''])) = Some s' \<and> h_halt s' = Some (Exited 0)"
proof -
  have r: "\<not> Option.is_none (sample_received sample_receiving [R_start 0 ''u''])" by code_simp
  have c: "(0 :: int) \<le> 1" "1 \<le> INT_MAX" "h_halt (the (sample_received sample_receiving [R_start 0 ''u''])) = None"
    "h_work_q (the (sample_received sample_receiving [R_start 0 ''u''])) \<or>
     h_cont (the (sample_received sample_receiving [R_start 0 ''u'']))" "\<not> r_subscriber_unsubscribe sample_receiving"
    "nat 1 + 1 = 2" by code_simp+
  from receiver_times_out [OF sample_receiver_new c(1,2) sample_received_run [OF r] c(3-5)] show ?thesis unfolding c(6) .
qed

end
