(* ===== verification/ConnectorH.thy ===== *)
theory ConnectorH
  imports CommonH
begin

text \<open>
  \<open>ConnectorHandler\<close> (src/src/api/qpid-proton/reactor/handler/ConnectorHandler.cpp): the state, every method, the
  step function on the events of the library, a specification of the objects it opens and closes, and the proof
  that every run implements it, up to the first tick of a time-out below -1. The four proton objects are known by whether they have been assigned
  (\<open>uninitialized()\<close>); they all belong to the one connection the handler made.
\<close>

unbundle bit_operations_syntax

subsection \<open>State\<close>

text \<open>The flags of \<open>ObjectControl\<close> (src/src/api/qpid-proton/reactor/handler/ObjectControl.h).\<close>

datatype object_control = CONNECTION | SESSION | SENDER | RECEIVER

fun control_bit :: "object_control \<Rightarrow> int" where
  "control_bit CONNECTION = 1"
| "control_bit SESSION = 2"
| "control_bit SENDER = 4"
| "control_bit RECEIVER = 8"

text \<open>\<open>count\<close> is not initialised by the constructor.\<close>

record connector_handler = common_handler +
  ch_count :: "int option"
  ch_objectControl :: int
  ch_conn :: bool
  ch_session :: bool
  ch_sender :: bool
  ch_receiver :: bool

definition connector_new :: "string \<Rightarrow> int \<Rightarrow> conn_settings \<Rightarrow> connector_handler result" where
  "connector_new url timeout c =
     res_bind (common_handler_new url timeout c) (\<lambda>h. Inr (common_handler.extend
       (act [dbg [LStr ''Initializing the connector handler''],
             dbg [LStr ''Using connection config file: '', LBool (c_use_config_file h)]] h)
       (connector_handler.fields None (control_bit CONNECTION) False False False False)))"

definition connector_setCount :: "int \<Rightarrow> connector_handler \<Rightarrow> connector_handler" where
  "connector_setCount n s = s\<lparr>ch_count := Some n\<rparr>"

definition connector_getCount :: "connector_handler \<Rightarrow> int option" where
  "connector_getCount s = ch_count s"

definition setObjectControl :: "int \<Rightarrow> connector_handler \<Rightarrow> connector_handler" where
  "setObjectControl control s = s\<lparr>ch_objectControl := control\<rparr>"

definition asked :: "int \<Rightarrow> object_control \<Rightarrow> bool" where
  "asked control c = ((control AND control_bit c) \<noteq> 0)"

definition wants :: "object_control \<Rightarrow> connector_handler \<Rightarrow> bool" where
  "wants c s = asked (ch_objectControl s) c"

definition tr :: "string \<Rightarrow> effect" where
  "tr t = Log Log_trace [LStr t]"

subsection \<open>Methods\<close>

text \<open>\<open>closeObjects\<close>, one object after the other; \<open>conn\<close> is initialised if any of the assigned ones is.\<close>

definition close_receiver :: "connector_handler \<Rightarrow> connector_handler" where
  "close_receiver s = guard (wants RECEIVER s)
     (act ([tr ''Closing the receiver''] @ (if ch_receiver s then [Close_receiver, tr ''Receiver closed''] else []))) s"

definition close_sender :: "connector_handler \<Rightarrow> connector_handler" where
  "close_sender s = guard (wants SENDER s)
     (act ([tr ''Closing the sender''] @ (if ch_sender s then [Close_sender, tr ''Sender closed''] else []))) s"

definition close_session :: "connector_handler \<Rightarrow> connector_handler" where
  "close_session s = guard (wants SESSION s)
     (act ([tr ''Closing the session (currently ignored)''] @
        (if ch_session s then [Close_session, tr ''Session closed''] else []))) s"

definition conn_initialized :: "connector_handler \<Rightarrow> bool" where
  "conn_initialized s = (ch_conn s \<or> wants RECEIVER s \<and> ch_receiver s \<or> wants SENDER s \<and> ch_sender s \<or>
     wants SESSION s \<and> ch_session s)"

definition close_connection :: "connector_handler \<Rightarrow> connector_handler" where
  "close_connection s =
     (if conn_initialized s then act [Close_connection, tr ''Connection closed''] s
      else if ch_conn s then act [Close_connection, tr ''Connector connection closed''] s
      else crash Bad_access s)"

definition closeObjects :: "connector_handler \<Rightarrow> connector_handler" where
  "closeObjects s = block [close_receiver, close_sender, close_session, close_connection] s"

definition connector_timerEvent :: "connector_handler \<Rightarrow> connector_handler" where
  "connector_timerEvent s =
     (if is_expired (h_timer s) then block [act [Log Log_info [LStr ''Timed out'']], closeObjects] s
      else block [tick_timer, act [dbg [LStr ''Waiting ...'']], schedule Second Timer_event] s)"

definition connector_start :: "connector_handler \<Rightarrow> connector_handler" where
  "connector_start s =
     (let (es, co) = finish_conn_opts s ((basic_conn_opts s)\<lparr>co_max_frame_size := Some (c_max_frame_size s)\<rparr>)
      in block
        [act [dbg [LStr ''Starting messaging handler''], tr ''Creating connection''],
         act (if c_use_config_file s then [Connect_configured]
              else show_settings s @ es @ [Connect (u_uri (h_broker_url s)) co]),
         (\<lambda>s. s\<lparr>ch_conn := True\<rparr>)] s)"

definition open_session :: "connector_handler \<Rightarrow> connector_handler" where
  "open_session s = guard (wants SESSION s)
     (\<lambda>s. (act [tr ''Creating the session as requested'', tr ''Opening the session as requested'', Open_session] s)
        \<lparr>ch_session := True\<rparr>) s"

definition open_sender :: "connector_handler \<Rightarrow> connector_handler" where
  "open_sender s = guard (wants SENDER s)
     (\<lambda>s. (act [tr ''Opening the sender as requested'', Open_sender (u_path (h_broker_url s)) None] s)\<lparr>ch_sender := True\<rparr>) s"

definition open_receiver :: "connector_handler \<Rightarrow> connector_handler" where
  "open_receiver s = guard (wants RECEIVER s)
     (\<lambda>s. (act [tr ''Opening the receiver as requested'', Open_receiver (u_path (h_broker_url s)) None] s)\<lparr>ch_receiver := True\<rparr>) s"

definition connector_open :: "connector_handler \<Rightarrow> connector_handler" where
  "connector_open s =
     block [act [dbg (LStr ''Connected to '' # peer_name s)],
       (\<lambda>s. s\<lparr>h_work_q := True\<rparr>),
       open_session, open_sender, open_receiver,
       schedule Immediate Timer_event] s"

definition connector_connection_close :: "connector_handler \<Rightarrow> connector_handler" where
  "connector_connection_close s = act [dbg (LStr ''Closing the connection to '' # peer_name s)] s"

definition connector_connection_error :: "string \<Rightarrow> connector_handler \<Rightarrow> connector_handler" where
  "connector_connection_error what s = connection_error what s"

definition connector_transport_error :: "string \<Rightarrow> connector_handler \<Rightarrow> connector_handler" where
  "connector_transport_error what s = block [act [interrupted what s], guard (c_reconnect s = ''false'') (exit_with 1)] s"

definition connector_transport_close :: "connector_handler \<Rightarrow> connector_handler" where
  "connector_transport_close s =
     block [act [dbg [LStr ''Closing the transport'']], guard (c_reconnect s = ''false'') (exit_with 1)] s"

definition connector_session_error :: "connector_handler \<Rightarrow> connector_handler" where
  "connector_session_error s =
     block [act [Log Log_error (LStr ''The remote peer at '' # peer_name s @ [LStr '' closed the session with an error condition''])],
       closeObjects] s"

subsection \<open>Events\<close>

datatype connector_event =
    C_start
  | C_open
  | C_timer
  | C_connection_close
  | C_connection_error string
  | C_transport_error string
  | C_transport_close
  | C_session_error

fun connector_step :: "connector_event \<Rightarrow> connector_handler \<Rightarrow> connector_handler" where
  "connector_step C_start s = connector_start s"
| "connector_step C_open s = connector_open s"
| "connector_step C_timer s = connector_timerEvent (take_work Timer_event s)"
| "connector_step C_connection_close s = connector_connection_close s"
| "connector_step (C_connection_error what) s = connector_connection_error what s"
| "connector_step (C_transport_error what) s = connector_transport_error what s"
| "connector_step C_transport_close s = connector_transport_close s"
| "connector_step C_session_error s = connector_session_error s"

text \<open>
  When the library makes a call: never after the program has stopped, the start once and first, a callback when it
  was scheduled, an error of a session after a connection was opened. With reconnection a connection is opened
  several times.
\<close>

definition connector_ok :: "connector_event \<Rightarrow> connector_handler \<Rightarrow> bool" where
  "connector_ok e s =
     (h_halt s = None \<and>
      (case e of
         C_start \<Rightarrow> \<not> ch_conn s
       | C_timer \<Rightarrow> Timer_event \<in> set (h_pending s)
       | C_session_error \<Rightarrow> ch_conn s \<and> h_work_q s
       | _ \<Rightarrow> ch_conn s))"

subsection \<open>The specification\<close>

text \<open>
  The objects' life: what an opened connection opens, what \<open>closeObjects\<close> closes, and a count-down. The
  specification's state is the rest of the count-down, \<open>None\<close> when there is no time-out.
\<close>

fun object_effect :: "effect \<Rightarrow> bool" where
  "object_effect Open_session = True"
| "object_effect (Open_sender _ _) = True"
| "object_effect (Open_receiver _ _) = True"
| "object_effect Close_receiver = True"
| "object_effect Close_sender = True"
| "object_effect Close_session = True"
| "object_effect Close_connection = True"
| "object_effect _ = False"

definition objects :: "effect list \<Rightarrow> effect list" where
  "objects es = filter object_effect es"

definition opens :: "int \<Rightarrow> string \<Rightarrow> effect list" where
  "opens control path =
     (if asked control SESSION then [Open_session] else []) @ (if asked control SENDER then [Open_sender path None] else []) @
     (if asked control RECEIVER then [Open_receiver path None] else [])"

definition closes :: "int \<Rightarrow> effect list" where
  "closes control =
     (if asked control RECEIVER then [Close_receiver] else []) @ (if asked control SENDER then [Close_sender] else []) @
     (if asked control SESSION then [Close_session] else []) @ [Close_connection]"

fun connector_spec_step :: "int \<Rightarrow> string \<Rightarrow> connector_event \<Rightarrow> nat option \<Rightarrow> effect list \<times> nat option" where
  "connector_spec_step control path C_open rest = (opens control path, rest)"
| "connector_spec_step control path C_timer rest =
     (if rest = Some 0 then (closes control, rest) else ([], map_option (\<lambda>n. n - 1) rest))"
| "connector_spec_step control path C_session_error rest = (closes control, rest)"
| "connector_spec_step control path _ rest = ([], rest)"

fun connector_spec :: "int \<Rightarrow> string \<Rightarrow> connector_event list \<Rightarrow> nat option \<Rightarrow> effect list \<times> nat option" where
  "connector_spec control path [] rest = ([], rest)"
| "connector_spec control path (e # es) rest =
     (let (a, r1) = connector_spec_step control path e rest; (b, r2) = connector_spec control path es r1 in (a @ b, r2))"

lemma objects_simps [simp]:
  "objects [] = []" "objects (es @ fs) = objects es @ objects fs"
  "objects (e # es) = (if object_effect e then e # objects es else objects es)"
  by (simp_all add: objects_def)

lemma object_effect_text [simp]: "\<not> object_effect (dbg vs)" "\<not> object_effect (tr t)"
  by (simp_all add: dbg_def tr_def)

lemma connector_spec_snoc:
  "connector_spec control path (es @ [e]) r =
     (fst (connector_spec control path es r) @ fst (connector_spec_step control path e (snd (connector_spec control path es r))),
      snd (connector_spec_step control path e (snd (connector_spec control path es r))))"
  by (induction es arbitrary: r) (simp_all add: Let_def split_beta)

subsection \<open>Every step implements it\<close>

text \<open>
  The invariant: the objects that were asked for exist once a connection has been opened, callbacks are pending
  only then, and the count-down is sound.
\<close>

definition connector_shape :: "int \<Rightarrow> string \<Rightarrow> connector_handler \<Rightarrow> bool" where
  "connector_shape control path s =
     (ch_objectControl s = control \<and> u_path (h_broker_url s) = path \<and> timer_ok (h_timer s) \<and>
      (Timer_event \<in> set (h_pending s) \<longrightarrow> h_work_q s) \<and> (h_work_q s \<longrightarrow> ch_conn s) \<and>
      (h_work_q s \<longrightarrow> (asked control SESSION \<longrightarrow> ch_session s) \<and> (asked control SENDER \<longrightarrow> ch_sender s) \<and>
         (asked control RECEIVER \<longrightarrow> ch_receiver s)))"

text \<open>How a step accounts for the callbacks: each is either scheduled anew or ends in \<open>closeObjects\<close>.\<close>

definition pending_timers :: "connector_handler \<Rightarrow> nat" where
  "pending_timers s = count_list (h_pending s) Timer_event"

lemma pending_statements [simp]:
  "pending_timers (act es s) = pending_timers s" "pending_timers (exit_with n s) = pending_timers s"
  "pending_timers (schedule d Timer_event s) = Suc (pending_timers s)"
  by (simp_all add: pending_timers_def)

lemma pending_take: "Timer_event \<in> set (h_pending s) \<Longrightarrow> Suc (pending_timers (take_work Timer_event s)) = pending_timers s"
proof -
  have "x \<in> set xs \<Longrightarrow> Suc (count_list (remove1 x xs) x) = count_list xs x" for x :: work and xs by (induction xs) auto
  then show "Timer_event \<in> set (h_pending s) \<Longrightarrow> ?thesis" by (simp add: pending_timers_def)
qed

lemma closes_times: "times Close_connection (closes control) = 1" "times Close_connection (opens control path) = 0"
  by (simp_all add: closes_def opens_def)

definition connector_follows :: "int \<Rightarrow> string \<Rightarrow> connector_event \<Rightarrow> connector_handler \<Rightarrow> connector_handler \<Rightarrow> bool" where
  "connector_follows control path e s t =
     (prefix (h_effects s) (h_effects t) \<and> connector_shape control path t \<and> \<not> crashed t \<and>
      (objects (h_effects t), timer_rest (h_timer t)) =
        (objects (h_effects s) @ fst (connector_spec_step control path e (timer_rest (h_timer s))),
         snd (connector_spec_step control path e (timer_rest (h_timer s)))) \<and>
      pending_timers t + times Close_connection (fst (connector_spec_step control path e (timer_rest (h_timer s)))) =
        pending_timers s + (if e = C_open \<or> e = C_session_error then 1 else 0))"

definition alike :: "connector_handler \<Rightarrow> connector_handler \<Rightarrow> bool" where
  "alike s t =
     (ch_objectControl t = ch_objectControl s \<and> h_broker_url t = h_broker_url s \<and> h_timer t = h_timer s \<and>
      h_work_q t = h_work_q s \<and> ch_conn t = ch_conn s \<and> ch_session t = ch_session s \<and> ch_sender t = ch_sender s \<and>
      ch_receiver t = ch_receiver s)"

lemma alike_refl [simp]: "alike s s"
  by (simp add: alike_def)

lemma alike_statements [simp]:
  "alike s (act es t) = alike s t" "alike s (schedule d w t) = alike s t" "alike s (take_work w t) = alike s t"
  "alike s (exit_with n t) = alike s t" "alike s (crash e t) = alike s t"
  by (simp_all add: alike_def statement_defs)

lemma alike_shape:
  assumes "connector_shape control path s" and "alike s t" and "h_pending t = h_pending s"
  shows "connector_shape control path t"
  using assms by (simp add: connector_shape_def alike_def)

lemma wants_alike: "alike s t \<Longrightarrow> wants c t = wants c s"
  by (simp add: wants_def alike_def)

text \<open>\<open>closeObjects\<close>, once a connection has been opened.\<close>

lemma closeObjects_eq:
  assumes "connector_shape control path s" and "h_work_q s" and "h_halt s = None"
  obtains es where "closeObjects s = act es s" "objects es = closes control"
proof -
  have w: "wants c t = asked control c" if "alike s t" for c t
    using that assms(1) by (simp add: wants_def alike_def connector_shape_def)
  have a: "ch_receiver t = ch_receiver s" "ch_sender t = ch_sender s" "ch_session t = ch_session s" "ch_conn t"
    if "alike s t" for t
    using that assms(1,2) by (simp_all add: alike_def connector_shape_def)
  have all: "asked control RECEIVER \<Longrightarrow> ch_receiver s" "asked control SENDER \<Longrightarrow> ch_sender s"
    "asked control SESSION \<Longrightarrow> ch_session s"
    using assms(1,2) by (simp_all add: connector_shape_def)
  have act_act: "act es (act fs s) = act (fs @ es) s" for es fs by (simp add: act_def)
  let ?a = "if asked control RECEIVER then [tr ''Closing the receiver'', Close_receiver, tr ''Receiver closed''] else []"
  let ?b = "if asked control SENDER then [tr ''Closing the sender'', Close_sender, tr ''Sender closed''] else []"
  let ?c = "if asked control SESSION then [tr ''Closing the session (currently ignored)'', Close_session, tr ''Session closed''] else []"
  let ?d = "[Close_connection, tr ''Connection closed'']"
  have act_Nil: "act [] s = s" by (simp add: act_def)
  have parts: "close_receiver (act es s) = act (es @ ?a) s" "close_sender (act es s) = act (es @ ?b) s"
    "close_session (act es s) = act (es @ ?c) s" "close_connection (act es s) = act (es @ ?d) s" for es
    using w [of "act es s"] a [of "act es s"] all
    by (simp_all add: close_receiver_def close_sender_def close_session_def close_connection_def conn_initialized_def guard_def act_act)
  have "closeObjects (act [] s) = act ([] @ ?a @ ?b @ ?c @ ?d) s"
    unfolding closeObjects_def by (simp only: parts block.simps statement_halt assms(3) append_assoc if_True simp_thms)
  then have "closeObjects s = act (?a @ ?b @ ?c @ ?d) s" by (simp only: act_Nil append_Nil)
  moreover have "objects (?a @ ?b @ ?c @ ?d) = closes control" by (simp add: closes_def)
  ultimately show thesis by (rule that)
qed

lemma halt_open [simp]:
  "h_halt (open_receiver s) = h_halt s" "h_halt (open_sender s) = h_halt s" "h_halt (open_session s) = h_halt s"
  by (simp_all add: open_receiver_def open_sender_def open_session_def guard_def)

lemma connector_open_follows:
  assumes "connector_shape control path s" and "h_halt s = None" and "ch_conn s"
  shows "connector_follows control path C_open s (connector_open s)"
proof -
  define a where "a = (act [dbg (LStr ''Connected to '' # peer_name s)] s)\<lparr>h_work_q := True\<rparr>"
  have a: "h_halt a = None" "ch_objectControl a = control" "u_path (h_broker_url a) = path" "h_timer a = h_timer s"
    "ch_conn a" "h_work_q a" "prefix (h_effects s) (h_effects a)" "objects (h_effects a) = objects (h_effects s)"
    using assms by (simp_all add: a_def connector_shape_def) (simp_all add: act_def)
  define b where "b = open_receiver (open_sender (open_session a))"
  have b: "h_halt b = None" "ch_objectControl b = control" "u_path (h_broker_url b) = path" "h_timer b = h_timer s"
    "ch_conn b" "h_work_q b" "prefix (h_effects a) (h_effects b)" "objects (h_effects b) = objects (h_effects a) @ opens control path"
    "asked control SESSION \<longrightarrow> ch_session b" "asked control SENDER \<longrightarrow> ch_sender b" "asked control RECEIVER \<longrightarrow> ch_receiver b"
    "h_pending b = h_pending a"
    using a(1-6) unfolding b_def open_receiver_def open_sender_def open_session_def wants_def opens_def guard_def
    by (cases "asked control SESSION"; cases "asked control SENDER"; cases "asked control RECEIVER"; simp add: act_def)+
  have "connector_open s = schedule Immediate Timer_event b"
    using assms(2) b(1) by (simp add: connector_open_def b_def a_def)
  moreover have "prefix (h_effects s) (h_effects b)" by (rule prefix_order.trans [OF a(7) b(7)])
  moreover have "timer_ok (h_timer s)" using assms(1) by (simp add: connector_shape_def)
  moreover have "pending_timers b = pending_timers s" using b(12) by (simp add: pending_timers_def a_def)
  ultimately show ?thesis using b a(8)
    by (simp add: connector_follows_def connector_shape_def closes_times) (simp add: schedule_def)
qed

lemma connector_timer_follows:
  assumes "connector_shape control path s" and "h_halt s = None" and "Timer_event \<in> set (h_pending s)"
  shows "connector_follows control path C_timer s (connector_step C_timer s)"
proof -
  let ?s = "take_work Timer_event s"
  have w: "h_work_q s" "timer_ok (h_timer s)" using assms(1,3) by (simp_all add: connector_shape_def)
  have eff: "h_timer ?s = h_timer s" "h_work_q ?s = h_work_q s" by (simp_all add: take_work_def)
  have shape: "connector_shape control path ?s" using assms(1) w(1) by (simp add: connector_shape_def) (simp add: take_work_def)
  show ?thesis
  proof (cases "is_expired (h_timer s)")
    case True
    let ?u = "act [Log Log_info [LStr ''Timed out'']] ?s"
    have u: "connector_shape control path ?u" "h_work_q ?u" "h_halt ?u = None"
      using alike_shape [OF shape, of ?u] w eff assms(2) by (simp_all) (simp add: act_def eff)
    obtain es where es: "closeObjects ?u = act es ?u" "objects es = closes control" using closeObjects_eq [OF u] .
    have "connector_shape control path (act es ?u)" using alike_shape [OF u(1)] by simp
    moreover have "timer_rest (h_timer s) = Some 0" using True timer.expired_rest [OF w(2)] by simp
    moreover have "h_timer (act es ?u) = h_timer s" using eff by (simp add: act_def)
    ultimately show ?thesis
      using True assms(2) eff es pending_take [OF assms(3)]
      by (simp add: connector_timerEvent_def connector_follows_def closes_times)
  next
    case False
    obtain u where u: "timer_dec (h_timer s) = Inr u" "timer_ok u" "timer_rest u = map_option (\<lambda>n. n - 1) (timer_rest (h_timer s))"
      using timer_dec_step [OF w(2) False] by blast
    have tick: "tick_timer ?s = ?s\<lparr>h_timer := u\<rparr>"
    proof (cases "t_timeout (h_timer s) = FOREVER")
      case True
      then show ?thesis using u(1) eff by (simp add: tick_timer_def timer_postdec_def timer_dec_def)
    qed (use u(1) eff in \<open>simp add: tick_timer_def timer_postdec_def Let_def\<close>)
    have "timer_rest (h_timer s) \<noteq> Some 0" using False timer.expired_rest [OF w(2)] by simp
    moreover have "connector_shape control path (schedule Second Timer_event (act [dbg [LStr ''Waiting ...'']] (?s\<lparr>h_timer := u\<rparr>)))"
      using shape w(1) u(2) by (simp add: connector_shape_def) (simp add: schedule_def act_def take_work_def)
    moreover have "h_timer (schedule Second Timer_event (act [dbg [LStr ''Waiting ...'']] (?s\<lparr>h_timer := u\<rparr>))) = u"
      by (simp add: schedule_def act_def)
    ultimately show ?thesis
      using False assms(2) eff u(3) pending_take [OF assms(3)]
      by (simp add: connector_timerEvent_def tick connector_follows_def) (simp add: pending_timers_def)
  qed
qed

lemma connector_quiet_follows:
  assumes "connector_shape control path s" and "alike s t" and "h_pending t = h_pending s" and "\<not> crashed t"
    and "prefix (h_effects s) (h_effects t)" and "objects (h_effects t) = objects (h_effects s)"
    and "connector_spec_step control path e (timer_rest (h_timer s)) = ([], timer_rest (h_timer s))"
    and "e \<noteq> C_open \<and> e \<noteq> C_session_error"
  shows "connector_follows control path e s t"
  using alike_shape [OF assms(1-3)] assms by (simp add: connector_follows_def alike_def pending_timers_def)

lemma connector_start_objects: "objects (show_settings h) = []" "objects (fst (finish_conn_opts h co)) = []"
  by (simp_all add: show_settings_def finish_conn_opts_def configure_reconnect_def configure_ssl_def heartbeat_opts_def Let_def)

lemma connector_start_follows:
  assumes "connector_shape control path s" and "h_halt s = None" and "\<not> ch_conn s"
  shows "connector_follows control path C_start s (connector_start s)"
proof -
  let ?co = "(basic_conn_opts s)\<lparr>co_max_frame_size := Some (c_max_frame_size s)\<rparr>"
  obtain es co where f: "finish_conn_opts s ?co = (es, co)" by (cases "finish_conn_opts s ?co")
  have "objects es = []" using connector_start_objects(2) [of s ?co] by (simp add: f)
  then obtain gs where gs: "connector_start s = (act gs s)\<lparr>ch_conn := True\<rparr>" "objects gs = []"
    using assms(2) connector_start_objects(1) [of s]
    by (auto simp: connector_start_def f Let_def act_def intro!: that)
  have "\<not> crashed ((act gs s)\<lparr>ch_conn := True\<rparr>)" "connector_shape control path ((act gs s)\<lparr>ch_conn := True\<rparr>)"
    "h_timer (act gs s) = h_timer s"
    using assms by (auto simp: connector_shape_def act_def)
  then show ?thesis using gs by (simp add: connector_follows_def pending_timers_def)
qed

lemma connector_session_error_follows:
  assumes "connector_shape control path s" and "h_halt s = None" and "h_work_q s"
  shows "connector_follows control path C_session_error s (connector_session_error s)"
proof -
  let ?m = "[Log Log_error (LStr ''The remote peer at '' # peer_name s @ [LStr '' closed the session with an error condition''])]"
  let ?u = "act ?m s"
  have u: "connector_shape control path ?u" "h_work_q ?u" "h_halt ?u = None"
    using alike_shape [OF assms(1), of ?u] assms(2,3) by simp_all (simp add: act_def)
  obtain es where es: "closeObjects ?u = act es ?u" "objects es = closes control" using closeObjects_eq [OF u] .
  have "connector_shape control path (act es ?u)" using alike_shape [OF u(1)] by simp
  moreover have "h_timer (act es ?u) = h_timer s" by (simp add: act_def)
  ultimately show ?thesis
    using assms(2) es by (simp add: connector_session_error_def connector_follows_def closes_times)
qed

lemma connector_follows_step:
  assumes "connector_shape control path s" and "connector_ok e s"
  shows "connector_follows control path e s (connector_step e s)"
proof -
  have h: "h_halt s = None" using assms(2) by (simp add: connector_ok_def)
  note quiet = connector_quiet_follows [OF assms(1)]
  show ?thesis
  proof (cases e)
    case C_connection_close
    then show ?thesis using h by (intro quiet) (simp_all add: connector_connection_close_def)
  next
    case (C_connection_error what)
    then show ?thesis
      using h by (intro quiet) (simp_all add: connector_connection_error_def connection_error_def guard_def)
  next
    case (C_transport_error what)
    then show ?thesis
      using h by (intro quiet) (simp_all add: connector_transport_error_def interrupted_def guard_def)
  next
    case C_transport_close
    then show ?thesis using h by (intro quiet) (simp_all add: connector_transport_close_def guard_def)
  qed (use assms h connector_start_follows connector_open_follows connector_timer_follows connector_session_error_follows
      in \<open>auto simp: connector_ok_def\<close>)
qed

subsection \<open>Every run\<close>

fun closers :: "connector_event list \<Rightarrow> nat" where
  "closers [] = 0"
| "closers (e # es) = (if e = C_open \<or> e = C_session_error then 1 else 0) + closers es"

lemma closers_snoc: "closers (es @ [e]) = closers es + (if e = C_open \<or> e = C_session_error then 1 else 0)"
  by (induction es) auto

definition connector_tracks :: "int \<Rightarrow> string \<Rightarrow> nat option \<Rightarrow> connector_event list \<times> connector_handler \<Rightarrow> bool" where
  "connector_tracks control path rest p =
     (connector_shape control path (snd p) \<and> \<not> crashed (snd p) \<and>
      connector_spec control path (fst p) rest = (objects (h_effects (snd p)), timer_rest (h_timer (snd p))) \<and>
      pending_timers (snd p) + times Close_connection (objects (h_effects (snd p))) = closers (fst p))"

interpretation connector: event_handler "traced connector_step" "\<lambda>e p. connector_ok e (snd p)"
  "connector_tracks control path rest" "\<lambda>p. h_effects (snd p)" for control path rest
proof unfold_locales
  fix e and p :: "connector_event list \<times> connector_handler"
  assume p: "connector_tracks control path rest p" "connector_ok e (snd p)"
  have "connector_follows control path e (snd p) (connector_step e (snd p))"
    using connector_follows_step p by (simp add: connector_tracks_def)
  with p(1) show "connector_tracks control path rest (traced connector_step e p)"
      "prefix (h_effects (snd p)) (h_effects (snd (traced connector_step e p)))"
    by (auto simp: connector_tracks_def connector_follows_def traced_def connector_spec_snoc closers_snoc)
qed

text \<open>A new connector, told which objects to control and the count.\<close>

definition connector_for :: "connector_handler \<Rightarrow> int \<Rightarrow> int \<Rightarrow> connector_handler" where
  "connector_for s0 n control = setObjectControl control (connector_setCount n s0)"

text \<open>The count-down of the specification: a negative time-out is none, whether it is the -1 for none or not.\<close>

definition rest_of :: "int \<Rightarrow> nat option" where
  "rest_of timeout = (if timeout < 0 then None else Some (nat timeout))"

definition with_timer :: "timer \<Rightarrow> connector_handler \<Rightarrow> connector_handler" where
  "with_timer t s = s\<lparr>h_timer := t\<rparr>"

lemma with_timer_same [simp]: "with_timer (h_timer s) s = s" "h_timer (with_timer t s) = t"
  by (simp_all add: with_timer_def)

lemma connector_new_timed:
  assumes "connector_new url timeout c = Inr s0"
  shows "h_timer (connector_for s0 n control) = timer_new timeout ''timeout''"
    and "timer_ok t \<Longrightarrow>
      connector_tracks control (u_path (h_broker_url s0)) (timer_rest t) ([], with_timer t (connector_for s0 n control))"
proof -
  from assms obtain h where h: "common_handler_new url timeout c = Inr h"
    and s0: "s0 = common_handler.extend
       (act [dbg [LStr ''Initializing the connector handler''],
             dbg [LStr ''Using connection config file: '', LBool (c_use_config_file h)]] h)
       (connector_handler.fields None (control_bit CONNECTION) False False False False)"
    by (auto simp: connector_new_def res_bind_eq_Inr)
  note state = common_handler_new_state [OF h]
  note defs = connector_for_def setObjectControl_def connector_setCount_def s0 common_handler.defs connector_handler.defs act_def
  show "h_timer (connector_for s0 n control) = timer_new timeout ''timeout''" using state by (simp add: defs)
  show "timer_ok t \<Longrightarrow>
      connector_tracks control (u_path (h_broker_url s0)) (timer_rest t) ([], with_timer t (connector_for s0 n control))"
    using state by (simp add: connector_tracks_def connector_shape_def with_timer_def defs pending_timers_def)
qed

lemma connector_new_tracks:
  assumes "connector_new url timeout c = Inr s0" and "timeout = FOREVER \<or> 0 \<le> timeout" and "timeout \<le> INT_MAX"
  shows "connector_tracks control (u_path (h_broker_url s0)) (rest_of timeout) ([], connector_for s0 n control)"
proof -
  have ok: "timer_ok (timer_new timeout ''timeout'')" using assms(2,3) timer_new_ok by blast
  moreover have "timer_rest (timer_new timeout ''timeout'') = rest_of timeout"
    using assms(2) by (auto simp: timer_rest_def rest_of_def timer_new_def FOREVER_def)
  ultimately show ?thesis using connector_new_timed [OF assms(1)] with_timer_same(1) by metis
qed

lemma connector_run_tracks:
  assumes "connector_new url timeout c = Inr s0" and "timeout = FOREVER \<or> 0 \<le> timeout" and "timeout \<le> INT_MAX"
    and "run_events connector_step connector_ok es (connector_for s0 n control) = Some s"
  shows "connector_tracks control (u_path (h_broker_url s0)) (rest_of timeout) (es, s)"
  using connector.reaches_inv [OF run_traced [OF assms(4), of "[]"] connector_new_tracks [OF assms(1-3)]] by simp

subsection \<open>A time-out below -1\<close>

text \<open>No event but the timer's reads or changes the count-down.\<close>

lemma with_timer_reads [simp]:
  "h_halt (with_timer t s) = h_halt s" "h_effects (with_timer t s) = h_effects s" "h_pending (with_timer t s) = h_pending s"
  "h_work_q (with_timer t s) = h_work_q s" "ch_conn (with_timer t s) = ch_conn s" "ch_session (with_timer t s) = ch_session s"
  "ch_sender (with_timer t s) = ch_sender s" "ch_receiver (with_timer t s) = ch_receiver s"
  "ch_objectControl (with_timer t s) = ch_objectControl s" "h_broker_url (with_timer t s) = h_broker_url s"
  "c_reconnect (with_timer t s) = c_reconnect s" "wants x (with_timer t s) = wants x s"
  "peer_name (with_timer t s) = peer_name s" "interrupted what (with_timer t s) = interrupted what s"
  "pending_timers (with_timer t s) = pending_timers s" "crashed (with_timer t s) = crashed s"
  by (simp_all add: with_timer_def wants_def peer_name_def interrupted_def pending_timers_def crashed_def)

lemma with_timer_statements [simp]:
  "act es (with_timer t s) = with_timer t (act es s)" "schedule d w (with_timer t s) = with_timer t (schedule d w s)"
  "exit_with k (with_timer t s) = with_timer t (exit_with k s)" "crash e (with_timer t s) = with_timer t (crash e s)"
  "(with_timer t s)\<lparr>ch_conn := b\<rparr> = with_timer t (s\<lparr>ch_conn := b\<rparr>)"
  "(with_timer t s)\<lparr>h_work_q := b\<rparr> = with_timer t (s\<lparr>h_work_q := b\<rparr>)"
  "(with_timer t s)\<lparr>ch_session := b\<rparr> = with_timer t (s\<lparr>ch_session := b\<rparr>)"
  "(with_timer t s)\<lparr>ch_sender := b\<rparr> = with_timer t (s\<lparr>ch_sender := b\<rparr>)"
  "(with_timer t s)\<lparr>ch_receiver := b\<rparr> = with_timer t (s\<lparr>ch_receiver := b\<rparr>)"
  by (simp_all add: with_timer_def act_def schedule_def exit_with_def crash_def)

lemma with_timer_objects [simp]:
  "close_receiver (with_timer t s) = with_timer t (close_receiver s)" "close_sender (with_timer t s) = with_timer t (close_sender s)"
  "close_session (with_timer t s) = with_timer t (close_session s)"
  "close_connection (with_timer t s) = with_timer t (close_connection s)"
  "open_session (with_timer t s) = with_timer t (open_session s)" "open_sender (with_timer t s) = with_timer t (open_sender s)"
  "open_receiver (with_timer t s) = with_timer t (open_receiver s)"
  by (simp_all add: close_receiver_def close_sender_def close_session_def close_connection_def conn_initialized_def guard_def
      open_session_def open_sender_def open_receiver_def)

lemma with_timer_options:
  "basic_conn_opts (with_timer t s) = basic_conn_opts s" "finish_conn_opts (with_timer t s) co = finish_conn_opts s co"
  "show_settings (with_timer t s) = show_settings s" "c_max_frame_size (with_timer t s) = c_max_frame_size s"
  "c_use_config_file (with_timer t s) = c_use_config_file s"
  by (simp_all add: with_timer_def basic_conn_opts_def finish_conn_opts_def configure_reconnect_def configure_ssl_def
      heartbeat_opts_def custom_reconnect_def ssl_mode_def show_settings_def Let_def)

lemma block_with_timer:
  "(\<And>f s. f \<in> set fs \<Longrightarrow> f (with_timer t s) = with_timer t (f s)) \<Longrightarrow> block fs (with_timer t s) = with_timer t (block fs s)"
proof (induction fs arbitrary: s)
  case (Cons f fs)
  have f: "f (with_timer t s) = with_timer t (f s)" by (rule Cons.prems) simp
  have fs: "block fs (with_timer t u) = with_timer t (block fs u)" for u by (rule Cons.IH, rule Cons.prems) simp
  show ?case by (simp add: f fs)
qed simp

lemma closeObjects_with_timer: "closeObjects (with_timer t s) = with_timer t (closeObjects s)"
  unfolding closeObjects_def by (rule block_with_timer) auto

lemma step_with_timer: "e \<noteq> C_timer \<Longrightarrow> connector_step e (with_timer t s) = with_timer t (connector_step e s)"
proof (cases e)
  case C_start
  then show ?thesis by (simp add: connector_start_def with_timer_options split_beta)
next
  case C_open
  then show ?thesis
    unfolding C_open connector_step.simps connector_open_def with_timer_reads by (intro block_with_timer) auto
next
  case C_session_error
  then show ?thesis
    unfolding C_session_error connector_step.simps connector_session_error_def with_timer_reads
    by (intro block_with_timer) (auto simp: closeObjects_with_timer)
qed (simp_all add: connector_connection_close_def connector_connection_error_def connection_error_def
    connector_transport_error_def connector_transport_close_def guard_def)

lemma step_keeps_timer: "e \<noteq> C_timer \<Longrightarrow> h_timer (connector_step e s) = h_timer s"
  using step_with_timer [of e "h_timer s" s] by (metis with_timer_same)

lemma ok_with_timer [simp]: "connector_ok e (with_timer t s) = connector_ok e s"
  by (simp add: connector_ok_def cong: connector_event.case_cong)

lemma run_with_timer:
  "C_timer \<notin> set es \<Longrightarrow> run_events connector_step connector_ok es (with_timer t s) =
     map_option (with_timer t) (run_events connector_step connector_ok es s)"
  by (induction es arbitrary: s) (auto simp: step_with_timer)

lemma negative_tick:
  assumes "h_timer s = timer_new timeout ''timeout''" and "INT_MIN < timeout" and "timeout < FOREVER" and "h_halt s = None"
  shows "connector_step C_timer s = crash (Timer_expired ''The timer timeout has expired'') (take_work Timer_event s)"
proof -
  have "wrap32 (timeout - 1) = timeout - 1" using assms(2,3) by (intro wrap32_id) (simp add: int32_def int_limits FOREVER_def)
  moreover have "h_timer (take_work Timer_event s) = timer_new timeout ''timeout''" using assms(1) by (simp add: take_work_def)
  ultimately show ?thesis
    using assms(3,4) by (simp add: connector_timerEvent_def is_expired_def tick_timer_def timer_postdec_def timer_dec_def
        timer_new_def FOREVER_def Let_def)
qed

text \<open>Every run: as the specification says, up to the tick that a time-out below -1 does not survive.\<close>

definition connector_ran :: "int \<Rightarrow> int \<Rightarrow> string \<Rightarrow> connector_event list \<Rightarrow> connector_handler \<Rightarrow> bool" where
  "connector_ran timeout control path es s =
     (objects (h_effects s) = fst (connector_spec control path es (rest_of timeout)) \<and>
      pending_timers s + times Close_connection (objects (h_effects s)) + (if crashed s then 1 else 0) = closers es \<and>
      (if timeout < FOREVER \<and> C_timer \<in> set es
       then h_halt s = Some (Crashed (Timer_expired ''The timer timeout has expired'')) else \<not> crashed s))"

lemma timeless_run:
  assumes "connector_new url timeout c = Inr s0"
    and "run_events connector_step connector_ok es (connector_for s0 n control) = Some s" and "C_timer \<notin> set es"
  shows "connector_tracks control (u_path (h_broker_url s0)) None (es, with_timer (timer_new FOREVER ''timeout'') s)"
    and "h_timer s = timer_new timeout ''timeout''"
proof -
  let ?f = "timer_new FOREVER ''timeout''"
  have "timer_ok ?f" "timer_rest ?f = None"
    using timer_new_ok [of FOREVER] by (simp_all add: timer_rest_def timer_new_def FOREVER_def int_limits)
  with connector_new_timed(2) [OF assms(1), of ?f control n]
  have "connector_tracks control (u_path (h_broker_url s0)) None ([], with_timer ?f (connector_for s0 n control))" by simp
  moreover have "run_events connector_step connector_ok es (with_timer ?f (connector_for s0 n control)) = Some (with_timer ?f s)"
    using run_with_timer [OF assms(3)] assms(2) by simp
  ultimately show "connector_tracks control (u_path (h_broker_url s0)) None (es, with_timer ?f s)"
    using connector.reaches_inv [OF run_traced [of connector_step connector_ok es _ _ "[]"]] by fastforce
  from assms(2,3) show "h_timer s = timer_new timeout ''timeout''"
    using connector_new_timed(1) [OF assms(1), of n control]
    by (induction es arbitrary: s rule: rev_induct)
       (auto simp: run_events_append bind_eq_Some_conv step_keeps_timer split: if_splits)
qed

lemma connector_runs:
  assumes "connector_new url timeout c = Inr s0" and "INT_MIN < timeout" and "timeout \<le> INT_MAX"
    and "run_events connector_step connector_ok es (connector_for s0 n control) = Some s"
  shows "connector_ran timeout control (u_path (h_broker_url s0)) es s"
proof (cases "timeout < FOREVER")
  case False
  then have "timeout = FOREVER \<or> 0 \<le> timeout" by (auto simp: FOREVER_def)
  from connector_run_tracks [OF assms(1) this assms(3,4)] False show ?thesis
    by (simp add: connector_tracks_def connector_ran_def)
next
  case True
  then have r: "rest_of timeout = None" by (simp add: rest_of_def FOREVER_def)
  show ?thesis
  proof (cases "C_timer \<in> set es")
    case False
    with timeless_run(1) [OF assms(1,4) False] r show ?thesis by (simp add: connector_tracks_def connector_ran_def)
  next
    case timer: True
    then obtain pre post where es: "es = pre @ C_timer # post" "C_timer \<notin> set pre" by (metis split_list_first)
    from assms(4) obtain u where u: "run_events connector_step connector_ok pre (connector_for s0 n control) = Some u"
        and rest: "run_events connector_step connector_ok (C_timer # post) u = Some s"
      unfolding es(1) run_events_append by (auto simp: bind_eq_Some_conv simp del: run_events.simps)
    note pre = timeless_run [OF assms(1) u es(2)]
    have ok: "connector_ok C_timer u" using rest by (simp split: if_splits)
    then have h: "h_halt u = None" "Timer_event \<in> set (h_pending u)" by (simp_all add: connector_ok_def)
    note tick = negative_tick [OF pre(2) assms(2) True h(1)]
    have "post = []" using rest ok unfolding run_events.simps tick by (cases post) (auto simp: connector_ok_def)
    then have s: "s = crash (Timer_expired ''The timer timeout has expired'') (take_work Timer_event u)"
      using rest ok unfolding run_events.simps tick by simp
    have "pending_timers s = pending_timers (take_work Timer_event u)" by (simp add: s pending_timers_def crash_def)
    with pre(1) pending_take [OF h(2)] show ?thesis
      using True timer \<open>post = []\<close>
      by (simp add: connector_ran_def connector_tracks_def es(1) closers_snoc connector_spec_snoc r)
        (simp add: s timer_rest_def timer_new_def)
  qed
qed

text \<open>
  C3. For every time-out (the least number of \<open>int\<close> apart), a connector opens and closes what its specification says, in
  that order, in every run: when a connection opens, the session, the sender and the receiver that were asked for; when the
  count-down has run out or the session fails, those objects and the connection. It ends in an exception only at the first
  tick of a time-out below -1, and then always.
\<close>

theorem connector_implements_spec:
  assumes "connector_new url timeout c = Inr s0" and "INT_MIN < timeout" and "timeout \<le> INT_MAX"
    and "run_events connector_step connector_ok es (connector_for s0 n control) = Some s"
  shows "objects (h_effects s) = fst (connector_spec control (u_path (h_broker_url s0)) es (rest_of timeout)) \<and>
    (if timeout < FOREVER \<and> C_timer \<in> set es
     then h_halt s = Some (Crashed (Timer_expired ''The timer timeout has expired'')) else \<not> crashed s)"
  using connector_runs [OF assms] by (simp add: connector_ran_def)

lemma times_objects: "object_effect a \<Longrightarrow> times a (objects es) = times a es"
  by (induction es) auto

lemma connector_spec_closes:
  assumes "(c, a) \<in> {(RECEIVER, Close_receiver), (SENDER, Close_sender), (SESSION, Close_session)}"
  shows "times a (fst (connector_spec control path es r)) =
    (if asked control c then times Close_connection (fst (connector_spec control path es r)) else 0)"
proof (induction es rule: rev_induct)
  case (snoc e es)
  have "times a (fst (connector_spec_step control path e r')) =
      (if asked control c then times Close_connection (fst (connector_spec_step control path e r')) else 0)" for r'
    using assms by (cases e) (auto simp: opens_def closes_def)
  with snoc show ?case by (simp add: connector_spec_snoc)
qed simp

lemma connector_all_closed:
  assumes "connector_new url timeout c = Inr s0" and "INT_MIN < timeout" and "timeout \<le> INT_MAX"
    and "run_events connector_step connector_ok es (connector_for s0 n control) = Some s"
  shows "times Close_receiver (h_effects s) = (if asked control RECEIVER then times Close_connection (h_effects s) else 0) \<and>
    times Close_sender (h_effects s) = (if asked control SENDER then times Close_connection (h_effects s) else 0) \<and>
    times Close_session (h_effects s) = (if asked control SESSION then times Close_connection (h_effects s) else 0) \<and>
    times Close_connection (h_effects s) + pending_timers s + (if crashed s then 1 else 0) = closers es \<and>
    (crashed s \<longleftrightarrow> timeout < FOREVER \<and> C_timer \<in> set es)"
proof -
  let ?spec = "fst (connector_spec control (u_path (h_broker_url s0)) es (rest_of timeout))"
  have run: "objects (h_effects s) = ?spec"
    "pending_timers s + times Close_connection (objects (h_effects s)) + (if crashed s then 1 else 0) = closers es"
    "crashed s \<longleftrightarrow> timeout < FOREVER \<and> C_timer \<in> set es"
    using connector_runs [OF assms] by (auto simp: connector_ran_def split: if_splits)
  have "times a ?spec = times a (h_effects s)" if "object_effect a" for a
    unfolding run(1) [symmetric] using that by (rule times_objects)
  with run(2,3) connector_spec_closes [of RECEIVER Close_receiver control "u_path (h_broker_url s0)" es "rest_of timeout"]
    connector_spec_closes [of SENDER Close_sender control "u_path (h_broker_url s0)" es "rest_of timeout"]
    connector_spec_closes [of SESSION Close_session control "u_path (h_broker_url s0)" es "rest_of timeout"]
  show ?thesis by (simp add: times_objects)
qed

subsection \<open>A run\<close>

definition sample_connector :: connector_handler where
  "sample_connector = projr (connector_new ''h/q'' 1 sample_settings)"

definition sample_connected :: "connector_event list \<Rightarrow> connector_handler option" where
  "sample_connected es = run_events connector_step connector_ok es (connector_for sample_connector 1 7)"

lemma sample_connector_new: "connector_new ''h/q'' 1 sample_settings = Inr sample_connector"
proof -
  have "\<not> isl (uri_of ''h/q'')" by code_simp
  then show ?thesis by (cases "uri_of ''h/q''") (simp_all add: sample_connector_def connector_new_def common_handler_new_def)
qed

lemma sample_connected_run:
  assumes "\<not> Option.is_none (sample_connected es)"
  shows "run_events connector_step connector_ok es (connector_for sample_connector 1 7) = Some (the (sample_connected es))"
  using assms by (auto simp: sample_connected_def Option.is_none_def)

lemma connector_implements_spec_witness:
  "objects (h_effects (the (sample_connected [C_start, C_open, C_timer, C_timer]))) =
     [Open_session, Open_sender ''q'' None, Close_sender, Close_session, Close_connection]"
proof -
  have r: "\<not> Option.is_none (sample_connected [C_start, C_open, C_timer, C_timer])" by code_simp
  have c: "INT_MIN < 1" "1 \<le> INT_MAX" "u_path (h_broker_url sample_connector) = ''q''"
    "\<not> asked 7 RECEIVER" "asked 7 SENDER" "asked 7 SESSION" "rest_of 1 = Some 1" by code_simp+
  from connector_implements_spec [OF sample_connector_new c(1,2) sample_connected_run [OF r]]
  show ?thesis by (simp add: c opens_def closes_def Let_def)
qed

end
