(* ===== verification/OptionsH.thy ===== *)
theory OptionsH
  imports Modern LoggerM Message
begin

text \<open>
  \<open>OptionsSetter\<close> (src/src/common/options/OptionsHelper.h and .cpp), \<open>BeanUtils\<close> (src/src/common/BeanUtils.h) and the
  normalizers (src/src/api/qpid-proton/reactor/Normalizer.h): reading options into an object. An object is its
  record, a setter a function \<open>value \<Rightarrow> record \<Rightarrow> record\<close>. The templates that take a pointer to a normalizer take the
  function.
\<close>

subsection \<open>BeanUtils\<close>

definition bean_set :: "'v \<Rightarrow> ('v \<Rightarrow> 'o \<Rightarrow> 'o) \<Rightarrow> 'o \<Rightarrow> 'o" where
  "bean_set value setter obj = setter value obj"

definition bean_set_normalized :: "string \<Rightarrow> ('k \<Rightarrow> 'o \<Rightarrow> 'o) \<Rightarrow> (string \<Rightarrow> 'k) \<Rightarrow> 'o \<Rightarrow> 'o" where
  "bean_set_normalized value setter normalizer obj = (let normalizedValue = normalizer value in setter normalizedValue obj)"

definition bean_setBoolean :: "string \<Rightarrow> (bool \<Rightarrow> 'o \<Rightarrow> 'o) \<Rightarrow> 'o \<Rightarrow> 'o" where
  "bean_setBoolean value setter obj =
     (if value = ''yes'' \<or> value = ''true'' \<or> value = ''True'' then setter True obj else setter False obj)"

subsection \<open>OptionsSetter\<close>

definition os_set :: "opt_values \<Rightarrow> string \<Rightarrow> (string \<Rightarrow> 'o \<Rightarrow> 'o) \<Rightarrow> 'o \<Rightarrow> 'o" where
  "os_set options name setter obj = (if is_set options name then bean_set (value_at options name) setter obj else obj)"

definition os_set_normalized :: "opt_values \<Rightarrow> string \<Rightarrow> ('k \<Rightarrow> 'o \<Rightarrow> 'o) \<Rightarrow> (string \<Rightarrow> 'k) \<Rightarrow> 'o \<Rightarrow> 'o" where
  "os_set_normalized options name setter normalizer obj =
     (if is_set options name then bean_set_normalized (value_at options name) setter normalizer obj else obj)"

text \<open>\<open>static_cast<K>(options.get(name))\<close> is the argument \<open>conv\<close>.\<close>

definition os_setNumber_default :: "opt_values \<Rightarrow> string \<Rightarrow> (opt_values \<Rightarrow> string \<Rightarrow> 'k) \<Rightarrow> ('k \<Rightarrow> 'o \<Rightarrow> 'o) \<Rightarrow> 'k \<Rightarrow> 'o \<Rightarrow> 'o" where
  "os_setNumber_default options name conv setter defaultValue obj =
     (if is_set options name then bean_set (conv options name) setter obj else bean_set defaultValue setter obj)"

definition os_setNumber :: "opt_values \<Rightarrow> string \<Rightarrow> (int \<Rightarrow> 'o \<Rightarrow> 'o) \<Rightarrow> 'o \<Rightarrow> 'o" where
  "os_setNumber options name setter obj = (if is_set options name then bean_set (get_int options name) setter obj else obj)"

definition os_setBoolean :: "opt_values \<Rightarrow> string \<Rightarrow> (bool \<Rightarrow> 'o \<Rightarrow> 'o) \<Rightarrow> 'o \<Rightarrow> 'o" where
  "os_setBoolean options name setter obj =
     (if is_set options name then bean_setBoolean (value_at options name) setter obj else obj)"

text \<open>The map of a text \<open>"k:v;k:v"\<close>; a piece with an odd number of fields is read past its end.\<close>

definition option_map :: "string \<Rightarrow> string \<Rightarrow> string \<Rightarrow> (string, string) smap \<Rightarrow> (string, string) smap result" where
  "option_map property keySeparator propertySeparator out =
     convert_properties id propertySeparator (split property keySeparator) out"

definition os_setMap ::
    "opt_values \<Rightarrow> string \<Rightarrow> ((string, string) smap \<Rightarrow> 'o \<Rightarrow> 'o) \<Rightarrow> string \<Rightarrow> string \<Rightarrow> 'o \<Rightarrow> 'o result" where
  "os_setMap options name setter keySeparator propertySeparator obj =
     (if is_set options name
      then res_bind (option_map (value_at options name) keySeparator propertySeparator [])
             (\<lambda>properties. Inr (bean_set properties setter obj))
      else Inr obj)"

definition os_setMap_out ::
    "opt_values \<Rightarrow> string \<Rightarrow> (string \<Rightarrow> 'k) \<Rightarrow> string \<Rightarrow> string \<Rightarrow> (string, 'k) smap \<Rightarrow> (string, 'k) smap result" where
  "os_setMap_out options name conv keySeparator propertySeparator out =
     (if is_set options name
      then convert_properties conv propertySeparator (split (value_at options name) keySeparator) out
      else Inr out)"

definition os_setMap_normalized ::
    "opt_values \<Rightarrow> string \<Rightarrow> ('k \<Rightarrow> 'o \<Rightarrow> 'o) \<Rightarrow> ((string, string) smap \<Rightarrow> 'k) \<Rightarrow> string \<Rightarrow> string \<Rightarrow> 'o \<Rightarrow> 'o result" where
  "os_setMap_normalized options name setter normalizer keySeparator propertySeparator obj =
     (if is_set options name
      then res_bind (option_map (value_at options name) keySeparator propertySeparator [])
             (\<lambda>properties. let normalizedValue = normalizer properties in Inr (setter normalizedValue obj))
      else Inr obj)"

definition os_setList :: "opt_values \<Rightarrow> string \<Rightarrow> ('k \<Rightarrow> 'o \<Rightarrow> 'o) \<Rightarrow> (string list \<Rightarrow> 'k) \<Rightarrow> string \<Rightarrow> 'o \<Rightarrow> 'o" where
  "os_setList options name setter normalizer keySeparator obj =
     (if is_set options name
      then let entries = fold (\<lambda>s l. l @ [s]) (split (value_at options name) keySeparator) [];
               normalizedValue = normalizer entries
           in setter normalizedValue obj
      else obj)"

subsection \<open>The content of a message\<close>

lemma word_shrinks:
  assumes "s = dropWhile is_space t" and "s \<noteq> []"
  shows "length (dropWhile (\<lambda>c. \<not> is_space c) s) < length t"
proof -
  have "\<not> is_space (hd s)" using assms(2) unfolding assms(1) by (rule hd_dropWhile)
  then obtain c r where "s = c # r" "dropWhile (\<lambda>c. \<not> is_space c) s = dropWhile (\<lambda>c. \<not> is_space c) r"
    using assms(2) by (cases s) auto
  moreover have "length s \<le> length t" by (simp add: assms(1) length_dropWhile_le)
  moreover have "length (dropWhile (\<lambda>c. \<not> is_space c) r) \<le> length r" for r by (rule length_dropWhile_le)
  ultimately show ?thesis by (metis length_Cons less_Suc_eq_le order.strict_trans2)
qed

text \<open>
  The file system is the argument \<open>files\<close>. \<open>read_words\<close> is the loop \<open>while (!eof) stream >> content\<close>: an extraction
  that finds only spaces leaves \<open>content\<close> as it was, and one that stops at the end of the file ends the loop.
\<close>

definition fileExists :: "(string \<Rightarrow> string option) \<Rightarrow> string \<Rightarrow> bool" where
  "fileExists files name = (files name \<noteq> None)"

function read_words :: "string \<Rightarrow> string \<Rightarrow> string" where
  "read_words content inputStream =
     (let s = dropWhile is_space inputStream; w = takeWhile (\<lambda>c. \<not> is_space c) s; rest = dropWhile (\<lambda>c. \<not> is_space c) s
      in if s = [] then content else if rest = [] then w else read_words w rest)"
  by pat_completeness auto
termination
  by (relation "measure (length \<circ> snd)") (auto intro: word_shrinks [OF refl] simp del: dropWhile_eq_Nil_conv)

declare read_words.simps [simp del]

definition getContent :: "(string \<Rightarrow> string option) \<Rightarrow> opt_values \<Rightarrow> (log_level \<times> log_value list) list \<times> string result" where
  "getContent files options =
     (if is_set options ''msg-content'' then ([], Inr (value_at options ''msg-content''))
      else if is_set options ''msg-content-from-file'' then
        (let contentFile = value_at options ''msg-content-from-file''
         in if \<not> fileExists files contentFile
            then ([(Log_error, [LStr ''The file '', LStr contentFile, LStr '' does'', LStr '' not exist''])],
                  Inl (Io_exception (''The file '' @ contentFile @ '' does not exist'')))
            else (let content = read_words '''' (the (files contentFile))
                  in ([(Log_debug, [LStr ''Read from file '', LStr content])], Inr content)))
      else ([], Inr ''''))"

text \<open>
  The whitespace-separated words of a text, as a reference: \<open>getContent\<close> keeps the last word of the file.
\<close>

function words :: "string \<Rightarrow> string list" where
  "words t =
     (let s = dropWhile is_space t
      in if s = [] then [] else takeWhile (\<lambda>c. \<not> is_space c) s # words (dropWhile (\<lambda>c. \<not> is_space c) s))"
  by pat_completeness auto
termination
  by (relation "measure length") (auto intro: word_shrinks [OF refl] simp del: dropWhile_eq_Nil_conv)

declare words.simps [simp del]

lemma read_words_eq: "read_words content t = (if words t = [] then content else last (words t))"
proof (induction content t rule: read_words.induct)
  case (1 content t)
  let ?s = "dropWhile is_space t"
  let ?r = "dropWhile (\<lambda>c. \<not> is_space c) ?s"
  show ?case
  proof (cases "?s = []")
    case False
    have w: "words t = takeWhile (\<lambda>c. \<not> is_space c) ?s # words ?r" using False by (subst words.simps) (simp add: Let_def del: dropWhile_eq_Nil_conv)
    show ?thesis
    proof (cases "?r = []")
      case True
      have "words [] = []" by (subst words.simps) simp
      then have "words ?r = []" using True by (simp only:)
      moreover have "read_words content t = takeWhile (\<lambda>c. \<not> is_space c) ?s"
        using True False by (subst read_words.simps) (simp add: Let_def del: dropWhile_eq_Nil_conv)
      ultimately show ?thesis using w by simp
    next
      case nonempty: False
      then have "read_words content t = read_words (takeWhile (\<lambda>c. \<not> is_space c) ?s) ?r"
        using False by (subst read_words.simps) (simp add: Let_def del: dropWhile_eq_Nil_conv)
      also have "\<dots> = (if words ?r = [] then takeWhile (\<lambda>c. \<not> is_space c) ?s else last (words ?r))"
        using 1 [OF refl refl refl False nonempty] .
      finally show ?thesis using w by simp
    qed
  qed (subst read_words.simps, subst words.simps, simp)
qed

subsection \<open>Normalizers\<close>

definition normalizeIdFunc :: "string \<Rightarrow> (log_level \<times> log_value list) \<times> amqp_value" where
  "normalizeIdFunc orig = ((Log_debug, [LStr ''Using ID normalizer: '', LStr orig]), VString orig)"

definition unroll_list :: "string list \<Rightarrow> string" where
  "unroll_list e = fold (\<lambda>s ret. (ret @ s) @ '';'') e ''''"

definition unroll_map :: "(string, string) smap \<Rightarrow> string" where
  "unroll_map e = fold (\<lambda>(k, v) ret. (((ret @ k) @ ''='') @ v) @ '';'') e ''{'' @ ''}''"

definition normalizeList :: "string list \<Rightarrow> (log_level \<times> log_value list) \<times> amqp_value" where
  "normalizeList orig = ((Log_debug, [LStr ''Using list normalizer: '', LStr (unroll_list orig)]), VList (map VString orig))"

definition normalizeMap :: "(string, string) smap \<Rightarrow> (log_level \<times> log_value list) \<times> amqp_value" where
  "normalizeMap orig =
     ((Log_debug, [LStr ''Using map normalizer: '', LStr (unroll_map orig)]), VMap (map (\<lambda>(k, v). (VString k, VString v)) orig))"

end
