(* ===== verification/ClientM.thy ===== *)
theory ClientM
  imports OptionsH CommonH
begin

text \<open>
  What the three clients (\<open>SendingClient\<close>, \<open>ReceivingClient\<close> and \<open>ConnectingClient\<close>, src/src/api/qpid-proton/reactor) do alike in
  \<open>run\<close>: the command line, the address, the credentials and the connection settings they hand to their handler,
  and how a run ends. \<open>duration::FOREVER\<close> in milliseconds is a number of the client library, the argument \<open>forever\<close>.
\<close>

subsection \<open>Reading one option\<close>

definition text_option :: "opt_values \<Rightarrow> string \<Rightarrow> string \<Rightarrow> string" where
  "text_option options d dflt = (if is_set options d then value_at options d else dflt)"

definition lower_option :: "opt_values \<Rightarrow> string \<Rightarrow> string \<Rightarrow> string" where
  "lower_option options d dflt = (if is_set options d then lower (value_at options d) else dflt)"

definition int_option :: "opt_values \<Rightarrow> string \<Rightarrow> int \<Rightarrow> int" where
  "int_option options d dflt = (if is_set options d then get_int options d else dflt)"

text \<open>\<open>int32_t\<close> and \<open>uint32_t\<close> variables assigned from \<open>strtol\<close> and \<open>strtoul\<close>.\<close>

definition int32_option :: "opt_values \<Rightarrow> string \<Rightarrow> int \<Rightarrow> int" where
  "int32_option options d dflt = (if is_set options d then wrap32 (strtol (value_at options d)) else dflt)"

definition uint32_option :: "opt_values \<Rightarrow> string \<Rightarrow> int \<Rightarrow> int" where
  "uint32_option options d dflt = (if is_set options d then uwrap32 (strtoul (value_at options d)) else dflt)"

subsection \<open>Address and credentials\<close>

text \<open>The address the handler gets: the first \<open>topic://\<close> is cut out, and tells that it is a topic.\<close>

definition topic_prefix :: string where
  "topic_prefix = ''topic://''"

definition topic_address :: "string \<Rightarrow> string \<times> bool" where
  "topic_address tempAddress =
     (case find_opt tempAddress topic_prefix 0 of
        Some i \<Rightarrow> (take i tempAddress @ drop (i + 8) tempAddress, True)
      | None \<Rightarrow> (tempAddress, False))"

text \<open>\<open>std::getline(stream, segment, ',')\<close> until it fails.\<close>

fun getline_loop :: "string \<Rightarrow> string \<Rightarrow> string list" where
  "getline_loop segment [] = (if segment = [] then [] else [segment])"
| "getline_loop segment (c # s) = (if c = CHR '','' then segment # getline_loop [] s else getline_loop (segment @ [c]) s)"

definition conn_urls_of :: "opt_values \<Rightarrow> string list" where
  "conn_urls_of options = (if is_set options ''conn-urls'' then getline_loop [] (value_at options ''conn-urls'') else [])"

definition user_of :: "opt_values \<Rightarrow> uri_parser \<Rightarrow> string" where
  "user_of options u = text_option options ''user'' (u_user u)"

definition password_of :: "opt_values \<Rightarrow> uri_parser \<Rightarrow> string" where
  "password_of options u = text_option options ''password'' (u_password u)"

definition sasl_of :: "opt_values \<Rightarrow> string \<Rightarrow> string \<Rightarrow> string" where
  "sasl_of options user password =
     (if is_set options ''sasl-mechanisms'' then value_at options ''sasl-mechanisms''
      else if user \<noteq> '''' \<and> password \<noteq> '''' then ''PLAIN'' else ''ANONYMOUS'')"

subsection \<open>Reconnection\<close>

definition reconnect_custom :: "opt_values \<Rightarrow> bool" where
  "reconnect_custom options =
     (is_set options ''conn-reconnect-interval'' \<or> is_set options ''conn-reconnect-limit'' \<or>
      is_set options ''conn-reconnect-timeout'' \<or> is_set options ''conn-reconnect-first'' \<or>
      is_set options ''conn-reconnect-increment'' \<or> is_set options ''conn-reconnect-doubling'')"

definition reconnect_doubling :: "opt_values \<Rightarrow> bool" where
  "reconnect_doubling options =
     (\<not> (is_set options ''conn-reconnect-doubling'' \<and> value_at options ''conn-reconnect-doubling'' = ''false''))"

subsection \<open>All of it\<close>

definition client_settings :: "int \<Rightarrow> opt_values \<Rightarrow> uri_parser \<Rightarrow> string \<Rightarrow> conn_settings" where
  "client_settings forever options u log_msgs =
     (let user = user_of options u; password = password_of options u
      in \<lparr>c_conn_urls = conn_urls_of options,
          c_is_topic = snd (topic_address (value_at options ''broker-url'')),
          c_user = user, c_password = password, c_sasl_mechanisms = sasl_of options user password,
          c_conn_sasl_enabled = lower_option options ''conn-sasl-enabled'' ''true'',
          c_ssl_certificate = text_option options ''conn-ssl-certificate'' '''',
          c_ssl_private_key = text_option options ''conn-ssl-private-key'' '''',
          c_ssl_password = text_option options ''conn-ssl-password'' '''',
          c_ssl_trust_store = text_option options ''conn-ssl-trust-store'' '''',
          c_ssl_verify_peer = is_set options ''conn-ssl-verify-peer'',
          c_ssl_verify_peer_name = is_set options ''conn-ssl-verify-peer-name'',
          c_reconnect = lower_option options ''conn-reconnect'' ''true'',
          c_reconnect_interval = int32_option options ''conn-reconnect-interval'' 10,
          c_reconnect_limit = int32_option options ''conn-reconnect-limit'' 0,
          c_reconnect_timeout = int32_option options ''conn-reconnect-timeout'' (wrap32 forever),
          c_reconnect_first = uint32_option options ''conn-reconnect-first'' 0,
          c_reconnect_increment = uint32_option options ''conn-reconnect-increment'' 100,
          c_reconnect_doubling = reconnect_doubling options,
          c_reconnect_custom = reconnect_custom options,
          c_heartbeat = uint32_option options ''conn-heartbeat'' 0,
          c_max_frame_size = uint32_option options ''conn-max-frame-size'' UINT32_MAX,
          c_use_config_file = is_set options ''conn-use-config-file'',
          c_log_msgs = log_msgs\<rparr>)"

subsection \<open>The beginning and the end of run\<close>

text \<open>
  What \<open>run\<close> has prepared when it starts the container: the logger, the service it traces under, the container's
  name and the handler.
\<close>

record 'h client =
  cl_logger :: log_world
  cl_tracing :: "string option"
  cl_container :: "string option"
  cl_handler :: 'h

text \<open>Parsing, validation and the log level; the values the rest of \<open>run\<close> reads, and the parser with its callbacks.\<close>

definition client_options ::
    "opt_parser \<Rightarrow> string \<Rightarrow> (opt_parser \<Rightarrow> opt_values \<Rightarrow> opt_stop + unit) \<Rightarrow> string list \<Rightarrow> opt_stop + (opt_parser \<times> log_world)" where
  "client_options parser desc validate argv =
     (case parse_argv argv ((set_usage ''usage: %prog [OPTION]... DIR [FILE]...'' parser)\<lparr>p_version := ''1.0'', p_description := desc\<rparr>) of
        Inl e \<Rightarrow> Inl e
      | Inr p \<Rightarrow> (case validate p (p_values p) of
          Inl e \<Rightarrow> Inl e
        | Inr _ \<Rightarrow> Inr (p, set_log_level (p_values p) log_world_new)))"

definition client_uri :: "opt_values \<Rightarrow> opt_stop + uri_parser" where
  "client_uri options = (case uri_of (value_at options ''broker-url'') of Inl e \<Rightarrow> Inl (Throw e) | Inr u \<Rightarrow> Inr u)"

definition traces :: "opt_values \<Rightarrow> bool" where
  "traces options = (is_set options ''trace-messages'' \<and>
     (value_at options ''trace-messages'' = ''1'' \<or> value_at options ''trace-messages'' = ''true''))"

text \<open>
  How \<open>run\<close> ends when the container has returned or the handler has stopped: an exit status; an error of the standard
  library is printed and gives 1; every other exception leaves \<open>main\<close>, as \<open>TimerExpiredException\<close> and
  \<open>IOException\<close> do, which are no \<open>std::exception\<close>.
\<close>

fun standard_exception :: "cpp_exn \<Rightarrow> bool" where
  "standard_exception (Timer_expired _) = False"
| "standard_exception (Io_exception _) = False"
| "standard_exception Bad_access = False"
| "standard_exception _ = True"

datatype ending = Status int | Uncaught cpp_exn

definition client_end :: "'a common_handler_scheme \<Rightarrow> ending" where
  "client_end h =
     (case h_halt h of
        None \<Rightarrow> Status 0
      | Some (Exited n) \<Rightarrow> Status n
      | Some (Crashed e) \<Rightarrow> if standard_exception e then Status 1 else Uncaught e)"

text \<open>What the logger has written of a handler's effects.\<close>

definition client_log :: "effect list \<Rightarrow> log_world \<Rightarrow> log_world" where
  "client_log es w = fold (\<lambda>e w. case e of Log level vs \<Rightarrow> log_line level vs w | _ \<Rightarrow> w) es w"

subsection \<open>The list of connection URLs\<close>

lemma getline_free: "no_sep '','' u \<Longrightarrow> getline_loop seg u = (if seg @ u = [] then [] else [seg @ u])"
  by (induction u arbitrary: seg) (auto simp: no_sep_def)

lemma getline_segment: "no_sep '','' u \<Longrightarrow> getline_loop seg (u @ CHR '','' # v) = (seg @ u) # getline_loop [] v"
  by (induction u arbitrary: seg) (auto simp: no_sep_def)

lemma getline_join:
  "list_all (no_sep '','') urls \<Longrightarrow>
     getline_loop [] (join_with '','' urls) = (if urls \<noteq> [] \<and> last urls = '''' then butlast urls else urls)"
  by (induction "'',''" urls rule: join_with.induct) (auto simp: getline_segment getline_free)

text \<open>
  C20. The URLs given with \<open>--conn-urls\<close>, written with commas between them, are what the connection options get, in
  order and empty ones included; only an empty last one is dropped. Without the option there are none.
\<close>

theorem conn_urls_roundtrip:
  assumes "list_all (no_sep '','') urls"
  shows "c_conn_urls (client_settings forever (put_value ''conn-urls'' (join_with '','' urls) options) u log_msgs) =
    (if urls \<noteq> [] \<and> last urls = '''' then butlast urls else urls)"
  using getline_join [OF assms]
  by (simp add: client_settings_def Let_def conn_urls_of_def is_set_def value_at_def put_value_def smap_get_put)

lemma conn_urls_roundtrip_witness:
  "c_conn_urls (client_settings 0 (put_value ''conn-urls'' ''a:1,,b:2'' values_new) (projr (uri_of ''h'')) '''') = [''a:1'', '''', ''b:2'']"
proof -
  have "list_all (no_sep '','') [''a:1'', '''', ''b:2'']" "join_with '','' [''a:1'', '''', ''b:2''] = ''a:1,,b:2''" by code_simp+
  with conn_urls_roundtrip [of "[''a:1'', '''', ''b:2'']" 0 values_new "projr (uri_of ''h'')" "''''"] show ?thesis by simp
qed

end
