(* ===== verification/SendingM.thy ===== *)
theory SendingM
  imports ClientM Callback SenderH
begin

text \<open>
  \<open>SendingClient\<close> (src/src/api/qpid-proton/reactor/SendingClient.cpp): the message built from the options, the
  settings of the handler, and the run of the client.
\<close>

subsection \<open>Names and values\<close>

text \<open>
  \<open>nameVal\<close>: the result, the name, the value (which stays empty when the result is \<open>False\<close>) and the separator.
\<close>

definition nameVal :: "string \<Rightarrow> bool \<times> string \<times> string \<times> string" where
  "nameVal input =
     (case find_opt input ''='' 0 of
        None \<Rightarrow>
          (case find_opt input ''~'' 0 of
             None \<Rightarrow> (False, input, '''', ''~'')
           | Some i \<Rightarrow> (if i + 1 < length input then (True, take i input, drop (i + 1) input, ''~'')
                       else (False, take i input, '''', ''~'')))
      | Some i \<Rightarrow> (if i + 1 < length input then (True, take i input, drop (i + 1) input, ''='')
                  else (False, take i input, '''', ''='')))"

text \<open>
  \<open>atof\<close>: a double is known by the characters it is converted from, the longest start of the text that
  \<open>strtod\<close> accepts; \<open>0\<close> stands for no conversion.
\<close>

definition is_hex :: "char \<Rightarrow> bool" where
  "is_hex c = (is_digit c \<or> to_lower c \<in> set ''abcdef'')"

definition exponent_text :: "char \<Rightarrow> string \<Rightarrow> string" where
  "exponent_text mark s =
     (case s of
        [] \<Rightarrow> ''''
      | c # r \<Rightarrow>
          if to_lower c = mark
          then let (sg, t) = (case r of d # u \<Rightarrow> if d = CHR ''+'' \<or> d = CHR ''-'' then ([d], u) else ([], r) | [] \<Rightarrow> ([], []));
                   ds = takeWhile is_digit t
               in if ds = [] then '''' else c # sg @ ds
          else '''')"

definition mantissa_text :: "(char \<Rightarrow> bool) \<Rightarrow> char \<Rightarrow> string \<Rightarrow> string" where
  "mantissa_text digit mark s =
     (let ip = takeWhile digit s; r = dropWhile digit s;
          (fp, rest) = (if r \<noteq> [] \<and> hd r = CHR ''.'' then (CHR ''.'' # takeWhile digit (tl r), dropWhile digit (tl r)) else ([], r))
      in if ip = [] \<and> length fp \<le> 1 then '''' else ip @ fp @ exponent_text mark rest)"

definition nan_text :: "string \<Rightarrow> string" where
  "nan_text s =
     (let r = drop 3 s; w = takeWhile (\<lambda>c. is_digit c \<or> to_lower c \<noteq> to_upper c \<or> c = CHR ''_'') (drop 1 r)
      in take 3 s @ (if take 1 r = ''('' \<and> take 1 (drop (1 + length w) r) = '')'' then take (2 + length w) r else ''''))"

definition unsigned_double_text :: "string \<Rightarrow> string" where
  "unsigned_double_text s =
     (if prefix ''infinity'' (lower s) then take 8 s
      else if prefix ''inf'' (lower s) then take 3 s
      else if prefix ''nan'' (lower s) then nan_text s
      else if prefix ''0x'' (lower s) \<and> mantissa_text is_hex (CHR ''p'') (drop 2 s) \<noteq> ''''
        then take 2 s @ mantissa_text is_hex (CHR ''p'') (drop 2 s)
      else mantissa_text is_digit (CHR ''e'') s)"

definition atof :: "string \<Rightarrow> amqp_value" where
  "atof s =
     (let t = dropWhile is_space s;
          (sg, u) = (case t of c # r \<Rightarrow> if c = CHR ''+'' \<or> c = CHR ''-'' then ([c], r) else ([], t) | [] \<Rightarrow> ([], []));
          d = unsigned_double_text u
      in VDouble (if d = '''' then ''0'' else sg @ d))"

text \<open>The conversion behind \<open>~\<close>: \<open>atof\<close> and \<open>atol\<close> do not throw, so the branch that keeps the text is never taken.\<close>

definition maybe_double :: "string \<Rightarrow> bool" where
  "maybe_double val = (find_opt val ''.'' 0 \<noteq> None \<or> find_opt val ''e'' 0 \<noteq> None \<or> find_opt val ''E'' 0 \<noteq> None)"

definition auto_cast :: "string \<Rightarrow> amqp_value" where
  "auto_cast val =
     (let temp = lower val
      in if temp = ''true'' then VBool True
         else if temp = ''false'' then VBool False
         else if maybe_double val then atof val
         else VLong (strtol val))"

definition setMessageProperty :: "string \<Rightarrow> message \<Rightarrow> message" where
  "setMessageProperty property msg =
     (let (ok, name, val, separator) = nameVal property
      in if ok \<and> separator = ''~'' then msg\<lparr>m_properties := smap_put name (auto_cast val) (m_properties msg)\<rparr>
         else msg\<lparr>m_properties := smap_put name (VString val) (m_properties msg)\<rparr>)"

definition setMessageListItem :: "string \<Rightarrow> amqp_value list \<Rightarrow> amqp_value list" where
  "setMessageListItem property messageList =
     (let (ok, name, val, separator) = nameVal property
      in if ok \<and> separator = ''~''
         then let temp = lower val
              in if temp = ''true'' then messageList @ [VBool True]
                 else if temp = ''false'' then messageList @ [VBool False]
                 else if maybe_double val then messageList @ [atof val]
                 else if find_opt val ''~'' 0 \<noteq> None then messageList @ [VString val]
                 else messageList @ [VLong (strtol val)]
         else messageList @ [VString name])"

definition setMessageMapItem :: "string \<Rightarrow> (string, amqp_value) smap \<Rightarrow> (string, amqp_value) smap" where
  "setMessageMapItem property messageMap =
     (let (ok, name, val, separator) = nameVal property
      in if ok \<and> separator = ''~'' then smap_put name (auto_cast val) messageMap
         else smap_put name (VString val) messageMap)"

subsection \<open>The message\<close>

definition setMessageProperties :: "append_callback \<Rightarrow> message \<Rightarrow> message result" where
  "setMessageProperties callbackProperty msg =
     res_bind (get_strings callbackProperty) (\<lambda>properties. Inr (fold setMessageProperty properties msg))"

definition setMessageList :: "append_callback \<Rightarrow> message \<Rightarrow> message result" where
  "setMessageList callbackList msg =
     res_bind (get_strings callbackList) (\<lambda>items. Inr (msg\<lparr>m_body := VList (fold setMessageListItem items [])\<rparr>))"

definition setMessageMap :: "append_callback \<Rightarrow> message \<Rightarrow> message result" where
  "setMessageMap callbackMap msg =
     res_bind (get_strings callbackMap) (\<lambda>items. Inr (msg\<lparr>m_body := VMap (map (apfst VString) (fold setMessageMapItem items []))\<rparr>))"

definition setMessageText :: "string \<Rightarrow> message \<Rightarrow> message" where
  "setMessageText content msg = msg\<lparr>m_body := VString content\<rparr>"

text \<open>The conversion to \<open>duration\<close> reads an unsigned number of 64 bits, as streams do: a minus sign negates.\<close>

definition get_duration :: "opt_values \<Rightarrow> string \<Rightarrow> int" where
  "get_duration options d =
     (if is_set options d
      then case scan_int (value_at options d) of
             None \<Rightarrow> 0 | Some v \<Rightarrow> if \<bar>v\<bar> > ULONG_MAX then 0 else v mod 2 ^ 64
      else 0)"

definition setMessageOptions :: "opt_values \<Rightarrow> message \<Rightarrow> message" where
  "setMessageOptions options msg =
     fold (\<lambda>f m. f m)
      [os_set options ''msg-reply-to'' (\<lambda>v m. m\<lparr>m_reply_to := v\<rparr>),
       os_set options ''msg-to'' (\<lambda>v m. m\<lparr>m_to := v\<rparr>),
       os_set options ''msg-correlation-id'' (\<lambda>v m. m\<lparr>m_correlation_id := VString v\<rparr>),
       os_set options ''msg-content-type'' (\<lambda>v m. m\<lparr>m_content_type := v\<rparr>),
       os_set options ''msg-subject'' (\<lambda>v m. m\<lparr>m_subject := v\<rparr>),
       os_set options ''msg-id'' (\<lambda>v m. m\<lparr>m_id := VString v\<rparr>),
       os_setNumber_default options ''msg-ttl'' get_duration (\<lambda>v m. m\<lparr>m_ttl := v\<rparr>) 0,
       os_set options ''msg-user-id'' (\<lambda>v m. m\<lparr>m_user := v\<rparr>),
       os_setNumber options ''msg-priority'' (\<lambda>v m. m\<lparr>m_priority := v mod 256\<rparr>),
       os_setBoolean options ''msg-durable'' (\<lambda>v m. m\<lparr>m_durable := v\<rparr>),
       os_set options ''msg-group-id'' (\<lambda>v m. m\<lparr>m_group_id := v\<rparr>),
       os_set options ''reply-to-group-id'' (\<lambda>v m. m\<lparr>m_reply_to_group_id := v\<rparr>)] msg"

text \<open>The part of \<open>run\<close> that builds the message; the three callbacks belong to the parser.\<close>

definition sending_body :: "opt_parser \<Rightarrow> opt_values \<Rightarrow> message \<Rightarrow> message result" where
  "sending_body p options msg =
     (if length (cb_str (callback_at p 1)) > 0 then setMessageList (callback_at p 1) msg
      else if length (cb_str (callback_at p 2)) > 0 then setMessageMap (callback_at p 2) msg
      else Inr (setMessageText (value_at options ''msg-content'') msg))"

definition sending_message :: "opt_parser \<Rightarrow> opt_values \<Rightarrow> message result" where
  "sending_message p options =
     res_bind (setMessageProperties (callback_at p 0) (setMessageOptions options message_new)) (\<lambda>m1.
     res_bind (sending_body p options m1) (\<lambda>m2.
     Inr (if is_set options ''msg-group-seq''
          then m2\<lparr>m_group_sequence := wrap32 (strtol (value_at options ''msg-group-seq''))\<rparr> else m2)))"

subsection \<open>run\<close>

definition sending_settings :: "int \<Rightarrow> opt_values \<Rightarrow> uri_parser \<Rightarrow> conn_settings" where
  "sending_settings forever options u = client_settings forever options u (text_option options ''log-msgs'' '''')"

definition sending_handler :: "int \<Rightarrow> opt_values \<Rightarrow> uri_parser \<Rightarrow> sender_handler result" where
  "sending_handler forever options u =
     sender_new (fst (topic_address (value_at options ''broker-url''))) (int_option options ''timeout'' 1)
       (int_option options ''duration'' 0) (text_option options ''duration-mode'' ''after-send'')
       (sending_settings forever options u)"

text \<open>\<open>run\<close> after validation, and the whole of it.\<close>

definition sending_client :: "int \<Rightarrow> opt_parser \<Rightarrow> log_world \<Rightarrow> opt_stop + sender_handler client" where
  "sending_client forever p logger =
     (let options = p_values p in
      case client_uri options of
        Inl e \<Rightarrow> Inl e
      | Inr u \<Rightarrow>
          (case res_bind (sending_message p options) (\<lambda>msg.
                  res_bind (sending_handler forever options u) (\<lambda>handler.
                    Inr (sender_setCount (int_option options ''count'' 1) (sender_setMessage msg handler)))) of
             Inl e \<Rightarrow> Inl (Throw e)
           | Inr handler \<Rightarrow> Inr \<lparr>cl_logger = logger, cl_tracing = (if traces options then Some ''aac3_sender'' else None),
                              cl_container = None, cl_handler = handler\<rparr>))"

definition sending_run :: "string option \<Rightarrow> int \<Rightarrow> string list \<Rightarrow> opt_stop + sender_handler client" where
  "sending_run columns forever argv =
     (case client_options (sender_parser columns) ''C/C++ AMQ reactive API sender client for Qpid Proton'' validate_sender argv of
        Inl e \<Rightarrow> Inl e
      | Inr (p, logger) \<Rightarrow> sending_client forever p logger)"

subsection \<open>What the options put into the message\<close>

lemma find_char_at:
  assumes "c \<notin> set n"
  shows "find_opt (n @ c # v) [c] 0 = Some (length n)"
  using assms by (simp add: find_opt_def find_at_char_append)

lemma find_char_none: "c \<notin> set s \<Longrightarrow> find_opt s [c] 0 = None"
  by (simp add: find_opt_def find_at_char_None)

lemma nameVal_equals: "CHR ''='' \<notin> set n \<Longrightarrow> v \<noteq> '''' \<Longrightarrow> nameVal (n @ CHR ''='' # v) = (True, n, v, ''='')"
  by (cases v) (simp_all add: nameVal_def find_char_at)

lemma nameVal_tilde:
  "CHR ''='' \<notin> set (n @ v) \<Longrightarrow> CHR ''~'' \<notin> set n \<Longrightarrow> v \<noteq> '''' \<Longrightarrow> nameVal (n @ CHR ''~'' # v) = (True, n, v, ''~'')"
  by (cases v) (simp_all add: nameVal_def find_char_at find_char_none)

lemma show_int_chars: "c \<in> set (show_int i) \<Longrightarrow> is_digit c \<or> c = CHR ''-''"
proof -
  have digits: "c \<in> set (show_nat n) \<Longrightarrow> 0 \<le> n \<Longrightarrow> is_digit c" for n
    using show_nat_digits [of n] by auto
  show "c \<in> set (show_int i) \<Longrightarrow> is_digit c \<or> c = CHR ''-''"
    by (auto simp: show_int_def dest: digits split: if_splits)
qed

lemma auto_cast_int:
  assumes "LONG_MIN \<le> i" and "i \<le> LONG_MAX"
  shows "auto_cast (show_int i) = VLong i"
proof -
  have ne: "show_int i \<noteq> ''''" using scan_int_show_int [of i] by (auto simp: scan_int_def scan_sign_def)
  have not: "c \<notin> set (show_int i)" if "\<not> is_digit c" "c \<noteq> CHR ''-''" for c using show_int_chars that by blast
  have "\<not> maybe_double (show_int i)"
    by (simp add: maybe_double_def find_char_none not is_digit_def code_of_def)
  moreover have "hd (lower (show_int i)) \<noteq> CHR ''t'' \<and> hd (lower (show_int i)) \<noteq> CHR ''f''"
  proof -
    have "hd (show_int i) \<in> set (show_int i)" using ne by simp
    then have "is_digit (hd (show_int i)) \<or> hd (show_int i) = CHR ''-''" by (rule show_int_chars)
    moreover have "hd (lower (show_int i)) = to_lower (hd (show_int i))" using ne by (cases "show_int i") (simp_all add: lower_def)
    ultimately show ?thesis by (auto simp: to_lower_def is_digit_def code_of_def)
  qed
  ultimately show ?thesis using strtol_show_int [OF assms] by (auto simp: auto_cast_def Let_def)
qed

text \<open>
  The items of \<open>--msg-property\<close> and \<open>--msg-content-map-item\<close> as a user writes them: a text after an equals sign, a
  number or a truth value after a tilde.
\<close>

datatype item =
    Text string string
  | Number string int
  | Flag string bool

fun item_name :: "item \<Rightarrow> string" where
  "item_name (Text n v) = n"
| "item_name (Number n i) = n"
| "item_name (Flag n b) = n"

fun item_value :: "item \<Rightarrow> amqp_value" where
  "item_value (Text n v) = VString v"
| "item_value (Number n i) = VLong i"
| "item_value (Flag n b) = VBool b"

fun item_text :: "item \<Rightarrow> string" where
  "item_text (Text n v) = n @ CHR ''='' # v"
| "item_text (Number n i) = n @ CHR ''~'' # show_int i"
| "item_text (Flag n b) = n @ CHR ''~'' # (if b then ''true'' else ''false'')"

text \<open>No separator in a name (a tilde may stand in the name of a text), no semicolon, no empty text, a 64-bit number.\<close>

fun item_fits :: "item \<Rightarrow> bool" where
  "item_fits (Text n v) = (CHR ''='' \<notin> set n \<and> CHR '';'' \<notin> set n \<and> CHR '';'' \<notin> set v \<and> v \<noteq> '''')"
| "item_fits (Number n i) = (CHR ''='' \<notin> set n \<and> CHR ''~'' \<notin> set n \<and> CHR '';'' \<notin> set n \<and> LONG_MIN \<le> i \<and> i \<le> LONG_MAX)"
| "item_fits (Flag n b) = (CHR ''='' \<notin> set n \<and> CHR ''~'' \<notin> set n \<and> CHR '';'' \<notin> set n)"

lemma show_int_nonempty [simp]: "show_int i \<noteq> ''''"
  by (simp add: show_int_def)

lemma show_int_no: "\<not> is_digit c \<Longrightarrow> c \<noteq> CHR ''-'' \<Longrightarrow> c \<notin> set (show_int i)"
  using show_int_chars by blast

lemma item_nameVal:
  assumes "item_fits x"
  shows "case nameVal (item_text x) of (ok, name, val, separator) \<Rightarrow>
    name = item_name x \<and> (if ok \<and> separator = ''~'' then auto_cast val else VString val) = item_value x"
proof (cases x)
  case (Number n i)
  have "CHR ''='' \<notin> set (n @ show_int i)" using assms Number show_int_no [of "CHR ''=''" i] by (simp add: is_digit_def code_of_def)
  then show ?thesis using assms Number by (simp add: nameVal_tilde auto_cast_int)
next
  case (Flag n b)
  have "auto_cast ''true'' = VBool True" "auto_cast ''false'' = VBool False" by code_simp+
  then show ?thesis using assms Flag by (simp add: nameVal_tilde)
qed (use assms in \<open>simp add: nameVal_equals\<close>)

lemma property_item: "item_fits x \<Longrightarrow> setMessageProperty (item_text x) m = m\<lparr>m_properties := smap_put (item_name x) (item_value x) (m_properties m)\<rparr>"
  using item_nameVal [of x] by (cases "nameVal (item_text x)") (auto simp: setMessageProperty_def)

lemma map_item: "item_fits x \<Longrightarrow> setMessageMapItem (item_text x) mp = smap_put (item_name x) (item_value x) mp"
  using item_nameVal [of x] by (cases "nameVal (item_text x)") (auto simp: setMessageMapItem_def)

lemma item_no_sep: "item_fits x \<Longrightarrow> no_sep '';'' (item_text x) \<and> item_text x \<noteq> quotes"
proof -
  have sep: "no_sep '';'' s \<longleftrightarrow> CHR '';'' \<notin> set s" for s by (auto simp: no_sep_def list_all_iff)
  assume ok: "item_fits x"
  have "CHR '';'' \<notin> set (show_int i)" for i by (rule show_int_no) (simp_all add: is_digit_def code_of_def)
  with ok have "no_sep '';'' (item_text x)" unfolding sep by (cases x) auto
  moreover have "CHR ''='' \<in> set (item_text x) \<or> CHR ''~'' \<in> set (item_text x)" by (cases x) auto
  then have "item_text x \<noteq> quotes" by (auto simp: quotes_def)
  ultimately show ?thesis by simp
qed

lemma items_strings:
  assumes "cpp_size (cb_str (cb_all (map item_text items)))" and "list_all item_fits items"
  shows "get_strings (cb_all (map item_text items)) = Inr (map item_text items)"
  using assms item_no_sep by (intro callback_roundtrip) (auto simp: list_all_iff)

lemma properties_fold:
  "list_all item_fits items \<Longrightarrow> m_properties (fold setMessageProperty (map item_text items) m) =
     fold (\<lambda>(k, v). smap_put k v) (map (\<lambda>x. (item_name x, item_value x)) items) (m_properties m)"
  by (induction items arbitrary: m) (auto simp: property_item)

lemma map_items_fold:
  "list_all item_fits items \<Longrightarrow> fold setMessageMapItem (map item_text items) mp =
     fold (\<lambda>(k, v). smap_put k v) (map (\<lambda>x. (item_name x, item_value x)) items) mp"
  by (induction items arbitrary: mp) (auto simp: map_item)

text \<open>
  C12. What is asked for with \<open>--msg-property\<close> is what the message carries: after any number of well-formed items, in
  every name the value given last, a text, a number or a truth value as it was written, and every other property as
  before; and a map body built from the same items has the same entries and no others.
\<close>

theorem message_items_stored:
  assumes "cpp_size (cb_str (cb_all (map item_text items)))" and "list_all item_fits items" and "smap_sorted (m_properties msg)"
  shows "\<exists>m m'. setMessageProperties (cb_all (map item_text items)) msg = Inr m \<and>
    smap_get (m_properties m) = smap_get (m_properties msg) ++ map_of (rev (map (\<lambda>x. (item_name x, item_value x)) items)) \<and>
    setMessageMap (cb_all (map item_text items)) msg = Inr m' \<and>
    (case m_body m' of VMap kvs \<Rightarrow> \<exists>mp. kvs = map (apfst VString) mp \<and>
       smap_get mp = map_of (rev (map (\<lambda>x. (item_name x, item_value x)) items)) | _ \<Rightarrow> False)"
proof -
  let ?kvs = "map (\<lambda>x. (item_name x, item_value x)) items"
  have strings: "get_strings (cb_all (map item_text items)) = Inr (map item_text items)"
    by (rule items_strings [OF assms(1,2)])
  have "smap_get (fold (\<lambda>(k, v). smap_put k v) ?kvs mp) = smap_get mp ++ map_of (rev ?kvs)" if "smap_sorted mp" for mp
    by (rule smap.put_all_get [OF that])
  from this [OF assms(3)] this [OF smap.invar_empty] show ?thesis
    by (simp add: setMessageProperties_def setMessageMap_def strings properties_fold [OF assms(2)] map_items_fold [OF assms(2)]
        smap.get_empty) (rule exI, rule conjI, rule refl, assumption)
qed

lemma message_items_stored_witness:
  "\<exists>m. setMessageProperties (cb_all [''a=x'', ''n~-7'', ''a=y'']) message_new = Inr m \<and>
     smap_get (m_properties m) ''a'' = Some (VString ''y'') \<and> smap_get (m_properties m) ''n'' = Some (VLong (- 7))"
proof -
  let ?items = "[Text ''a'' ''x'', Number ''n'' (- 7), Text ''a'' ''y'']"
  have ok: "cpp_size (cb_str (cb_all (map item_text ?items)))" "list_all item_fits ?items" "smap_sorted (m_properties message_new)"
    "map item_text ?items = [''a=x'', ''n~-7'', ''a=y'']" by code_simp+
  have get: "smap_get (m_properties message_new) = Map.empty" by (simp add: message_new_def smap.get_empty)
  from message_items_stored [OF ok(1-3)] obtain m where
    "setMessageProperties (cb_all (map item_text ?items)) message_new = Inr m"
    "smap_get (m_properties m) = map_of (rev (map (\<lambda>x. (item_name x, item_value x)) ?items))"
    unfolding get by auto
  then show ?thesis unfolding ok(4) by (intro exI [of _ m]) simp
qed

text \<open>
  An item of a list body that is written \<open>NAME=VALUE\<close> loses its value: only the name becomes an element, whatever
  the value is.
\<close>

lemma list_item_keeps_name_only:
  assumes "CHR ''='' \<notin> set name"
  shows "setMessageListItem (name @ CHR ''='' # val) items = items @ [VString name]"
  using assms by (cases val) (simp_all add: setMessageListItem_def nameVal_def find_char_at)

text \<open>
  C19. The option \<open>--msg-content-from-file\<close> has no effect on the message: two command lines that agree on every other
  option the message is built from give the same message, and without list or map items the body is the text of
  \<open>--msg-content\<close>, empty when that was not given.
\<close>

theorem content_from_file_ignored:
  "sending_message p (put_value ''msg-content-from-file'' file options) = sending_message p options \<and>
   (if cb_str (callback_at p 1) = '''' \<and> cb_str (callback_at p 2) = ''''
    then sending_body p options msg = Inr (msg\<lparr>m_body := VString (value_at options ''msg-content'')\<rparr>) else True)"
proof -
  have put: "smap_get (v_map (put_value ''msg-content-from-file'' file options)) d = smap_get (v_map options) d"
    if "d \<noteq> ''msg-content-from-file''" for d
    using that by (simp add: put_value_def smap_get_put)
  have same: "is_set (put_value ''msg-content-from-file'' file options) d = is_set options d"
    "value_at (put_value ''msg-content-from-file'' file options) d = value_at options d"
    if "d \<noteq> ''msg-content-from-file''" for d
    using put [OF that] by (simp_all add: is_set_def value_at_def)
  have sets: "os_set (put_value ''msg-content-from-file'' file options) d = os_set options d"
    "os_setNumber (put_value ''msg-content-from-file'' file options) d = os_setNumber options d"
    "os_setBoolean (put_value ''msg-content-from-file'' file options) d = os_setBoolean options d"
    "os_setNumber_default (put_value ''msg-content-from-file'' file options) d get_duration =
       os_setNumber_default options d get_duration"
    if "d \<noteq> ''msg-content-from-file''" for d
    by (simp_all add: fun_eq_iff os_set_def os_setNumber_def os_setNumber_default_def os_setBoolean_def get_int_def
        get_duration_def same [OF that])
  have "setMessageOptions (put_value ''msg-content-from-file'' file options) = setMessageOptions options"
    by (simp add: fun_eq_iff setMessageOptions_def sets)
  moreover have "sending_body p (put_value ''msg-content-from-file'' file options) = sending_body p options"
    by (simp add: fun_eq_iff sending_body_def same)
  ultimately show ?thesis
    by (simp add: sending_message_def same cong: if_cong) (simp add: sending_body_def setMessageText_def)
qed

subsection \<open>From the command line to the messages\<close>

lemma int_option_int32: "int32 dflt \<Longrightarrow> int32 (int_option options d dflt)"
proof -
  have "int32 0" by (simp add: int32_def int_limits)
  then show "int32 dflt \<Longrightarrow> ?thesis"
    by (auto simp: int_option_def get_int_def dest: extract_int_range split: option.split)
qed

lemma sending_client_handler:
  assumes "sending_client forever p logger = Inr cl"
  obtains url d mode u s0 m where
    "sender_new url (int_option (p_values p) ''timeout'' 1) d mode (sending_settings forever (p_values p) u) = Inr s0"
    "sending_message p (p_values p) = Inr m"
    "cl_handler cl = sender_for s0 (int_option (p_values p) ''count'' 1) m"
proof -
  obtain u where u: "client_uri (p_values p) = Inr u" using assms by (auto simp: sending_client_def Let_def split: sum.splits)
  have "res_bind (sending_message p (p_values p)) (\<lambda>msg. res_bind (sending_handler forever (p_values p) u) (\<lambda>handler.
      Inr (sender_setCount (int_option (p_values p) ''count'' 1) (sender_setMessage msg handler)))) = Inr (cl_handler cl)"
    using assms u by (auto simp: sending_client_def Let_def split: sum.splits)
  then obtain m s0 where "sending_message p (p_values p) = Inr m" "sending_handler forever (p_values p) u = Inr s0"
    and h: "sender_setCount (int_option (p_values p) ''count'' 1) (sender_setMessage m s0) = cl_handler cl"
    unfolding res_bind_eq_Inr sum.inject by blast
  moreover from h have "cl_handler cl = sender_for s0 (int_option (p_values p) ''count'' 1) m" by (simp add: sender_for_def)
  ultimately show thesis using that unfolding sending_handler_def by blast
qed

text \<open>
  From the options to the wire: whatever options a sender was given, in every run it sends numbered copies of the
  message that the options describe, in order, without gap or repetition, at most \<open>--count\<close> of them (one by default),
  and closes the connection once all are confirmed.
\<close>

lemma sending_client_wire:
  assumes "sending_client forever p logger = Inr cl"
    and "reaches (sender_step L) sender_ok (cl_handler cl) s"
  shows "\<exists>m. sending_message p (p_values p) = Inr m \<and>
    sent_messages (h_effects s) = map (\<lambda>i. number_message i m) [0..int (length (sent_messages (h_effects s))) - 1] \<and>
    int (length (sent_messages (h_effects s))) \<le> max 0 (int_option (p_values p) ''count'' 1) \<and>
    closings (h_effects s) =
      (if 0 < int_option (p_values p) ''count'' 1 \<and> sh_confirmed s = int_option (p_values p) ''count'' 1 then 1 else 0)"
proof -
  obtain url d mode u s0 m where s0:
    "sender_new url (int_option (p_values p) ''timeout'' 1) d mode (sending_settings forever (p_values p) u) = Inr s0"
    "sending_message p (p_values p) = Inr m" "cl_handler cl = sender_for s0 (int_option (p_values p) ''count'' 1) m"
    using sending_client_handler [OF assms(1)] .
  have one: "int32 1" by (simp add: int32_def int_limits)
  have "reaches (sender_step L) sender_ok (sender_for s0 (int_option (p_values p) ''count'' 1) m) s"
    using assms(2) unfolding s0(3) .
  from sender.reaches_inv [OF this sender_for_inv [OF s0(1) int_option_int32 [OF one]]] sender_progress_sent s0(2)
  show ?thesis unfolding sender_inv_def by blast
qed

definition sample_options :: "(string \<times> string) list \<Rightarrow> opt_parser" where
  "sample_options kvs = (parser_new None)\<lparr>p_values := fold (\<lambda>(k, v). put_value k v) kvs values_new\<rparr>"

subsection \<open>A negative time-out\<close>

lemma sender_start_timer:
  assumes "h_halt s = None"
  shows "h_timer (sender_start s) = h_timer s"
proof -
  obtain es co where f: "finish_conn_opts s (basic_conn_opts s) = (es, co)" by (cases "finish_conn_opts s (basic_conn_opts s)")
  have "h_timer (sender_set_interval t) = h_timer t" "h_timer (sender_first_check t) = h_timer t"
    "h_halt (sender_set_interval t) = h_halt t" for t
    by (simp_all add: sender_set_interval_def sender_first_check_def Let_def)
  with assms show ?thesis by (simp add: sender_start_def f Let_def)
qed

text \<open>
  C18. A time-out below -1 is accepted, and ends the sender at its first tick with an exception that \<open>run\<close> does not
  catch: whatever the other options are, once the first time-out callback is made the program is terminated.
\<close>

theorem negative_timeout_uncaught:
  assumes "sending_client forever p logger = Inr cl"
    and "INT_MIN < int_option (p_values p) ''timeout'' 1" and "int_option (p_values p) ''timeout'' 1 < FOREVER"
  shows "case run_events (sender_step L) sender_ok [S_start, S_timer] (cl_handler cl) of
      Some s \<Rightarrow> client_end s = Uncaught (Timer_expired ''The timer timeout has expired'')
    | None \<Rightarrow> False"
proof -
  let ?t = "int_option (p_values p) ''timeout'' 1" and ?s = "cl_handler cl"
  obtain url d mode u s0 m where s0: "sender_new url ?t d mode (sending_settings forever (p_values p) u) = Inr s0"
    "sending_message p (p_values p) = Inr m"
    "?s = sender_for s0 (int_option (p_values p) ''count'' 1) m"
    using sending_client_handler [OF assms(1)] .
  note n = sender_new_state [OF s0(1)]
  have s: "h_halt ?s = None" "h_timer ?s = timer_new ?t ''timeout''" "\<not> h_work_q ?s"
    using n by (simp_all add: s0(3) sender_for_def sender_setCount_def sender_setMessage_def)
  have "wrap32 (?t - 1) = ?t - 1" using assms(2,3) by (intro wrap32_id) (simp add: int32_def int_limits FOREVER_def)
  then have t: "\<not> is_expired (timer_new ?t ''timeout'')"
    "timer_postdec (timer_new ?t ''timeout'') = Inl (Timer_expired ''The timer timeout has expired'')"
    using assms(3) by (simp_all add: timer_defs Let_def)
  note started = sender_start_timer [OF s(1)] sender_start_state(1,8) [OF s(1)]
  with s(2) t have "h_halt (sender_timerEvent (take_work Timer_event (sender_start ?s))) =
      Some (Crashed (Timer_expired ''The timer timeout has expired''))"
    by (simp add: sender_timerEvent_def take_work_def tick_timer_def crash_def)
  with started s show ?thesis by (simp add: sender_ok_def client_end_def)
qed

lemma negative_timeout_uncaught_witness:
  "case run_events (sender_step sample_lib) sender_ok [S_start, S_timer] (cl_handler (projr (sending_client 0
      (sample_options [(''broker-url'', ''h/q''), (''timeout'', ''-5'')]) log_world_new))) of
    Some s \<Rightarrow> client_end s = Uncaught (Timer_expired ''The timer timeout has expired'') | None \<Rightarrow> False"
proof -
  let ?p = "sample_options [(''broker-url'', ''h/q''), (''timeout'', ''-5'')]"
  have "\<not> isl (sending_client 0 ?p log_world_new)" by code_simp
  then have c: "sending_client 0 ?p log_world_new = Inr (projr (sending_client 0 ?p log_world_new))"
    by (cases "sending_client 0 ?p log_world_new") simp_all
  have "int_option (p_values ?p) ''timeout'' 1 = - 5" by code_simp
  then have t: "INT_MIN < int_option (p_values ?p) ''timeout'' 1" "int_option (p_values ?p) ''timeout'' 1 < FOREVER"
    by (simp_all add: int_limits FOREVER_def)
  from negative_timeout_uncaught [OF c t] show ?thesis .
qed

end
