(* ===== verification/ConnectingM.thy ===== *)
theory ConnectingM
  imports ClientM ConnectorH
begin

text \<open>
  \<open>ConnectingClient\<close> (src/src/api/qpid-proton/reactor/ConnectingClient.cpp): the objects asked for with
  \<open>--obj-ctrl\<close>, the settings of the handler, and the run of the client.
\<close>

definition setMessageHandlerOptions :: "opt_values \<Rightarrow> connector_handler \<Rightarrow> connector_handler" where
  "setMessageHandlerOptions options handler = os_setNumber_default options ''count'' get_int connector_setCount 1 handler"

definition setConnectionOptions :: "opt_values \<Rightarrow> int" where
  "setConnectionOptions options =
     (let val = value_at options ''obj-ctrl'';
          c0 = 0;
          c1 = (if find_opt val ''C'' 0 \<noteq> None then c0 OR control_bit CONNECTION else c0);
          c2 = (if find_opt val ''E'' 0 \<noteq> None then c1 OR control_bit SESSION else c1);
          c3 = (if find_opt val ''S'' 0 \<noteq> None then c2 OR control_bit SENDER else c2)
      in if find_opt val ''R'' 0 \<noteq> None then c3 OR control_bit RECEIVER else c3)"

definition connecting_settings :: "int \<Rightarrow> opt_values \<Rightarrow> uri_parser \<Rightarrow> conn_settings" where
  "connecting_settings forever options u = client_settings forever options u ''''"

definition connecting_handler :: "int \<Rightarrow> opt_values \<Rightarrow> uri_parser \<Rightarrow> connector_handler result" where
  "connecting_handler forever options u =
     res_bind (connector_new (fst (topic_address (value_at options ''broker-url''))) (int_option options ''timeout'' 0)
         (connecting_settings forever options u))
       (\<lambda>handler. Inr (setObjectControl (setConnectionOptions options) (setMessageHandlerOptions options handler)))"

definition connecting_client :: "int \<Rightarrow> opt_parser \<Rightarrow> log_world \<Rightarrow> opt_stop + connector_handler client" where
  "connecting_client forever p logger =
     (let options = p_values p in
      case client_uri options of
        Inl e \<Rightarrow> Inl e
      | Inr u \<Rightarrow>
          (case connecting_handler forever options u of
             Inl e \<Rightarrow> Inl (Throw e)
           | Inr handler \<Rightarrow> Inr \<lparr>cl_logger = logger, cl_tracing = None, cl_container = None, cl_handler = handler\<rparr>))"

definition connecting_run :: "string option \<Rightarrow> int \<Rightarrow> string list \<Rightarrow> opt_stop + connector_handler client" where
  "connecting_run columns forever argv =
     (case client_options (connector_parser columns) ''C/C++ AMQ reactive API connecting client for Qpid Proton''
             validate_connector argv of
        Inl e \<Rightarrow> Inl e
      | Inr (p, logger) \<Rightarrow> connecting_client forever p logger)"

subsection \<open>The objects asked for\<close>

lemma find_char: "find_opt val [c] 0 \<noteq> None \<longleftrightarrow> c \<in> set val"
proof -
  have "find_at [c] val i \<noteq> None \<longleftrightarrow> c \<in> set val" for i by (induction val arbitrary: i) auto
  then show ?thesis by (simp add: find_opt_def)
qed

text \<open>The letter of each object.\<close>

fun control_letter :: "object_control \<Rightarrow> char" where
  "control_letter CONNECTION = CHR ''C''"
| "control_letter SESSION = CHR ''E''"
| "control_letter SENDER = CHR ''S''"
| "control_letter RECEIVER = CHR ''R''"

lemma asked_letters: "asked (setConnectionOptions options) c \<longleftrightarrow> control_letter c \<in> set (value_at options ''obj-ctrl'')"
  unfolding setConnectionOptions_def Let_def find_char
  by (cases c) (simp_all add: asked_def)

lemma connecting_client_handler:
  assumes "connecting_client forever p logger = Inr cl"
  obtains url u s0 n where
    "connector_new url (int_option (p_values p) ''timeout'' 0) (connecting_settings forever (p_values p) u) = Inr s0"
    "cl_handler cl = connector_for s0 n (setConnectionOptions (p_values p))"
proof -
  obtain u where "connecting_handler forever (p_values p) u = Inr (cl_handler cl)"
    using assms by (auto simp: connecting_client_def Let_def split: sum.splits)
  then obtain url s0 where
    "connector_new url (int_option (p_values p) ''timeout'' 0) (connecting_settings forever (p_values p) u) = Inr s0"
    and "cl_handler cl = connector_for s0
      (if is_set (p_values p) ''count'' then get_int (p_values p) ''count'' else 1) (setConnectionOptions (p_values p))"
    by (auto simp: connecting_handler_def res_bind_eq_Inr connector_for_def setMessageHandlerOptions_def
        os_setNumber_default_def bean_set_def split: if_splits)
  then show thesis by (rule that)
qed

text \<open>
  From the options to the objects: a connecting client controls exactly the objects whose letters stand in
  \<open>--obj-ctrl\<close>. In every run it closes the receiver (R), the sender (S) and the session (E) as often as the connection
  if their letter was given and never otherwise, and every connection that opened and every failed session is still
  waiting for its time-out or has been closed, or has met the exception that a time-out below -1 raises at its first tick.
\<close>

lemma connecting_client_objects:
  assumes "connecting_client forever p logger = Inr cl"
    and "INT_MIN < int_option (p_values p) ''timeout'' 0" and "int_option (p_values p) ''timeout'' 0 \<le> INT_MAX"
    and "run_events connector_step connector_ok es (cl_handler cl) = Some s"
  shows "map (\<lambda>a. times a (h_effects s)) [Close_receiver, Close_sender, Close_session] =
      map (\<lambda>c. if c \<in> set (value_at (p_values p) ''obj-ctrl'') then times Close_connection (h_effects s) else 0) ''RSE'' \<and>
    times Close_connection (h_effects s) + pending_timers s + (if crashed s then 1 else 0) = closers es \<and>
    (crashed s \<longleftrightarrow> int_option (p_values p) ''timeout'' 0 < FOREVER \<and> C_timer \<in> set es)"
proof -
  obtain url u s0 n where s0:
    "connector_new url (int_option (p_values p) ''timeout'' 0) (connecting_settings forever (p_values p) u) = Inr s0"
    "cl_handler cl = connector_for s0 n (setConnectionOptions (p_values p))"
    using connecting_client_handler [OF assms(1)] .
  from connector_all_closed [OF s0(1) assms(2,3) assms(4) [unfolded s0(2)]] show ?thesis by (auto simp: asked_letters)
qed

end
