(* ===== verification/ReceivingM.thy ===== *)
theory ReceivingM
  imports ClientM ReceiverLaws
begin

text \<open>
  \<open>ReceivingClient\<close> (src/src/api/qpid-proton/reactor/ReceivingClient.cpp): the settings of the handler, the name of the
  container, and the run of the client.
\<close>

text \<open>A switch that is on for "true" in any mixture of cases.\<close>

definition true_option :: "opt_values \<Rightarrow> string \<Rightarrow> bool" where
  "true_option options d = (is_set options d \<and> lower (value_at options d) = ''true'')"

definition atoi_option :: "opt_values \<Rightarrow> string \<Rightarrow> int \<Rightarrow> int" where
  "atoi_option options d dflt = (if is_set options d then atoi (value_at options d) else dflt)"

definition receiving_settings :: "int \<Rightarrow> opt_values \<Rightarrow> uri_parser \<Rightarrow> conn_settings" where
  "receiving_settings forever options u = client_settings forever options u (text_option options ''log-msgs'' '''')"

text \<open>
  The statements of \<open>run\<close> that read the reconnection, the heartbeat and the frame size, one after another:
  \<open>conn_reconnect_custom\<close> is set on the way by six of them. The settings above give their result in one step.
\<close>

definition reads :: "opt_values \<Rightarrow> string \<Rightarrow> (string \<Rightarrow> conn_settings \<Rightarrow> conn_settings) \<Rightarrow> conn_settings \<Rightarrow> conn_settings" where
  "reads options d st c = (if is_set options d then st (value_at options d) c else c)"

definition receiving_reconnect :: "int \<Rightarrow> opt_values \<Rightarrow> conn_settings \<Rightarrow> conn_settings" where
  "receiving_reconnect forever options c =
     fold (\<lambda>f c. f c)
      [(\<lambda>c. c\<lparr>c_reconnect_custom := False\<rparr>),
       (\<lambda>c. c\<lparr>c_reconnect := ''true''\<rparr>),
       reads options ''conn-reconnect'' (\<lambda>v c. c\<lparr>c_reconnect := lower v\<rparr>),
       (\<lambda>c. c\<lparr>c_reconnect_interval := 10\<rparr>),
       reads options ''conn-reconnect-interval'' (\<lambda>v c. c\<lparr>c_reconnect_interval := wrap32 (strtol v), c_reconnect_custom := True\<rparr>),
       (\<lambda>c. c\<lparr>c_reconnect_limit := 0\<rparr>),
       reads options ''conn-reconnect-limit'' (\<lambda>v c. c\<lparr>c_reconnect_limit := wrap32 (strtol v), c_reconnect_custom := True\<rparr>),
       (\<lambda>c. c\<lparr>c_reconnect_timeout := wrap32 forever\<rparr>),
       reads options ''conn-reconnect-timeout'' (\<lambda>v c. c\<lparr>c_reconnect_timeout := wrap32 (strtol v), c_reconnect_custom := True\<rparr>),
       (\<lambda>c. c\<lparr>c_reconnect_first := 0\<rparr>),
       reads options ''conn-reconnect-first'' (\<lambda>v c. c\<lparr>c_reconnect_first := uwrap32 (strtoul v), c_reconnect_custom := True\<rparr>),
       (\<lambda>c. c\<lparr>c_reconnect_increment := 100\<rparr>),
       reads options ''conn-reconnect-increment'' (\<lambda>v c. c\<lparr>c_reconnect_increment := uwrap32 (strtoul v), c_reconnect_custom := True\<rparr>),
       (\<lambda>c. c\<lparr>c_reconnect_doubling := True\<rparr>),
       reads options ''conn-reconnect-doubling''
         (\<lambda>v c. (if v = ''false'' then c\<lparr>c_reconnect_doubling := False\<rparr> else c)\<lparr>c_reconnect_custom := True\<rparr>),
       (\<lambda>c. c\<lparr>c_heartbeat := 0\<rparr>),
       reads options ''conn-heartbeat'' (\<lambda>v c. c\<lparr>c_heartbeat := uwrap32 (strtoul v)\<rparr>),
       (\<lambda>c. c\<lparr>c_max_frame_size := uwrap32 (- 1)\<rparr>),
       reads options ''conn-max-frame-size'' (\<lambda>v c. c\<lparr>c_max_frame_size := uwrap32 (strtoul v)\<rparr>),
       (\<lambda>c. c\<lparr>c_log_msgs := ''''\<rparr>),
       reads options ''log-msgs'' (\<lambda>v c. c\<lparr>c_log_msgs := v\<rparr>)] c"

lemma reads_keep: "(\<And>v c. f (st v c) = f c) \<Longrightarrow> f (reads options d st c) = f c"
  by (simp add: reads_def)

lemmas reads_keeps =
  reads_keep [where f = c_conn_urls] reads_keep [where f = c_is_topic] reads_keep [where f = c_user]
  reads_keep [where f = c_password] reads_keep [where f = c_sasl_mechanisms] reads_keep [where f = c_conn_sasl_enabled]
  reads_keep [where f = c_ssl_certificate] reads_keep [where f = c_ssl_private_key] reads_keep [where f = c_ssl_password]
  reads_keep [where f = c_ssl_trust_store] reads_keep [where f = c_ssl_verify_peer] reads_keep [where f = c_ssl_verify_peer_name]
  reads_keep [where f = c_reconnect] reads_keep [where f = c_reconnect_interval] reads_keep [where f = c_reconnect_limit]
  reads_keep [where f = c_reconnect_timeout] reads_keep [where f = c_reconnect_first] reads_keep [where f = c_reconnect_increment]
  reads_keep [where f = c_reconnect_doubling] reads_keep [where f = c_reconnect_custom] reads_keep [where f = c_heartbeat]
  reads_keep [where f = c_max_frame_size] reads_keep [where f = c_use_config_file] reads_keep [where f = c_log_msgs]
  reads_keep [where f = conn_settings.more]

lemma receiving_reconnect_fields:
  "c_reconnect (receiving_reconnect forever options c) = lower_option options ''conn-reconnect'' ''true''"
  "c_reconnect_interval (receiving_reconnect forever options c) = int32_option options ''conn-reconnect-interval'' 10"
  "c_reconnect_limit (receiving_reconnect forever options c) = int32_option options ''conn-reconnect-limit'' 0"
  "c_reconnect_timeout (receiving_reconnect forever options c) = int32_option options ''conn-reconnect-timeout'' (wrap32 forever)"
  "c_reconnect_first (receiving_reconnect forever options c) = uint32_option options ''conn-reconnect-first'' 0"
  "c_reconnect_increment (receiving_reconnect forever options c) = uint32_option options ''conn-reconnect-increment'' 100"
  "c_reconnect_doubling (receiving_reconnect forever options c) = reconnect_doubling options"
  "c_heartbeat (receiving_reconnect forever options c) = uint32_option options ''conn-heartbeat'' 0"
  "c_max_frame_size (receiving_reconnect forever options c) = uint32_option options ''conn-max-frame-size'' UINT32_MAX"
  "c_log_msgs (receiving_reconnect forever options c) = text_option options ''log-msgs'' ''''"
  by (simp add: receiving_reconnect_def reads_keeps,
      simp add: reads_def lower_option_def int32_option_def uint32_option_def text_option_def reconnect_doubling_def uwrap32_def int_limits)+

lemma receiving_reconnect_custom: "c_reconnect_custom (receiving_reconnect forever options c) = reconnect_custom options"
proof -
  have "c_reconnect_custom (reads options d st c) = (is_set options d \<or> c_reconnect_custom c)"
    if "\<And>v c. c_reconnect_custom (st v c)" for d st c
    using that by (simp add: reads_def)
  then show ?thesis
    by (simp add: receiving_reconnect_def reads_keep [where f = c_reconnect_custom] reconnect_custom_def) blast
qed

lemma receiving_settings_sequential:
  "receiving_settings forever options u = receiving_reconnect forever options (receiving_settings forever options u)"
  by (rule conn_settings.equality)
    (simp_all add: receiving_reconnect_fields receiving_reconnect_custom,
     simp_all add: receiving_reconnect_def reads_keeps receiving_settings_def client_settings_def Let_def)

definition subscriber_settings :: "opt_values \<Rightarrow> receiver_settings" where
  "subscriber_settings options =
     \<lparr>r_durable_subscriber = true_option options ''durable-subscriber'',
      r_subscriber_unsubscribe = true_option options ''subscriber-unsubscribe'',
      r_durable_subscriber_prefix = text_option options ''durable-subscriber-prefix'' '''',
      r_durable_subscriber_name = text_option options ''durable-subscriber-name'' '''',
      r_shared_subscriber = true_option options ''shared-subscriber'',
      r_msg_action = text_option options ''msg-action'' ''no-action'',
      r_msg_action_size = atoi_option options ''msg-action-size'' 1,
      r_count = int_option options ''count'' 0,
      r_duration_time = int_option options ''duration'' 0,
      r_duration_mode = text_option options ''duration-mode'' ''after-receive'',
      r_process_reply_to = (is_set options ''process-reply-to'' \<and> get_bool options ''process-reply-to''),
      r_browse = (is_set options ''recv-browse'' \<and> get_bool options ''recv-browse''),
      r_recv_listen = lower_option options ''recv-listen'' ''false'',
      r_recv_listen_port = atoi_option options ''recv-listen-port'' 5672,
      r_recv_credit_window = atoi_option options ''recv-credit-window'' (- 1),
      r_recv_drain_after_credit_window = is_set options ''recv-drain-after-credit-window''\<rparr>"

definition receiving_handler :: "int \<Rightarrow> opt_values \<Rightarrow> uri_parser \<Rightarrow> receiver_handler result" where
  "receiving_handler forever options u =
     res_bind (receiver_new (fst (topic_address (value_at options ''broker-url''))) (int_option options ''timeout'' (- 1))
         (receiving_settings forever options u) (subscriber_settings options))
       (\<lambda>handler. let selector = text_option options ''recv-selector'' ''''
          in Inr (if selector \<noteq> '''' then setSelector selector handler else handler))"

text \<open>The container's name, with the uuid the library would draw.\<close>

definition container_name :: "opt_values \<Rightarrow> string \<Rightarrow> string option" where
  "container_name options uuid =
     (let conn_clientid = text_option options ''conn-clientid'' '''';
          conn_clientid_prefix = text_option options ''conn-clientid-prefix'' ''''
      in if conn_clientid \<noteq> '''' then Some conn_clientid
         else if conn_clientid_prefix \<noteq> '''' then Some (conn_clientid_prefix @ uuid)
         else None)"

text \<open>What follows the parsing and the validation of the options.\<close>

definition receiving_client :: "int \<Rightarrow> string \<Rightarrow> opt_parser \<Rightarrow> log_world \<Rightarrow> opt_stop + receiver_handler client" where
  "receiving_client forever uuid p logger =
     (let options = p_values p in
      case client_uri options of
        Inl e \<Rightarrow> Inl e
      | Inr u \<Rightarrow>
          (case receiving_handler forever options u of
             Inl e \<Rightarrow> Inl (Throw e)
           | Inr handler \<Rightarrow> Inr \<lparr>cl_logger = logger, cl_tracing = (if traces options then Some ''aac3_receiver'' else None),
                              cl_container = container_name options uuid, cl_handler = handler\<rparr>))"

definition receiving_run :: "string option \<Rightarrow> int \<Rightarrow> string \<Rightarrow> string list \<Rightarrow> opt_stop + receiver_handler client" where
  "receiving_run columns forever uuid argv =
     (case client_options (receiver_parser columns) ''C/C++ AMQ reactive API receiver client for Qpid Proton''
             validate_receiver argv of
        Inl e \<Rightarrow> Inl e
      | Inr (p, logger) \<Rightarrow> receiving_client forever uuid p logger)"

subsection \<open>From the command line to the deliveries\<close>

lemma receiving_client_handler:
  assumes "receiving_client forever uuid p logger = Inr cl"
  obtains url u s0 sel where "receiver_new url (int_option (p_values p) ''timeout'' (- 1)) (receiving_settings forever (p_values p) u)
      (subscriber_settings (p_values p)) = Inr s0"
    "cl_handler cl = receiver_for s0 sel"
proof -
  obtain u where "receiving_handler forever (p_values p) u = Inr (cl_handler cl)"
    using assms by (auto simp: receiving_client_def Let_def split: sum.splits)
  then obtain url s0 where "receiver_new url (int_option (p_values p) ''timeout'' (- 1)) (receiving_settings forever (p_values p) u)
      (subscriber_settings (p_values p)) = Inr s0"
    and "cl_handler cl = receiver_for s0 (if text_option (p_values p) ''recv-selector'' '''' \<noteq> ''''
      then Some (text_option (p_values p) ''recv-selector'' '''') else None)"
    by (auto simp: receiving_handler_def res_bind_eq_Inr receiver_for_def Let_def split: if_splits)
  then show thesis by (rule that)
qed

lemma validated_action_size:
  assumes "validate_receiver p v = Inr ()"
  shows "1 \<le> r_msg_action_size (subscriber_settings v)"
proof -
  have "first_failure (receiver_checks p v) = Inr ()" using assms by (auto simp: validate_receiver_def split: sum.splits)
  then have "list_all (\<lambda>(bad, e). \<not> bad) (receiver_checks p v)" by (rule first_failure_ok [THEN iffD1])
  then show ?thesis by (auto simp: receiver_checks_def subscriber_settings_def atoi_option_def)
qed

text \<open>
  From the options to the deliveries: whatever options passed the validation, in every run that does not end in an
  exception the receiver has settled \<open>k div --msg-action-size\<close> of its \<open>k\<close> messages in the way \<open>--msg-action\<close> names and
  none in another way; and unless it unsubscribes it has closed its connection once if \<open>--count\<close> messages have arrived
  and it does not answer them, and not at all otherwise.
\<close>

lemma receiving_client_settles:
  assumes "validate_receiver p (p_values p) = Inr ()" and "receiving_client forever uuid p logger = Inr cl"
    and "run_events (receiver_step L) receiver_ok es (cl_handler cl) = Some s" and "\<not> crashed s"
  shows "1 \<le> atoi_option (p_values p) ''msg-action-size'' 1 \<and>
    map (\<lambda>a. times a (h_effects s)) [Accept, Reject, Release] =
      map (\<lambda>w. if text_option (p_values p) ''msg-action'' ''no-action'' = w
                then length (received es) div nat (atoi_option (p_values p) ''msg-action-size'' 1) else 0)
        [''ack'', ''reject'', ''release''] \<and>
    (if true_option (p_values p) ''subscriber-unsubscribe'' then True
     else times Close_connection (h_effects s) =
       (if \<not> r_process_reply_to (subscriber_settings (p_values p)) \<and> 0 < int_option (p_values p) ''count'' 0 \<and>
           int_option (p_values p) ''count'' 0 \<le> int (length (received es)) then 1 else 0))"
proof -
  let ?r = "subscriber_settings (p_values p)"
  obtain url u s0 sel where s0:
    "receiver_new url (int_option (p_values p) ''timeout'' (- 1)) (receiving_settings forever (p_values p) u) ?r = Inr s0"
    "cl_handler cl = receiver_for s0 sel"
    using receiving_client_handler [OF assms(2)] .
  note run = s0(1) assms(3) [unfolded s0(2)] assms(4)
  note size = validated_action_size [OF assms(1)]
  have words: "r_msg_action ?r = text_option (p_values p) ''msg-action'' ''no-action''"
    "r_msg_action_size ?r = atoi_option (p_values p) ''msg-action-size'' 1"
    "r_count ?r = int_option (p_values p) ''count'' 0"
    "r_subscriber_unsubscribe ?r = true_option (p_values p) ''subscriber-unsubscribe''"
    by (simp_all add: subscriber_settings_def)
  have "0 < r_msg_action_size ?r" using size by simp
  with size receiver_settles [OF run] receiver_ends [OF run] show ?thesis unfolding words by simp
qed

end
