(* ===== verification/OptTable.thy ===== *)
theory OptTable
  imports Modern
begin

text \<open>
  From an option table to the options a command line can name: what \<open>add_option\<close> makes of a line of a table, where its
  names lead, and what a whole command line over a table stores and appends. A table is looked up from its end, since
  the last option that declares a name owns it.
\<close>

subsection \<open>One line of a table\<close>

type_synonym opt_line = "string list \<times> opt_call list"

definition declared :: "opt_line \<Rightarrow> opt_decl" where
  "declared d =
     (let (opt, fallback, _) = add_names 0 (fst d) (opt_new, '''', parser_new None)
      in fold opt_apply (snd d) (if o_dest opt = '''' then opt\<lparr>o_dest := fallback\<rparr> else opt))"

definition long_name :: "opt_line \<Rightarrow> string \<Rightarrow> bool" where
  "long_name d n = (''--'' @ n \<in> set (fst d))"

definition short_name :: "opt_line \<Rightarrow> string \<Rightarrow> bool" where
  "short_name d n = list_ex (\<lambda>nm. take 2 nm \<noteq> ''--'' \<and> take 1 (drop 1 nm) = n) (fst d)"

definition names_of :: "string list \<Rightarrow> nat \<Rightarrow> opt_parser \<Rightarrow> (string, nat) smap \<Rightarrow> (string, nat) smap \<Rightarrow> bool" where
  "names_of nms i p L S =
     ((\<forall>n. smap_get L n = (if long_name (nms, []) n then Some i else smap_get (p_long p) n)) \<and>
      (\<forall>n. smap_get S n = (if short_name (nms, []) n then Some i else smap_get (p_short p) n)))"

lemma take2_dashes: "take 2 nm = ''--'' \<and> drop 2 nm = n \<longleftrightarrow> nm = ''--'' @ n"
  by (metis append_eq_conv_conj append_take_drop_id list.size(3,4) numeral_2_eq_2 One_nat_def Suc_eq_plus1 add_0)

text \<open>The option and its fallback name depend on the names alone; the parser changes in its two maps of names.\<close>

lemma add_name_names:
  assumes "names_of nms i p L S"
  obtains L' S' where "snd (snd (add_name i nm (opt, fb, p\<lparr>p_long := L, p_short := S\<rparr>))) = p\<lparr>p_long := L', p_short := S'\<rparr>"
    "names_of (nms @ [nm]) i p L' S'"
proof (cases "take 2 nm = ''--''")
  case True
  have l: "''--'' @ n = nm \<longleftrightarrow> drop 2 nm = n" for n using True take2_dashes [of nm n] by auto
  then have "long_name (nms @ [nm], []) n = (long_name (nms, []) n \<or> drop 2 nm = n)" for n
    by (auto simp: long_name_def)
  with assms have "names_of (nms @ [nm]) i p (smap_put (drop 2 nm) i L) S"
    by (auto simp: names_of_def smap_get_put short_name_def True)
  moreover have "snd (snd (add_name i nm (opt, fb, p\<lparr>p_long := L, p_short := S\<rparr>))) =
      p\<lparr>p_long := smap_put (drop 2 nm) i L, p_short := S\<rparr>"
    by (simp add: add_name_def Let_def True)
  ultimately show thesis using that by blast
next
  case False
  then have "long_name (nms @ [nm], []) n = long_name (nms, []) n" for n by (auto simp: long_name_def)
  with assms False have "names_of (nms @ [nm]) i p L (smap_put (take 1 (drop 1 nm)) i S)"
    by (auto simp: names_of_def smap_get_put short_name_def)
  moreover have "snd (snd (add_name i nm (opt, fb, p\<lparr>p_long := L, p_short := S\<rparr>))) =
      p\<lparr>p_long := L, p_short := smap_put (take 1 (drop 1 nm)) i S\<rparr>"
    using False by (simp add: add_name_def Let_def)
  ultimately show thesis using that by blast
qed

lemma add_names_eq:
  assumes "add_names 0 nms (opt_new, '''', parser_new None) = (opt, fb, r)"
  obtains L S where "add_names i nms (opt_new, '''', p) = (opt, fb, p\<lparr>p_long := L, p_short := S\<rparr>)" "names_of nms i p L S"
  using assms
proof (induction nms arbitrary: opt fb r thesis rule: rev_induct)
  case Nil
  then show ?case
    by (intro Nil(1) [of "p_short p" "p_long p"]) (auto simp: add_names_def names_of_def long_name_def short_name_def)
next
  case (snoc nm nms)
  obtain opt1 fb1 r1 where n: "add_names 0 nms (opt_new, '''', parser_new None) = (opt1, fb1, r1)"
    by (cases "add_names 0 nms (opt_new, '''', parser_new None)")
  from snoc.IH [OF _ n] obtain L S where
    q: "add_names i nms (opt_new, '''', p) = (opt1, fb1, p\<lparr>p_long := L, p_short := S\<rparr>)" "names_of nms i p L S" by blast
  let ?q = "p\<lparr>p_long := L, p_short := S\<rparr>"
  have "fst (add_name i nm (opt1, fb1, ?q)) = fst (add_name 0 nm (opt1, fb1, r1))"
    "fst (snd (add_name i nm (opt1, fb1, ?q))) = fst (snd (add_name 0 nm (opt1, fb1, r1)))"
    by (simp_all add: add_name_def Let_def)
  moreover have "add_names i (nms @ [nm]) (opt_new, '''', p) = add_name i nm (opt1, fb1, ?q)"
    "add_name 0 nm (opt1, fb1, r1) = (opt, fb, r)"
    using q(1) n snoc.prems(2) by (simp_all add: add_names_def)
  moreover obtain L' S' where "snd (snd (add_name i nm (opt1, fb1, ?q))) = p\<lparr>p_long := L', p_short := S'\<rparr>"
    "names_of (nms @ [nm]) i p L' S'"
    using add_name_names [OF q(2)] by blast
  ultimately show ?case by (intro snoc.prems(1) [of S' L']) (auto simp: prod_eq_iff)
qed

subsection \<open>A whole table\<close>

text \<open>What keeps the numbers of options apart: they are below the next one, and no option has two.\<close>

definition numbered :: "opt_parser \<Rightarrow> bool" where
  "numbered p = (p_groups p = [] \<and> distinct (map fst (p_opts p)) \<and> (\<forall>x \<in> set (p_opts p). fst x < p_next p) \<and>
     (\<forall>n i. smap_get (p_long p) n = Some i \<or> smap_get (p_short p) n = Some i \<longrightarrow> i < p_next p))"

lemma numbered_new: "numbered (parser_new c)"
  by (simp add: numbered_def parser_new_def smap_get_def)

lemma declare_option_eq:
  assumes "numbered p"
  obtains L S where
    "declare_option d p = p\<lparr>p_long := L, p_short := S, p_opts := p_opts p @ [(p_next p, declared d)], p_next := Suc (p_next p)\<rparr>"
    "\<And>n. smap_get L n = (if long_name d n then Some (p_next p) else smap_get (p_long p) n)"
    "\<And>n. smap_get S n = (if short_name d n then Some (p_next p) else smap_get (p_short p) n)"
proof -
  obtain opt fb r where n: "add_names 0 (fst d) (opt_new, '''', parser_new None) = (opt, fb, r)"
    by (cases "add_names 0 (fst d) (opt_new, '''', parser_new None)")
  obtain L S where q: "add_names (p_next p) (fst d) (opt_new, '''', p) = (opt, fb, p\<lparr>p_long := L, p_short := S\<rparr>)"
    "names_of (fst d) (p_next p) p L S" using add_names_eq [OF n] by blast
  have "\<And>x. x \<in> set (p_opts p) \<Longrightarrow> fst x \<noteq> p_next p" using assms by (auto simp: numbered_def)
  then have "map (\<lambda>(i, e). (i, if i = p_next p then f e else e)) (p_opts p) = p_opts p" for f
    by (intro map_idI) (force split: prod.split)
  then have "declare_option d p =
      p\<lparr>p_long := L, p_short := S, p_opts := p_opts p @ [(p_next p, declared d)], p_next := Suc (p_next p)\<rparr>"
    by (simp add: declare_option_def add_option_def Let_def q(1) declared_def n)
  moreover have "smap_get L n = (if long_name d n then Some (p_next p) else smap_get (p_long p) n)"
    "smap_get S n = (if short_name d n then Some (p_next p) else smap_get (p_short p) n)" for n
    using q(2) by (simp_all add: names_of_def long_name_def short_name_def)
  ultimately show thesis by (rule that)
qed

text \<open>A parser whose options are those of a table.\<close>

definition table_long :: "opt_line list \<Rightarrow> string \<Rightarrow> opt_decl option" where
  "table_long t n = map_option declared (find (\<lambda>d. long_name d n) (rev t))"

definition table_short :: "opt_line list \<Rightarrow> string \<Rightarrow> opt_decl option" where
  "table_short t n = map_option declared (find (\<lambda>d. short_name d n) (rev t))"

definition has_table :: "opt_parser \<Rightarrow> opt_line list \<Rightarrow> bool" where
  "has_table p t = (numbered p \<and> (\<forall>n. long_decl p n = table_long t n) \<and> (\<forall>n. short_decl p n = table_short t n) \<and>
     snd ` set (p_opts p) = declared ` set t \<and> p_defaults p = [] \<and> p_interspersed p)"

lemma has_table_new: "has_table (parser_new c) []"
  by (simp add: has_table_def numbered_new table_long_def table_short_def long_decl_def short_decl_def)
    (simp add: parser_new_def smap_get_def)

lemma has_table_declare:
  assumes "has_table p t"
  shows "has_table (declare_option d p) (t @ [d])"
proof -
  have num: "numbered p" using assms by (simp add: has_table_def)
  obtain L S where q: "declare_option d p =
      p\<lparr>p_long := L, p_short := S, p_opts := p_opts p @ [(p_next p, declared d)], p_next := Suc (p_next p)\<rparr>" (is "_ = ?q")
    and L: "\<And>n. smap_get L n = (if long_name d n then Some (p_next p) else smap_get (p_long p) n)"
    and S: "\<And>n. smap_get S n = (if short_name d n then Some (p_next p) else smap_get (p_short p) n)"
    using declare_option_eq [OF num] by metis
  have fresh: "map_of (p_opts p) (p_next p) = None"
    using num by (auto simp: numbered_def map_of_eq_None_iff)
  have old: "i < p_next p" if "smap_get (p_long p) n = Some i \<or> smap_get (p_short p) n = Some i" for n i
    using num that by (auto simp: numbered_def)
  have opts: "all_opts p = p_opts p" "all_opts ?q = p_opts p @ [(p_next p, declared d)]"
    using num by (simp_all add: all_opts_def numbered_def)
  have long: "long_decl ?q n = (if long_name d n then Some (declared d) else long_decl p n)" for n
    using old [of n] by (cases "smap_get (p_long p) n") (auto simp: long_decl_def opts L fresh map_add_def split: option.split)
  have short: "short_decl ?q n = (if short_name d n then Some (declared d) else short_decl p n)" for n
    using old [of n] by (cases "smap_get (p_short p) n") (auto simp: short_decl_def opts S fresh map_add_def split: option.split)
  have num': "numbered ?q"
    using num by (auto simp: numbered_def L S less_Suc_eq)
  show ?thesis
    using assms long short num' unfolding q has_table_def by (auto simp: table_long_def table_short_def)
qed

lemma has_table_declares: "has_table p t \<Longrightarrow> has_table (fold declare_option ds p) (t @ ds)"
proof (induction ds arbitrary: p t)
  case (Cons d ds)
  from Cons.IH [OF has_table_declare [OF Cons.prems, of d]] show ?case by simp
qed simp

text \<open>The order of the options and the other members play no role.\<close>

lemma has_table_cong:
  assumes "has_table p t" and "p_long q = p_long p" "p_short q = p_short p" "p_groups q = p_groups p"
    "p_next q = p_next p" "p_defaults q = p_defaults p" "p_interspersed q = p_interspersed p"
    and "distinct (map fst (p_opts q))" "set (p_opts q) = set (p_opts p)"
  shows "has_table q t"
proof -
  have "distinct (map fst (p_opts p))" using assms(1) by (simp add: has_table_def numbered_def)
  with assms(8,9) have "map_of (p_opts q) = map_of (p_opts p)" by (simp add: map_of_inject_set)
  moreover have "p_groups p = []" using assms(1) by (simp add: has_table_def numbered_def)
  ultimately show ?thesis
    using assms by (simp add: has_table_def numbered_def long_decl_def short_decl_def all_opts_def)
qed

lemma has_table_splice: "has_table p t \<Longrightarrow> has_table (splice_front p) t"
proof -
  assume t: "has_table p t"
  have "distinct (map fst (p_opts p))" using t by (simp add: has_table_def numbered_def)
  then show ?thesis
    by (cases "p_opts p" rule: rev_cases)
      (use t in \<open>auto simp: splice_front_def intro!: has_table_cong [OF t]\<close>)
qed

definition builtin_options :: "opt_line list" where
  "builtin_options =
     [([''--version''], [Action ''version'', Help (''show program'' @ sq @ ''s version number and exit'')]),
      ([''-h'', ''--help''], [Action ''help'', Help ''show this help message and exit''])]"

lemma has_table_builtin:
  assumes "has_table p t" and "p_add_version p" "p_version p \<noteq> ''''" "p_add_help p"
  shows "has_table (add_builtin p) (t @ builtin_options)"
proof -
  have keep: "p_add_help (splice_front (declare_option d p)) = p_add_help p" for d
  proof -
    have num: "numbered p" using assms(1) by (simp add: has_table_def)
    obtain L S where "declare_option d p =
        p\<lparr>p_long := L, p_short := S, p_opts := p_opts p @ [(p_next p, declared d)], p_next := Suc (p_next p)\<rparr>"
      using declare_option_eq [OF num] by metis
    then show ?thesis by (simp add: splice_front_def)
  qed
  show ?thesis
    using assms(2-4) has_table_splice [OF has_table_declare [OF has_table_splice [OF has_table_declare [OF assms(1)]]]]
    by (simp add: add_builtin_def Let_def keep builtin_options_def)
qed

subsection \<open>What a command line over a table does\<close>

text \<open>An item stores a value, or hands one to a callback; other items have no place in what follows.\<close>

definition acts :: "opt_decl option \<Rightarrow> string \<Rightarrow> string \<Rightarrow> ((string \<times> string) + (nat \<times> string)) option" where
  "acts d nm v =
     (case d of None \<Rightarrow> None
      | Some opt \<Rightarrow>
          if o_action opt = ''callback'' then map_option (\<lambda>c. Inr (c, v)) (o_callback opt)
          else map_option Inl (stores d nm v))"

fun item_act :: "(string \<Rightarrow> opt_decl option) \<Rightarrow> (string \<Rightarrow> opt_decl option) \<Rightarrow> cmd_item \<Rightarrow>
    ((string \<times> string) + (nat \<times> string)) option" where
  "item_act long short (Long_eq n v) = acts (long n) (''--'' @ n) v"
| "item_act long short (Long_sp n v) = acts (long n) (''--'' @ n) v"
| "item_act long short (Short_sp c v) = acts (short [c]) [CHR ''-'', c] v"
| "item_act long short (Short_att c v) = acts (short [c]) [CHR ''-'', c] v"
| "item_act long short (Long_flag n) = acts (long n) (''--'' @ n) ''''"
| "item_act long short (Short_flag c) = acts (short [c]) [CHR ''-'', c] ''''"
| "item_act long short (Word a) = None"

fun apply_act :: "(string \<times> string) + (nat \<times> string) \<Rightarrow> opt_parser \<Rightarrow> opt_parser" where
  "apply_act (Inl ds) p = p\<lparr>p_values := put_pair ds (p_values p)\<rparr>"
| "apply_act (Inr (c, v)) p = p\<lparr>p_callbacks := smap_put c (cb_append v (callback_at p c)) (p_callbacks p)\<rparr>"

lemma process_opt_acts:
  assumes "acts d nm v = Some a" and "case a of Inl _ \<Rightarrow> True | Inr (c, _) \<Rightarrow> smap_get (p_callbacks p) c \<noteq> None"
  shows "process_opt (the d) nm v p = Inr (apply_act a p)"
proof -
  from assms(1) obtain opt where d: "d = Some opt" by (cases d) (simp_all add: acts_def)
  show ?thesis
  proof (cases "o_action opt = ''callback''")
    case True
    with assms d show ?thesis
      by (auto simp: acts_def process_opt_def run_callback_def cb_call_def callback_at_def)
  next
    case False
    with assms(1) d obtain ds where "stores d nm v = Some ds" "a = Inl ds" by (auto simp: acts_def)
    then show ?thesis using process_opt_stores [of d nm v ds p] by simp
  qed
qed

lemma act_callback:
  assumes "parser_wf p" and "acts d nm v = Some a" and "\<And>opt. d = Some opt \<Longrightarrow> opt \<in> snd ` set (all_opts p)"
  shows "case a of Inl _ \<Rightarrow> True | Inr (c, _) \<Rightarrow> smap_get (p_callbacks p) c \<noteq> None"
proof -
  from assms(2) obtain opt where d: "d = Some opt" by (cases d) (simp_all add: acts_def)
  then have "decl_ok (p_callbacks p) opt" using assms(1,3) unfolding parser_wf_def decls_ok_def by blast
  with assms(2) d show ?thesis
    by (auto simp: acts_def decl_ok_def stores_def split: if_splits option.splits)
qed

lemma decl_in_table:
  "long_decl p n = Some opt \<Longrightarrow> opt \<in> snd ` set (all_opts p)"
  "short_decl p n = Some opt \<Longrightarrow> opt \<in> snd ` set (all_opts p)"
  by (force simp: long_decl_def short_decl_def split: Option.bind_splits dest: map_of_SomeD)+

lemma item_step_acts:
  assumes "parser_wf p" and "item_act (long_decl p) (short_decl p) it = Some a"
  shows "item_step it p = Inr (apply_act a p)"
  using assms(2)
  by (cases it) (auto intro!: process_opt_acts act_callback [OF assms(1)] dest: decl_in_table)

lemma process_opt_wf: "parser_wf p \<Longrightarrow> decl_ok (p_callbacks p) d \<Longrightarrow> process_opt d nm v p = Inr p' \<Longrightarrow> parser_wf p'"
  using process_opt_ok [of p d nm v] by simp

lemma item_step_wf:
  assumes "parser_wf p" and "item_act (long_decl p) (short_decl p) it = Some a" and "item_step it p = Inr p'"
  shows "parser_wf p'"
proof -
  have ok: "decl_ok (p_callbacks p) opt" if "opt \<in> snd ` set (all_opts p)" for opt
    using assms(1) that unfolding parser_wf_def decls_ok_def by blast
  have some: "\<exists>opt. d = Some opt" if "acts d nm v = Some a" for d nm v
    using that by (cases d) (simp_all add: acts_def)
  show ?thesis
    using assms(2,3)
    by (cases it) (auto dest!: some intro: process_opt_wf [OF assms(1) ok] decl_in_table)
qed

text \<open>A sequence of items leaves the sequence of their acts.\<close>

lemma run_items_acts:
  "parser_wf p \<Longrightarrow> list_all (\<lambda>it. item_act (long_decl p) (short_decl p) it \<noteq> None) its \<Longrightarrow>
     run_items its p = Inr (fold apply_act (map (the \<circ> item_act (long_decl p) (short_decl p)) its) p)"
proof (induction its arbitrary: p)
  case (Cons it its)
  then obtain a where a: "item_act (long_decl p) (short_decl p) it = Some a" by auto
  note s = item_step_acts [OF Cons.prems(1) a]
  have "long_decl (apply_act a p) = long_decl p" "short_decl (apply_act a p) = short_decl p"
    by (cases a; auto simp: fun_eq_iff long_decl_def short_decl_def all_opts_def)+
  with Cons.IH [OF item_step_wf [OF Cons.prems(1) a s]] Cons.prems(2) show ?case
    by (simp add: s a)
qed simp

text \<open>The values and the callbacks after a sequence of acts.\<close>

definition stored :: "((string \<times> string) + (nat \<times> string)) list \<Rightarrow> (string \<times> string) list" where
  "stored as = concat (map (\<lambda>a. case a of Inl ds \<Rightarrow> [ds] | Inr _ \<Rightarrow> []) as)"

definition appended :: "nat \<Rightarrow> ((string \<times> string) + (nat \<times> string)) list \<Rightarrow> string list" where
  "appended i as = concat (map (\<lambda>a. case a of Inl _ \<Rightarrow> [] | Inr (c, v) \<Rightarrow> if c = i then [v] else []) as)"

lemma stored_simps [simp]:
  "stored [] = []" "stored (Inl ds # as) = ds # stored as" "stored (Inr cv # as) = stored as"
  by (simp_all add: stored_def)

lemma appended_simps [simp]:
  "appended i [] = []" "appended i (Inl ds # as) = appended i as"
  "appended i (Inr (c, v) # as) = (if c = i then v # appended i as else appended i as)"
  by (simp_all add: appended_def)

lemma callback_at_put: "callback_at (p\<lparr>p_callbacks := smap_put c x (p_callbacks p)\<rparr>) i = (if i = c then x else callback_at p i)"
  by (simp add: callback_at_def smap_get_put)

lemma acts_result:
  "p_values (fold apply_act as p) = fold put_pair (stored as) (p_values p)"
  "callback_at (fold apply_act as p) i = fold cb_append (appended i as) (callback_at p i)"
proof -
  show "p_values (fold apply_act as p) = fold put_pair (stored as) (p_values p)"
  proof (induction as arbitrary: p)
    case (Cons a as)
    then show ?case by (cases a) auto
  qed simp
  show "callback_at (fold apply_act as p) i = fold cb_append (appended i as) (callback_at p i)"
  proof (induction as arbitrary: p)
    case (Cons a as)
    have "callback_at (p\<lparr>p_values := v\<rparr>) i = callback_at p i" for v by (simp add: callback_at_def)
    with Cons show ?case by (cases a) (auto simp: callback_at_put)
  qed simp
qed

lemma acts_tables: "p_defaults (fold apply_act as p) = p_defaults p" "p_opts (fold apply_act as p) = p_opts p"
  "p_groups (fold apply_act as p) = p_groups p" "p_leftover (fold apply_act as p) = p_leftover p"
proof (induction as arbitrary: p)
  case (Cons a as)
  { case 1 show ?case using Cons by (cases a) auto }
  { case 2 show ?case using Cons by (cases a) auto }
  { case 3 show ?case using Cons by (cases a) auto }
  { case 4 show ?case using Cons by (cases a) auto }
qed simp_all

fun item_reads :: "(string \<Rightarrow> opt_decl option) \<Rightarrow> (string \<Rightarrow> opt_decl option) \<Rightarrow> cmd_item \<Rightarrow> bool" where
  "item_reads long short (Long_eq n v) = (no_sep ''='' n \<and> takes (long n) 1 \<and> value_ok n v)"
| "item_reads long short (Long_sp n v) = (n \<noteq> '''' \<and> no_sep ''='' n \<and> takes (long n) 1 \<and> value_ok n v)"
| "item_reads long short (Short_sp c v) = (c \<noteq> CHR ''-'' \<and> takes (short [c]) 1)"
| "item_reads long short (Short_att c v) = (c \<noteq> CHR ''-'' \<and> takes (short [c]) 1 \<and> v \<noteq> '''')"
| "item_reads long short (Long_flag n) = (n \<noteq> '''' \<and> no_sep ''='' n \<and> takes (long n) 0)"
| "item_reads long short (Short_flag c) = (c \<noteq> CHR ''-'' \<and> takes (short [c]) 0)"
| "item_reads long short (Word a) = (take 1 a \<noteq> ''-'' \<or> length a \<le> 1)"

text \<open>An item of a table, and what it does.\<close>

definition table_act :: "opt_line list \<Rightarrow> cmd_item \<Rightarrow> ((string \<times> string) + (nat \<times> string)) option" where
  "table_act t it = item_act (table_long t) (table_short t) it"

definition table_item :: "opt_line list \<Rightarrow> cmd_item \<Rightarrow> bool" where
  "table_item t it = (item_reads (table_long t) (table_short t) it \<and> table_act t it \<noteq> None)"

definition table_acts :: "opt_line list \<Rightarrow> cmd_item list \<Rightarrow> ((string \<times> string) + (nat \<times> string)) list" where
  "table_acts t its = map (the \<circ> table_act t) its"

lemma has_table_items:
  assumes "has_table p t"
  shows "item_ok p it = item_reads (table_long t) (table_short t) it"
    "item_act (long_decl p) (short_decl p) it = table_act t it"
proof -
  have "long_decl p = table_long t" "short_decl p = table_short t" "p_interspersed p"
    using assms by (auto simp: has_table_def)
  then show "item_ok p it = item_reads (table_long t) (table_short t) it"
    "item_act (long_decl p) (short_decl p) it = table_act t it"
    by (cases it; simp add: table_act_def)+
qed

lemma has_table_defaults:
  assumes "has_table p t" and "list_all (\<lambda>d. o_default (declared d) = '''') t"
  shows "default_list p = []"
proof -
  have "o_default (snd x) = ''''" if "x \<in> set (p_opts p)" for x
  proof -
    have "snd x \<in> declared ` set t" using assms(1) that unfolding has_table_def by (metis imageI)
    with assms(2) show ?thesis by (auto simp: list_all_iff)
  qed
  then have "filter (\<lambda>(i, opt). o_default opt \<noteq> '''') (p_opts p) = []" by (auto simp: filter_empty_conv)
  moreover have "p_defaults p = []" "p_groups p = []" using assms(1) by (simp_all add: has_table_def numbered_def)
  ultimately show ?thesis by (simp add: default_list_def opt_defaults_def)
qed

lemma add_builtin_callbacks: "parser_wf p \<Longrightarrow> p_callbacks (add_builtin p) = p_callbacks p"
proof -
  assume wf: "parser_wf p"
  have sp: "p_callbacks (splice_front q) = p_callbacks q" for q by (simp add: splice_front_def)
  have "parser_wf (splice_front (declare_option ([''--version''],
      [Action ''version'', Help (''show program'' @ sq @ ''s version number and exit'')]) p))"
    using wf by (intro splice_front_wf declare_option_wf) (simp_all add: call_ok_def)
  then show ?thesis using wf by (simp add: add_builtin_def Let_def sp declare_option_wf(2) call_ok_def)
qed

text \<open>
  \<open>parse_args\<close> on a command line over a table without defaults: the values stored and the callbacks, and nothing else.
\<close>

lemma parse_args_table:
  assumes wf: "parser_wf p" "p_values p = values_new" and t: "has_table p t" "list_all (\<lambda>d. o_default (declared d) = '''') t"
    and builtin: "p_add_version p" "p_version p \<noteq> ''''" "p_add_help p"
    and ok: "list_all (table_item (t @ builtin_options)) its"
    and as: "as = table_acts (t @ builtin_options) its"
  obtains r where "parse_args (concat (map item_args its)) p = Inr r" "p_values r = fold put_pair (stored as) values_new"
    "\<And>i. callback_at r i = fold cb_append (appended i as) (callback_at p i)"
proof -
  let ?as = "concat (map item_args its)" and ?T = "t @ builtin_options"
  let ?p = "p\<lparr>p_remaining := ?as\<rparr>"
  let ?q = "add_builtin ?p"
  have wf': "parser_wf ?p" using wf(1) by simp
  have "has_table ?p t" using t(1) by (intro has_table_cong [OF t(1)]) (simp_all add: has_table_def numbered_def)
  then have T: "has_table ?q ?T" using builtin by (intro has_table_builtin) simp_all
  note wfq = add_builtin_wf [OF wf']
  have items: "list_all (item_ok ?q) its" "list_all (\<lambda>it. item_act (long_decl ?q) (short_decl ?q) it \<noteq> None) its"
    using ok by (auto simp: list_all_iff table_item_def has_table_items [OF T])
  have as': "map (the \<circ> item_act (long_decl ?q) (short_decl ?q)) its = as"
    by (simp add: as table_acts_def has_table_items(2) [OF T])
  let ?r = "fold apply_act as ?q"
  have qr: "?q\<lparr>p_remaining := ?as @ []\<rparr> = ?q" using add_builtin_keeps(1) [OF wf'] by simp
  have "smap_sorted (p_long ?q)" using wfq by (simp add: parser_wf_def)
  from parse_loop_items [OF this items(1), of "[]"] run_items_acts [OF wfq items(2)]
  have loop: "parse_loop ?q = Inr (?r\<lparr>p_remaining := []\<rparr>)"
    unfolding qr as' by (simp add: parse_loop.simps)
  have dl: "default_list (take_rest (?r\<lparr>p_remaining := []\<rparr>)) = default_list ?q"
    by (simp add: take_rest_def default_list_def acts_tables)
  have "list_all (\<lambda>d. o_default (declared d) = '''') builtin_options" by code_simp
  then have none: "default_list ?q = []" using has_table_defaults [OF T] t(2) by simp
  let ?s = "take_rest (?r\<lparr>p_remaining := []\<rparr>)"
  have "parse_args ?as p = Inr (?s\<lparr>p_values := p_values ?s\<rparr>)"
    by (simp add: parse_args_def loop Let_def all_defaults_eq dl none put_defaults_def)
  moreover have "p_values ?s = fold put_pair (stored as) values_new"
    using add_builtin_keeps(2) [OF wf'] wf(2) by (simp add: take_rest_def acts_result(1))
  moreover have "callback_at (?s\<lparr>p_values := v\<rparr>) i = fold cb_append (appended i as) (callback_at p i)" for v i
  proof -
    have "callback_at (?s\<lparr>p_values := v\<rparr>) i = callback_at ?r i" by (simp add: callback_at_def take_rest_def)
    moreover have "callback_at ?q i = callback_at p i" using add_builtin_callbacks [OF wf'] by (simp add: callback_at_def)
    ultimately show ?thesis by (simp add: acts_result(2))
  qed
  ultimately show thesis using that [of "?s\<lparr>p_values := p_values ?s\<rparr>"] by simp
qed

text \<open>What \<open>add_option\<close> leaves alone.\<close>

lemma declares_keep:
  "numbered p \<Longrightarrow> numbered (fold declare_option ds p) \<and> p_add_version (fold declare_option ds p) = p_add_version p \<and>
     p_add_help (fold declare_option ds p) = p_add_help p \<and> p_values (fold declare_option ds p) = p_values p \<and>
     p_callbacks (fold declare_option ds p) = p_callbacks p \<and> p_prog (fold declare_option ds p) = p_prog p"
proof (induction ds arbitrary: p)
  case (Cons d ds)
  obtain L S where q: "declare_option d p =
      p\<lparr>p_long := L, p_short := S, p_opts := p_opts p @ [(p_next p, declared d)], p_next := Suc (p_next p)\<rparr>" (is "_ = ?q")
    and LS: "\<And>n. smap_get L n = (if long_name d n then Some (p_next p) else smap_get (p_long p) n)"
      "\<And>n. smap_get S n = (if short_name d n then Some (p_next p) else smap_get (p_short p) n)"
    using declare_option_eq [OF Cons.prems] by metis
  have "numbered ?q" using Cons.prems by (auto simp: numbered_def LS less_Suc_eq)
  from Cons.IH [OF this] show ?case by (simp add: q)
qed simp

end
