(* ===== verification/CommandLine.thy ===== *)
theory CommandLine
  imports OptTable SendingM ReceivingM ConnectingM
begin

text \<open>
  The clients from \<open>argv\<close> to the wire: the tables of the three option parsers, what \<open>client_options\<close> makes of a command
  line written over them, and what the handler does with it.
\<close>

subsection \<open>The tables of the clients\<close>

definition sender_table :: "opt_line list" where
  "sender_table = (modern_options @ sender_options) @ builtin_options"

definition receiver_table :: "opt_line list" where
  "receiver_table = (modern_options @ receiver_options) @ builtin_options"

definition connector_table :: "opt_line list" where
  "connector_table = (modern_options @ connector_options) @ builtin_options"

lemma modern_has_table: "has_table (modern_parser c) modern_options"
  using has_table_declares [OF has_table_new, of modern_options c] by (simp add: modern_parser_def)

lemma client_tables:
  "has_table (sender_parser c) (modern_options @ sender_options)"
  "has_table (receiver_parser c) (modern_options @ receiver_options)"
  "has_table (connector_parser c) (modern_options @ connector_options)"
proof -
  note m = modern_has_table [of c]
  have "has_table ((modern_parser c)\<lparr>p_callbacks := cbs\<rparr>) modern_options" for cbs
    using m by (intro has_table_cong [OF m]) (simp_all add: has_table_def numbered_def)
  then show "has_table (sender_parser c) (modern_options @ sender_options)"
    unfolding sender_parser_def by (rule has_table_declares)
  show "has_table (receiver_parser c) (modern_options @ receiver_options)"
    "has_table (connector_parser c) (modern_options @ connector_options)"
    unfolding receiver_parser_def connector_parser_def using m by (rule has_table_declares)+
qed

lemma no_defaults: "list_all (\<lambda>d. o_default (declared d) = '''') modern_options"
  "list_all (\<lambda>d. o_default (declared d) = '''') sender_options"
  "list_all (\<lambda>d. o_default (declared d) = '''') receiver_options"
  "list_all (\<lambda>d. o_default (declared d) = '''') connector_options"
  by code_simp+

text \<open>A parser as its constructor leaves it.\<close>

definition fresh_parser :: "opt_parser \<Rightarrow> bool" where
  "fresh_parser p = (parser_wf p \<and> p_values p = values_new \<and> p_add_version p \<and> p_add_help p \<and> p_prog p = '''' \<and>
     (\<forall>i. callback_at p i = callback_new))"

lemma fresh_parsers: "fresh_parser (sender_parser c)" "fresh_parser (receiver_parser c)" "fresh_parser (connector_parser c)"
proof -
  have m: "numbered (modern_parser c)" "p_add_version (modern_parser c)" "p_add_help (modern_parser c)"
    "p_values (modern_parser c) = values_new" "p_callbacks (modern_parser c) = []" "p_prog (modern_parser c) = ''''"
    using declares_keep [OF numbered_new, of modern_options c] by (simp_all add: modern_parser_def parser_new_def)
  let ?m = "(modern_parser c)\<lparr>p_callbacks := [(0, callback_new), (1, callback_new), (2, callback_new)]\<rparr>"
  have "numbered ?m" using m(1) by (simp add: numbered_def)
  from declares_keep [OF this, of sender_options] m show "fresh_parser (sender_parser c)"
    by (simp add: fresh_parser_def sender_parser_wf) (simp add: sender_parser_def callback_at_def smap_get_def)
  from declares_keep [OF m(1), of receiver_options] declares_keep [OF m(1), of connector_options] m
  show "fresh_parser (receiver_parser c)" "fresh_parser (connector_parser c)"
    by (simp_all add: fresh_parser_def receiver_parser_wf connector_parser_wf)
      (simp_all add: receiver_parser_def connector_parser_def callback_at_def smap_get_def)
qed

text \<open>The value the command line gives to a destination: the last one.\<close>

definition option_values :: "opt_line list \<Rightarrow> cmd_item list \<Rightarrow> opt_values" where
  "option_values t its = fold put_pair (stored (table_acts t its)) values_new"

definition given :: "opt_line list \<Rightarrow> cmd_item list \<Rightarrow> string \<Rightarrow> string option" where
  "given t its = map_of (rev (stored (table_acts t its)))"

lemma option_values_get: "smap_get (v_map (option_values t its)) = given t its"
  using put_pairs_map [of values_new "stored (table_acts t its)"]
  by (simp add: option_values_def given_def values_new_def smap_empty)

lemma client_options_table:
  assumes "fresh_parser p" and t: "has_table p t" "list_all (\<lambda>d. o_default (declared d) = '''') t"
    and ok: "list_all (table_item (t @ builtin_options)) its"
  obtains r where "client_options p desc validate (prog # concat (map item_args its)) =
      (case validate r (p_values r) of Inl e \<Rightarrow> Inl e | Inr _ \<Rightarrow> Inr (r, set_log_level (p_values r) log_world_new))"
    "p_values r = option_values (t @ builtin_options) its"
    "\<And>i. callback_at r i = cb_all (appended i (table_acts (t @ builtin_options) its))"
proof -
  define u where "u = (set_usage ''usage: %prog [OPTION]... DIR [FILE]...'' p)\<lparr>p_version := ''1.0'', p_description := desc\<rparr>"
  let ?p = "u\<lparr>p_prog := path_basename prog\<rparr>"
  have u: "p_long u = p_long p" "p_short u = p_short p" "p_groups u = p_groups p" "p_next u = p_next p"
    "p_defaults u = p_defaults p" "p_interspersed u = p_interspersed p" "p_opts u = p_opts p" "p_values u = p_values p"
    "p_callbacks u = p_callbacks p" "p_add_version u = p_add_version p" "p_add_help u = p_add_help p"
    "p_prog u = p_prog p" "p_version u = ''1.0''"
    by (simp_all add: u_def set_usage_def)
  note f = assms(1) [unfolded fresh_parser_def]
  have wf: "parser_wf ?p" by (rule parser_wf_cong [of p]) (use f in \<open>simp_all add: u parser_wf_def values_new_def smap_empty\<close>)
  have T: "has_table ?p t"
    using t(1) by (intro has_table_cong [OF t(1)]) (simp_all add: has_table_def numbered_def u)
  have b: "p_values ?p = values_new" "p_add_version ?p" "p_version ?p \<noteq> ''''" "p_add_help ?p"
    using f by (simp_all add: u)
  obtain r where r: "parse_args (concat (map item_args its)) ?p = Inr r"
    "p_values r = fold put_pair (stored (table_acts (t @ builtin_options) its)) values_new"
    "\<And>i. callback_at r i = fold cb_append (appended i (table_acts (t @ builtin_options) its)) (callback_at ?p i)"
    using parse_args_table [OF wf b(1) T t(2) b(2-4) ok refl] by blast
  have "parse_argv (prog # concat (map item_args its)) u = Inr r"
    using r(1) f by (simp add: parse_argv_def u)
  then have "client_options p desc validate (prog # concat (map item_args its)) =
      (case validate r (p_values r) of Inl e \<Rightarrow> Inl e | Inr _ \<Rightarrow> Inr (r, set_log_level (p_values r) log_world_new))"
    by (simp add: client_options_def u_def)
  moreover have "p_values r = option_values (t @ builtin_options) its"
    by (simp add: r(2) option_values_def)
  moreover have "cb_call ''opt'' = cb_append" by (simp add: fun_eq_iff cb_call_def)
  then have "callback_at r i = cb_all (appended i (table_acts (t @ builtin_options) its))" for i
    using f r(3) [of i] by (simp add: cb_all_def callback_at_def u)
  ultimately show thesis by (rule that)
qed

subsection \<open>The sender\<close>

definition given_text :: "opt_line list \<Rightarrow> cmd_item list \<Rightarrow> string \<Rightarrow> string \<Rightarrow> string" where
  "given_text t its d s = (case given t its d of None \<Rightarrow> s | Some v \<Rightarrow> v)"

definition given_int :: "opt_line list \<Rightarrow> cmd_item list \<Rightarrow> string \<Rightarrow> int \<Rightarrow> int" where
  "given_int t its d n = (case given t its d of None \<Rightarrow> n | Some v \<Rightarrow> (case extract_int v of Some i \<Rightarrow> i | None \<Rightarrow> 0))"

text \<open>What the options of the sender come to when they are read.\<close>

lemma given_options:
  assumes "smap_get (v_map v) = g"
  shows "is_set v d \<longleftrightarrow> g d \<noteq> None" "value_at v d = (case g d of Some s \<Rightarrow> s | None \<Rightarrow> '''')"
    "int_option v d n = (case g d of None \<Rightarrow> n | Some s \<Rightarrow> (case extract_int s of Some i \<Rightarrow> i | None \<Rightarrow> 0))"
    "text_option v d s = (case g d of None \<Rightarrow> s | Some t \<Rightarrow> t)"
  using assms
  by (auto simp: is_set_def value_at_def int_option_def get_int_def text_option_def split: option.split)

lemma fold_property_keeps:
  "m_to (fold setMessageProperty ps m) = m_to m" "m_subject (fold setMessageProperty ps m) = m_subject m"
  "m_reply_to (fold setMessageProperty ps m) = m_reply_to m" "m_id (fold setMessageProperty ps m) = m_id m"
proof (induction ps arbitrary: m)
  case (Cons q ps)
  have "m_to (setMessageProperty q m) = m_to m" "m_subject (setMessageProperty q m) = m_subject m"
    "m_reply_to (setMessageProperty q m) = m_reply_to m" "m_id (setMessageProperty q m) = m_id m" for m
    by (simp_all add: setMessageProperty_def Let_def split: prod.split)
  { case 1 show ?case using Cons \<open>\<And>m. m_to (setMessageProperty q m) = m_to m\<close> by simp }
  { case 2 show ?case using Cons \<open>\<And>m. m_subject (setMessageProperty q m) = m_subject m\<close> by simp }
  { case 3 show ?case using Cons \<open>\<And>m. m_reply_to (setMessageProperty q m) = m_reply_to m\<close> by simp }
  { case 4 show ?case using Cons \<open>\<And>m. m_id (setMessageProperty q m) = m_id m\<close> by simp }
qed simp_all

lemma os_keeps:
  assumes "\<And>x m. f (st x m) = f m"
  shows "f (os_set v d st m) = f m"
  using assms by (simp add: os_set_def bean_set_def)

lemma os_number_keeps:
  assumes "\<And>x m. f (st x m) = f m"
  shows "f (os_setNumber v d st m) = f m"
  using assms by (simp add: os_setNumber_def bean_set_def)

lemma os_boolean_keeps:
  assumes "\<And>x m. f (st x m) = f m"
  shows "f (os_setBoolean v d st m) = f m"
  using assms by (simp add: os_setBoolean_def bean_setBoolean_def)

lemma os_text:
  assumes "smap_get (v_map v) = g"
  shows "f (os_set v d st m) = (case g d of None \<Rightarrow> f m | Some s \<Rightarrow> f (st s m))"
  using assms by (simp add: os_set_def bean_set_def is_set_def value_at_def split: option.split)

lemmas message_keeps = os_keeps [where f = m_to] os_keeps [where f = m_subject] os_keeps [where f = m_reply_to]
  os_keeps [where f = m_properties] os_number_keeps [where f = m_to] os_number_keeps [where f = m_subject]
  os_number_keeps [where f = m_reply_to] os_number_keeps [where f = m_properties]
  os_boolean_keeps [where f = m_to] os_boolean_keeps [where f = m_subject]
  os_boolean_keeps [where f = m_reply_to] os_boolean_keeps [where f = m_properties]

lemma message_options:
  assumes "smap_get (v_map v) = g"
  defines "m \<equiv> setMessageOptions v message_new"
  shows "m_to m = (case g ''msg-to'' of None \<Rightarrow> '''' | Some s \<Rightarrow> s)"
    "m_subject m = (case g ''msg-subject'' of None \<Rightarrow> '''' | Some s \<Rightarrow> s)"
    "m_reply_to m = (case g ''msg-reply-to'' of None \<Rightarrow> '''' | Some s \<Rightarrow> s)"
    "m_properties m = []"
proof -
  have ttl: "os_setNumber_default v d c (\<lambda>x m. m\<lparr>m_ttl := x\<rparr>) n m = m\<lparr>m_ttl := if is_set v d then c v d else n\<rparr>" for d c n m
    by (simp add: os_setNumber_default_def bean_set_def)
  note own = os_text [OF assms(1), where f = m_to] os_text [OF assms(1), where f = m_subject]
    os_text [OF assms(1), where f = m_reply_to]
  show "m_to m = (case g ''msg-to'' of None \<Rightarrow> '''' | Some s \<Rightarrow> s)"
    unfolding m_def setMessageOptions_def by (simp add: message_keeps ttl) (simp add: own message_keeps message_new_def split: option.split)
  show "m_subject m = (case g ''msg-subject'' of None \<Rightarrow> '''' | Some s \<Rightarrow> s)"
    unfolding m_def setMessageOptions_def by (simp add: message_keeps ttl) (simp add: own message_keeps message_new_def split: option.split)
  show "m_reply_to m = (case g ''msg-reply-to'' of None \<Rightarrow> '''' | Some s \<Rightarrow> s)"
    unfolding m_def setMessageOptions_def by (simp add: message_keeps ttl) (simp add: own message_keeps message_new_def split: option.split)
  show "m_properties m = []"
    unfolding m_def setMessageOptions_def by (simp add: message_keeps ttl message_new_def)
qed

lemma sending_run_table:
  assumes "list_all (table_item sender_table) its"
  obtains r where "sending_run columns forever (prog # concat (map item_args its)) =
      (case validate_sender r (p_values r) of Inl e \<Rightarrow> Inl e
       | Inr _ \<Rightarrow> sending_client forever r (set_log_level (p_values r) log_world_new))"
    "p_values r = option_values sender_table its"
    "\<And>i. callback_at r i = cb_all (appended i (table_acts sender_table its))"
proof -
  have plain: "list_all (\<lambda>d. o_default (declared d) = '''') (modern_options @ sender_options)" using no_defaults(1,2) by simp
  obtain r where "client_options (sender_parser columns) ''C/C++ AMQ reactive API sender client for Qpid Proton'' validate_sender
      (prog # concat (map item_args its)) =
      (case validate_sender r (p_values r) of Inl e \<Rightarrow> Inl e | Inr _ \<Rightarrow> Inr (r, set_log_level (p_values r) log_world_new))"
    "p_values r = option_values ((modern_options @ sender_options) @ builtin_options) its"
    "\<And>i. callback_at r i = cb_all (appended i (table_acts ((modern_options @ sender_options) @ builtin_options) its))"
    by (rule client_options_table [where desc = "''C/C++ AMQ reactive API sender client for Qpid Proton''"
        and validate = validate_sender and prog = prog, OF fresh_parsers(1) [of columns] client_tables(1) [of columns] plain
        assms [unfolded sender_table_def]]) blast
  note r = this [folded sender_table_def]
  have "sending_run columns forever (prog # concat (map item_args its)) =
      (case validate_sender r (p_values r) of Inl e \<Rightarrow> Inl e
       | Inr _ \<Rightarrow> sending_client forever r (set_log_level (p_values r) log_world_new))"
    by (simp add: sending_run_def r split: sum.split)
  then show thesis using r(2,3) by (rule that)
qed

text \<open>
  C4. A sender's command line, from \<open>argv\<close> to the wire. Let the command line consist of the sender's options, each written
  in any of the ways of the option parser, with well-formed items for \<open>--msg-property\<close> and no list or map items. If the
  client starts at all, then in every run it sends numbered copies of one message, in order, without gap or repetition, at
  most as many as the last \<open>--count\<close> says (one without it), and closes the connection once when all are confirmed; the body of the message is the last \<open>--msg-content\<close>, its
  address, subject and reply address are the last ones given, and its properties are exactly the items, the last one of
  each name. No option it was not given has a say in this.
\<close>

theorem sender_command_line:
  assumes "list_all (table_item sender_table) its"
    and "sending_run columns forever (prog # concat (map item_args its)) = Inr cl"
    and "appended 0 (table_acts sender_table its) = map item_text props" and "list_all item_fits props"
    and "cpp_size (cb_str (cb_all (map item_text props)))"
    and "appended 1 (table_acts sender_table its) = []" and "appended 2 (table_acts sender_table its) = []"
    and "reaches (sender_step L) sender_ok (cl_handler cl) s"
  shows "\<exists>m. m_body m = VString (given_text sender_table its ''msg-content'' '''') \<and>
    m_to m = given_text sender_table its ''msg-to'' '''' \<and> m_subject m = given_text sender_table its ''msg-subject'' '''' \<and>
    m_reply_to m = given_text sender_table its ''msg-reply-to'' '''' \<and>
    smap_get (m_properties m) = map_of (rev (map (\<lambda>x. (item_name x, item_value x)) props)) \<and>
    sent_messages (h_effects s) = map (\<lambda>i. number_message i m) [0..int (length (sent_messages (h_effects s))) - 1] \<and>
    int (length (sent_messages (h_effects s))) \<le> max 0 (given_int sender_table its ''count'' 1) \<and>
    closings (h_effects s) = (if 0 < given_int sender_table its ''count'' 1 \<and>
      sh_confirmed s = given_int sender_table its ''count'' 1 then 1 else 0)"
proof -
  let ?as = "table_acts sender_table its" and ?g = "given sender_table its"
  obtain r where r: "sending_run columns forever (prog # concat (map item_args its)) =
      (case validate_sender r (p_values r) of Inl e \<Rightarrow> Inl e
       | Inr _ \<Rightarrow> sending_client forever r (set_log_level (p_values r) log_world_new))"
    "p_values r = option_values sender_table its" "\<And>i. callback_at r i = cb_all (appended i ?as)"
    using sending_run_table [OF assms(1)] by blast
  have v: "smap_get (v_map (p_values r)) = ?g" by (simp add: r(2) option_values_get)
  have cl: "sending_client forever r (set_log_level (p_values r) log_world_new) = Inr cl"
    using assms(2) r(1) by (simp split: sum.splits)
  from sending_client_wire [OF cl assms(8)] obtain m where m: "sending_message r (p_values r) = Inr m"
    "sent_messages (h_effects s) = map (\<lambda>i. number_message i m) [0..int (length (sent_messages (h_effects s))) - 1]"
    "int (length (sent_messages (h_effects s))) \<le> max 0 (int_option (p_values r) ''count'' 1)"
    "closings (h_effects s) = (if 0 < int_option (p_values r) ''count'' 1 \<and>
      sh_confirmed s = int_option (p_values r) ''count'' 1 then 1 else 0)" by blast
  let ?m0 = "setMessageOptions (p_values r) message_new"
  note o = message_options [OF v]
  have strings: "get_strings (callback_at r 0) = Inr (map item_text props)"
    using items_strings [OF assms(5,4)] by (simp add: r(3) assms(3))
  have "callback_at r 1 = callback_new" "callback_at r 2 = callback_new"
    using assms(6,7) by (simp_all add: r(3) cb_all_def)
  then have body: "sending_body r (p_values r) x = Inr (x\<lparr>m_body := VString (value_at (p_values r) ''msg-content'')\<rparr>)" for x
    by (simp add: sending_body_def callback_new_def setMessageText_def)
  let ?m1 = "fold setMessageProperty (map item_text props) ?m0"
  have fields: "m_to m = m_to ?m1" "m_subject m = m_subject ?m1" "m_reply_to m = m_reply_to ?m1"
    "m_properties m = m_properties ?m1" "m_body m = VString (value_at (p_values r) ''msg-content'')"
    using m(1) by (auto simp: sending_message_def setMessageProperties_def strings body split: if_splits)
  have props: "smap_get (m_properties m) = map_of (rev (map (\<lambda>x. (item_name x, item_value x)) props))"
    using smap.put_all_get [OF smap.invar_empty, of "map (\<lambda>x. (item_name x, item_value x)) props"]
    by (simp add: fields(4) properties_fold [OF assms(4)] o(4) smap.get_empty)
  show ?thesis
    by (intro exI [of _ m] conjI)
      (use m(2-4) props in \<open>simp_all add: fields fold_property_keeps o given_options [OF v] given_text_def given_int_def\<close>)
qed

definition sample_command :: "cmd_item list" where
  "sample_command = [Long_eq ''broker-url'' ''h/q'', Short_sp (CHR ''c'') ''2'', Long_sp ''msg-property'' ''k=v'',
     Long_eq ''msg-content'' ''m %d'']"

lemma sample_command_args:
  "concat (map item_args sample_command) = [''--broker-url=h/q'', ''-c'', ''2'', ''--msg-property'', ''k=v'', ''--msg-content=m %d'']"
  by code_simp

lemma sample_command_items: "list_all (table_item sender_table) sample_command"
  by code_simp

lemma sample_command_acts: "table_acts sender_table sample_command =
    [Inl (''broker-url'', ''h/q''), Inl (''count'', ''2''), Inr (0, ''k=v''), Inl (''msg-content'', ''m %d'')]"
  by code_simp

lemma sample_starts: "\<exists>cl. sending_run None 0 (''aac3_sender'' # concat (map item_args sample_command)) = Inr cl"
proof -
  obtain r where r: "sending_run None 0 (''aac3_sender'' # concat (map item_args sample_command)) =
      (case validate_sender r (p_values r) of Inl e \<Rightarrow> Inl e
       | Inr _ \<Rightarrow> sending_client 0 r (set_log_level (p_values r) log_world_new))"
    and v: "p_values r = option_values sender_table sample_command"
    and cb: "\<And>i. callback_at r i = cb_all (appended i (table_acts sender_table sample_command))"
    using sending_run_table [OF sample_command_items] by blast
  have v': "smap_get (v_map (p_values r)) = given sender_table sample_command" by (simp add: v option_values_get)
  have g: "given sender_table sample_command =
      [''broker-url'' \<mapsto> ''h/q'', ''count'' \<mapsto> ''2'', ''msg-content'' \<mapsto> ''m %d'']"
    by (simp add: given_def sample_command_acts)
  note o = given_options [OF v', unfolded g]
  have "validate_sender r (p_values r) = Inr ()"
    by (simp add: validate_sender_def validate_modern_def modern_checks_def Let_def o get_bool_def)
  moreover have "get_strings (cb_all [''k=v'']) = Inr [''k=v'']" by code_simp
  then have "get_strings (callback_at r 0) = Inr [''k=v'']" by (simp add: cb sample_command_acts)
  moreover have "callback_at r 1 = callback_new" "callback_at r 2 = callback_new"
    by (simp_all add: cb sample_command_acts cb_all_def)
  then have "sending_body r (p_values r) x = Inr (setMessageText (value_at (p_values r) ''msg-content'') x)" for x
    by (simp add: sending_body_def callback_new_def)
  ultimately have "\<exists>m. sending_message r (p_values r) = Inr m" and valid: "validate_sender r (p_values r) = Inr ()"
    by (simp_all add: sending_message_def setMessageProperties_def)
  moreover have "\<not> isl (uri_of ''h/q'')" "topic_address ''h/q'' = (''h/q'', False)" by code_simp+
  then obtain u where "uri_of ''h/q'' = Inr u" "topic_address ''h/q'' = (''h/q'', False)" by (cases "uri_of ''h/q''") simp_all
  ultimately show ?thesis
    by (auto simp: r sending_client_def client_uri_def Let_def o sending_handler_def sender_new_def common_handler_new_def)
qed

lemma count_sample: "extract_int ''2'' = Some 2"
  by code_simp

text \<open>The message of this command line, seen in the state before the first event.\<close>

lemma sender_command_line_witness:
  "\<exists>cl m. sending_run None 0 [''aac3_sender'', ''--broker-url=h/q'', ''-c'', ''2'', ''--msg-property'', ''k=v'', ''--msg-content=m %d'']
        = Inr cl \<and>
     m_body m = VString ''m %d'' \<and> m_to m = '''' \<and> smap_get (m_properties m) = [''k'' \<mapsto> VString ''v''] \<and>
     sent_messages (h_effects (cl_handler cl)) =
       map (\<lambda>i. number_message i m) [0..int (length (sent_messages (h_effects (cl_handler cl)))) - 1] \<and>
     int (length (sent_messages (h_effects (cl_handler cl)))) \<le> 2"
proof -
  obtain cl where cl: "sending_run None 0 (''aac3_sender'' # concat (map item_args sample_command)) = Inr cl"
    using sample_starts by blast
  have props: "appended 0 (table_acts sender_table sample_command) = map item_text [Text ''k'' ''v'']"
    "list_all item_fits [Text ''k'' ''v'']" "cpp_size (cb_str (cb_all (map item_text [Text ''k'' ''v''])))"
    "appended 1 (table_acts sender_table sample_command) = []" "appended 2 (table_acts sender_table sample_command) = []"
    unfolding sample_command_acts by code_simp+
  have g: "given_text sender_table sample_command ''msg-content'' '''' = ''m %d''"
    "given_text sender_table sample_command ''msg-to'' '''' = ''''" "given_int sender_table sample_command ''count'' 1 = 2"
    by (simp_all add: given_text_def given_int_def given_def sample_command_acts count_sample)
  have "reaches (sender_step sample_lib) sender_ok (cl_handler cl) (cl_handler cl)" by (rule reaches_start)
  from sender_command_line [OF sample_command_items cl props this] obtain m where
    "m_body m = VString ''m %d''" "m_to m = ''''" "smap_get (m_properties m) = [''k'' \<mapsto> VString ''v'']"
    "sent_messages (h_effects (cl_handler cl)) =
       map (\<lambda>i. number_message i m) [0..int (length (sent_messages (h_effects (cl_handler cl)))) - 1]"
    "int (length (sent_messages (h_effects (cl_handler cl)))) \<le> 2"
    unfolding g by auto
  with cl show ?thesis unfolding sample_command_args by blast
qed

subsection \<open>The receiver and the connector\<close>

lemma receiving_run_table:
  assumes "list_all (table_item receiver_table) its"
  obtains r where "receiving_run columns forever uuid (prog # concat (map item_args its)) =
      (case validate_receiver r (p_values r) of Inl e \<Rightarrow> Inl e
       | Inr _ \<Rightarrow> receiving_client forever uuid r (set_log_level (p_values r) log_world_new))"
    "p_values r = option_values receiver_table its"
proof -
  have plain: "list_all (\<lambda>d. o_default (declared d) = '''') (modern_options @ receiver_options)" using no_defaults(1,3) by simp
  obtain r where "client_options (receiver_parser columns) ''C/C++ AMQ reactive API receiver client for Qpid Proton'' validate_receiver
      (prog # concat (map item_args its)) =
      (case validate_receiver r (p_values r) of Inl e \<Rightarrow> Inl e | Inr _ \<Rightarrow> Inr (r, set_log_level (p_values r) log_world_new))"
    "p_values r = option_values ((modern_options @ receiver_options) @ builtin_options) its"
    "\<And>i. callback_at r i = cb_all (appended i (table_acts ((modern_options @ receiver_options) @ builtin_options) its))"
    by (rule client_options_table [where desc = "''C/C++ AMQ reactive API receiver client for Qpid Proton''"
        and validate = validate_receiver and prog = prog, OF fresh_parsers(2) [of columns] client_tables(2) [of columns] plain
        assms [unfolded receiver_table_def]]) blast
  note r = this [folded receiver_table_def]
  have "receiving_run columns forever uuid (prog # concat (map item_args its)) =
      (case validate_receiver r (p_values r) of Inl e \<Rightarrow> Inl e
       | Inr _ \<Rightarrow> receiving_client forever uuid r (set_log_level (p_values r) log_world_new))"
    by (simp add: receiving_run_def r split: sum.split)
  then show thesis using r(2) by (rule that)
qed

lemma connecting_run_table:
  assumes "list_all (table_item connector_table) its"
  obtains r where "connecting_run columns forever (prog # concat (map item_args its)) =
      (case validate_connector r (p_values r) of Inl e \<Rightarrow> Inl e
       | Inr _ \<Rightarrow> connecting_client forever r (set_log_level (p_values r) log_world_new))"
    "p_values r = option_values connector_table its"
proof -
  have plain: "list_all (\<lambda>d. o_default (declared d) = '''') (modern_options @ connector_options)" using no_defaults(1,4) by simp
  obtain r where "client_options (connector_parser columns) ''C/C++ AMQ reactive API connecting client for Qpid Proton'' validate_connector
      (prog # concat (map item_args its)) =
      (case validate_connector r (p_values r) of Inl e \<Rightarrow> Inl e | Inr _ \<Rightarrow> Inr (r, set_log_level (p_values r) log_world_new))"
    "p_values r = option_values ((modern_options @ connector_options) @ builtin_options) its"
    "\<And>i. callback_at r i = cb_all (appended i (table_acts ((modern_options @ connector_options) @ builtin_options) its))"
    by (rule client_options_table [where desc = "''C/C++ AMQ reactive API connecting client for Qpid Proton''"
        and validate = validate_connector and prog = prog, OF fresh_parsers(3) [of columns] client_tables(3) [of columns] plain
        assms [unfolded connector_table_def]]) blast
  note r = this [folded connector_table_def]
  have "connecting_run columns forever (prog # concat (map item_args its)) =
      (case validate_connector r (p_values r) of Inl e \<Rightarrow> Inl e
       | Inr _ \<Rightarrow> connecting_client forever r (set_log_level (p_values r) log_world_new))"
    by (simp add: connecting_run_def r split: sum.split)
  then show thesis using r(2) by (rule that)
qed

definition given_atoi :: "opt_line list \<Rightarrow> cmd_item list \<Rightarrow> string \<Rightarrow> int \<Rightarrow> int" where
  "given_atoi t its d n = (case given t its d of None \<Rightarrow> n | Some v \<Rightarrow> atoi v)"

definition given_true :: "opt_line list \<Rightarrow> cmd_item list \<Rightarrow> string \<Rightarrow> bool" where
  "given_true t its d = (lower (given_text t its d '''') = ''true'')"

definition given_flag :: "opt_line list \<Rightarrow> cmd_item list \<Rightarrow> string \<Rightarrow> bool" where
  "given_flag t its d = (extract_bool (given_text t its d '''') = Some True)"

text \<open>The clients' readings of an option, in these terms.\<close>

lemma given_readings:
  assumes "smap_get (v_map v) = given t its"
  shows "atoi_option v d n = given_atoi t its d n" "text_option v d s = given_text t its d s"
    "int_option v d n = given_int t its d n" "true_option v d = given_true t its d"
    "lower_option v d ''true'' = lower (given_text t its d ''true'')"
    "value_at v d = given_text t its d ''''"
proof -
  have "lower ''true'' = ''true''" by code_simp
  then show "lower_option v d ''true'' = lower (given_text t its d ''true'')"
    by (simp add: given_options [OF assms] given_text_def lower_option_def split: option.split)
qed (simp_all add: atoi_option_def given_atoi_def given_options [OF assms] given_text_def given_int_def true_option_def
      given_true_def lower_def split: option.split)

text \<open>
  C5. A receiver's command line, from \<open>argv\<close> to the deliveries. If a command line of the receiver's options starts the client,
  then in every run that does not end in an exception it has settled, of \<open>k\<close> messages, \<open>k div n\<close> in the way the last
  \<open>--action\<close> names and none in another, where \<open>n \<ge> 1\<close> is the last \<open>--action-size\<close> (1 without it). A receiver that does
  not unsubscribe has closed its connection once, if \<open>--count\<close> is positive, as many messages have arrived and it is not
  told to process reply-to addresses, and not at all otherwise; of the closing of an unsubscribing one nothing is said here.
\<close>

theorem receiver_command_line:
  assumes "list_all (table_item receiver_table) its"
    and "receiving_run columns forever uuid (prog # concat (map item_args its)) = Inr cl"
    and "run_events (receiver_step L) receiver_ok es (cl_handler cl) = Some s" and "\<not> crashed s"
  shows "1 \<le> given_atoi receiver_table its ''msg-action-size'' 1 \<and>
    map (\<lambda>a. times a (h_effects s)) [Accept, Reject, Release] =
      map (\<lambda>w. if given_text receiver_table its ''msg-action'' ''no-action'' = w
                then length (received es) div nat (given_atoi receiver_table its ''msg-action-size'' 1) else 0)
        [''ack'', ''reject'', ''release''] \<and>
    (if given_true receiver_table its ''subscriber-unsubscribe'' then True
     else times Close_connection (h_effects s) =
       (if \<not> given_flag receiver_table its ''process-reply-to'' \<and> 0 < given_int receiver_table its ''count'' 0 \<and>
           given_int receiver_table its ''count'' 0 \<le> int (length (received es)) then 1 else 0))"
proof -
  obtain r where r: "receiving_run columns forever uuid (prog # concat (map item_args its)) =
      (case validate_receiver r (p_values r) of Inl e \<Rightarrow> Inl e
       | Inr _ \<Rightarrow> receiving_client forever uuid r (set_log_level (p_values r) log_world_new))"
    "p_values r = option_values receiver_table its"
    using receiving_run_table [OF assms(1)] by blast
  have v: "smap_get (v_map (p_values r)) = given receiver_table its" by (simp add: r(2) option_values_get)
  from r have "validate_receiver r (p_values r) = Inr ()"
    and cl: "receiving_client forever uuid r (set_log_level (p_values r) log_world_new) = Inr cl"
    using assms(2) by (simp_all split: sum.splits)
  note settles = receiving_client_settles [OF this assms(3,4)]
  note readings = given_readings [OF v]
  have "extract_bool [] = None" by code_simp
  then have "r_process_reply_to (subscriber_settings (p_values r)) = given_flag receiver_table its ''process-reply-to''"
    by (simp add: subscriber_settings_def given_flag_def given_options [OF v] get_bool_def given_text_def
        split: option.split)
  with settles show ?thesis by (simp add: readings)
qed

lemma receiving_client_values:
  "p_values p = p_values q \<Longrightarrow> receiving_client forever uuid p logger = receiving_client forever uuid q logger"
  "(validate_receiver p v = Inr ()) = (validate_receiver q v = Inr ())"
proof -
  have modern: "(validate_modern p v = Inr ()) = (validate_modern q v = Inr ())"
    unfolding validate_modern_def first_failure_ok by (simp add: modern_checks_def Let_def)
  have "(first_failure (receiver_checks p v) = Inr ()) = (first_failure (receiver_checks q v) = Inr ())"
    unfolding first_failure_ok by (simp add: receiver_checks_def)
  with modern show "(validate_receiver p v = Inr ()) = (validate_receiver q v = Inr ())"
    by (auto simp: validate_receiver_def split: sum.splits)
qed (simp add: receiving_client_def)

definition sample_receiver_command :: "cmd_item list" where
  "sample_receiver_command = [Long_eq ''broker-url'' ''h/q'', Long_eq ''action'' ''ack'', Long_sp ''action-size'' ''2'',
     Short_sp (CHR ''c'') ''3'']"

definition sample_receiver_values :: opt_values where
  "sample_receiver_values = fold put_pair
     [(''broker-url'', ''h/q''), (''msg-action'', ''ack''), (''msg-action-size'', ''2''), (''count'', ''3'')] values_new"

lemma sample_receiver_items: "list_all (table_item receiver_table) sample_receiver_command"
  by code_simp

lemma sample_receiver_acts: "table_acts receiver_table sample_receiver_command =
    map Inl [(''broker-url'', ''h/q''), (''msg-action'', ''ack''), (''msg-action-size'', ''2''), (''count'', ''3'')]"
  by code_simp

definition started_receiver :: "receiver_handler client" where
  "started_receiver = projr (receiving_client 0 ''u'' ((parser_new None)\<lparr>p_values := sample_receiver_values\<rparr>)
     (set_log_level sample_receiver_values log_world_new))"

lemma sample_receiver_starts:
  "receiving_run None 0 ''u'' (''aac3_receiver'' # concat (map item_args sample_receiver_command)) = Inr started_receiver"
proof -
  let ?v = sample_receiver_values
  let ?q = "(parser_new None)\<lparr>p_values := ?v\<rparr>"
  have "option_values receiver_table sample_receiver_command = ?v"
    by (simp add: option_values_def sample_receiver_acts sample_receiver_values_def)
  then obtain r where r: "receiving_run None 0 ''u'' (''aac3_receiver'' # concat (map item_args sample_receiver_command)) =
      (case validate_receiver r (p_values r) of Inl e \<Rightarrow> Inl e
       | Inr _ \<Rightarrow> receiving_client 0 ''u'' r (set_log_level (p_values r) log_world_new))" "p_values r = ?v"
    using receiving_run_table [OF sample_receiver_items] by metis
  have "validate_receiver ?q ?v = Inr ()" by code_simp
  then have "validate_receiver r (p_values r) = Inr ()" unfolding r(2) using receiving_client_values(2) by blast
  moreover have "\<not> isl (receiving_client 0 ''u'' ?q (set_log_level ?v log_world_new))" by code_simp
  then have "receiving_client 0 ''u'' ?q (set_log_level ?v log_world_new) = Inr started_receiver"
    by (cases "receiving_client 0 ''u'' ?q (set_log_level ?v log_world_new)") (simp_all add: started_receiver_def)
  moreover have "receiving_client 0 ''u'' r l = receiving_client 0 ''u'' ?q l" for l
    by (rule receiving_client_values(1)) (simp add: r(2))
  ultimately show ?thesis by (simp add: r)
qed

lemma atoi_samples: "atoi ''2'' = 2"
  by code_simp

lemma receiver_command_line_witness:
  "map (\<lambda>a. times a (h_effects (the (run_events (receiver_step sample_lib) receiver_ok three_messages
     (cl_handler started_receiver))))) [Accept, Reject, Release] = [1, 0, 0]"
proof -
  let ?run = "run_events (receiver_step sample_lib) receiver_ok three_messages (cl_handler started_receiver)"
  have "\<not> Option.is_none ?run" "\<not> crashed (the ?run)" by code_simp+
  then have r: "?run = Some (the ?run)" "\<not> crashed (the ?run)" by (simp_all add: Option.is_none_def del: run_events.simps)
  have "map (\<lambda>w. if given_text receiver_table sample_receiver_command ''msg-action'' ''no-action'' = w
         then length (received three_messages) div nat (given_atoi receiver_table sample_receiver_command ''msg-action-size'' 1) else 0)
         [''ack'', ''reject'', ''release''] = [1, 0, 0]"
    by (simp add: given_text_def given_atoi_def given_def sample_receiver_acts atoi_samples)
  with receiver_command_line [OF sample_receiver_items sample_receiver_starts r] show ?thesis by simp
qed

text \<open>
  C6. A connector's command line, from \<open>argv\<close> to the objects. If a command line of the connector's options starts the
  client, then for every time-out (but the least number of \<open>int\<close>) and in every run the receiver (R), the sender (S) and the
  session (E) are closed as often as the connection when their letter stands in the last \<open>--obj-ctrl\<close> and never otherwise.
  A run ends in an exception exactly when \<open>--timeout\<close> is below -1 and a tick of it has been run. Every connection that
  opened and every failed session has been closed, or is still waiting for its time-out, one being lost in that exception.
\<close>

theorem connector_command_line:
  assumes "list_all (table_item connector_table) its"
    and "connecting_run columns forever (prog # concat (map item_args its)) = Inr cl"
    and "INT_MIN < given_int connector_table its ''timeout'' 0"
    and "run_events connector_step connector_ok es (cl_handler cl) = Some s"
  shows "map (\<lambda>a. times a (h_effects s)) [Close_receiver, Close_sender, Close_session] =
      map (\<lambda>c. if c \<in> set (given_text connector_table its ''obj-ctrl'' '''') then times Close_connection (h_effects s) else 0)
        ''RSE'' \<and>
    times Close_connection (h_effects s) + pending_timers s + (if crashed s then 1 else 0) = closers es \<and>
    (crashed s \<longleftrightarrow> given_int connector_table its ''timeout'' 0 < FOREVER \<and> C_timer \<in> set es)"
proof -
  obtain r where r: "connecting_run columns forever (prog # concat (map item_args its)) =
      (case validate_connector r (p_values r) of Inl e \<Rightarrow> Inl e
       | Inr _ \<Rightarrow> connecting_client forever r (set_log_level (p_values r) log_world_new))"
    "p_values r = option_values connector_table its"
    using connecting_run_table [OF assms(1)] by blast
  have v: "smap_get (v_map (p_values r)) = given connector_table its" by (simp add: r(2) option_values_get)
  have cl: "connecting_client forever r (set_log_level (p_values r) log_world_new) = Inr cl"
    using r assms(2) by (simp split: sum.splits)
  have g: "int_option (p_values r) ''timeout'' 0 = given_int connector_table its ''timeout'' 0"
    by (simp add: given_options [OF v] given_int_def)
  have t: "INT_MIN < int_option (p_values r) ''timeout'' 0" "int_option (p_values r) ''timeout'' 0 \<le> INT_MAX"
    using assms(3) int_option_int32 [of 0 "p_values r" "''timeout''"] by (simp_all add: g int32_def int_limits)
  have "value_at (p_values r) ''obj-ctrl'' = given_text connector_table its ''obj-ctrl'' ''''"
    by (simp add: given_options [OF v] given_text_def)
  with connecting_client_objects [OF cl t assms(4)] show ?thesis by (auto simp: g)
qed

lemma connecting_client_values:
  "p_values p = p_values q \<Longrightarrow> connecting_client forever p logger = connecting_client forever q logger"
  by (simp add: connecting_client_def)

definition sample_connector_command :: "cmd_item list" where
  "sample_connector_command = [Long_eq ''broker-url'' ''h/q'', Long_sp ''obj-ctrl'' ''CES'', Long_eq ''timeout'' ''1'']"

definition sample_connector_values :: opt_values where
  "sample_connector_values = fold put_pair [(''broker-url'', ''h/q''), (''obj-ctrl'', ''CES''), (''timeout'', ''1'')] values_new"

lemma sample_connector_items: "list_all (table_item connector_table) sample_connector_command"
  by code_simp

lemma sample_connector_acts: "table_acts connector_table sample_connector_command =
    map Inl [(''broker-url'', ''h/q''), (''obj-ctrl'', ''CES''), (''timeout'', ''1'')]"
  by code_simp

definition started_connector :: "connector_handler client" where
  "started_connector = projr (connecting_client 0 ((parser_new None)\<lparr>p_values := sample_connector_values\<rparr>)
     (set_log_level sample_connector_values log_world_new))"

lemma sample_connector_starts:
  "connecting_run None 0 (''aac3_connector'' # concat (map item_args sample_connector_command)) = Inr started_connector"
proof -
  let ?v = sample_connector_values
  let ?q = "(parser_new None)\<lparr>p_values := ?v\<rparr>"
  have ov: "option_values connector_table sample_connector_command = ?v"
    by (simp add: option_values_def sample_connector_acts sample_connector_values_def)
  then obtain r where r: "connecting_run None 0 (''aac3_connector'' # concat (map item_args sample_connector_command)) =
      (case validate_connector r (p_values r) of Inl e \<Rightarrow> Inl e
       | Inr _ \<Rightarrow> connecting_client 0 r (set_log_level (p_values r) log_world_new))" "p_values r = ?v"
    using connecting_run_table [OF sample_connector_items] by metis
  have v: "smap_get (v_map ?v) = [''broker-url'' \<mapsto> ''h/q'', ''obj-ctrl'' \<mapsto> ''CES'', ''timeout'' \<mapsto> ''1'']"
    using option_values_get [of connector_table sample_connector_command]
    by (simp add: ov given_def sample_connector_acts)
  have "validate_connector r (p_values r) = Inr ()"
    by (simp add: validate_connector_def validate_modern_def modern_checks_def Let_def r(2) given_options [OF v] get_bool_def)
  moreover have "\<not> isl (connecting_client 0 ?q (set_log_level ?v log_world_new))" by code_simp
  then have "connecting_client 0 ?q (set_log_level ?v log_world_new) = Inr started_connector"
    by (cases "connecting_client 0 ?q (set_log_level ?v log_world_new)") (simp_all add: started_connector_def)
  moreover have "connecting_client 0 r l = connecting_client 0 ?q l" for l
    by (rule connecting_client_values) (simp add: r(2))
  ultimately show ?thesis by (simp add: r)
qed

lemma timeout_sample: "extract_int ''1'' = Some 1"
  by code_simp

lemma connector_command_line_witness:
  "map (\<lambda>a. times a (h_effects (the (run_events connector_step connector_ok [C_start, C_open, C_timer, C_timer]
     (cl_handler started_connector))))) [Close_receiver, Close_sender, Close_session] = [0, 1, 1]"
proof -
  let ?run = "run_events connector_step connector_ok [C_start, C_open, C_timer, C_timer] (cl_handler started_connector)"
  have t: "INT_MIN < given_int connector_table sample_connector_command ''timeout'' 0"
    by (simp add: given_int_def given_def sample_connector_acts timeout_sample int_limits)
  have "\<not> Option.is_none ?run" by code_simp
  then have r: "?run = Some (the ?run)" by (simp add: Option.is_none_def del: run_events.simps)
  have "\<not> crashed (the ?run)" "pending_timers (the ?run) = 0" "closers [C_start, C_open, C_timer, C_timer] = 1" by code_simp+
  moreover have "given_text connector_table sample_connector_command ''obj-ctrl'' '''' = ''CES''"
    by (simp add: given_text_def given_def sample_connector_acts)
  ultimately show ?thesis using connector_command_line [OF sample_connector_items sample_connector_starts t r] by simp
qed

end
