(* ===== verification/Endings.thy ===== *)
theory Endings
  imports SenderH ReceiverLaws ConnectorH
begin

text \<open>
  How the handlers' runs end. For each handler an abstract machine over the events says when the program stops and with
  what: it keeps the seconds left and the few counters that matter, and knows nothing of the handler. The proofs that the
  handlers stop exactly when their machines do are the base of the exit statuses of the clients.
\<close>

subsection \<open>Machines that may stop\<close>

fun machine_run :: "('e \<Rightarrow> 'v \<Rightarrow> halt + 'v) \<Rightarrow> 'e list \<Rightarrow> 'v \<Rightarrow> halt + 'v" where
  "machine_run f [] v = Inr v"
| "machine_run f (e # es) v = (case f e v of Inl h \<Rightarrow> Inl h | Inr w \<Rightarrow> machine_run f es w)"

definition stop_of :: "halt + 'v \<Rightarrow> halt option" where
  "stop_of r = (case r of Inl h \<Rightarrow> Some h | Inr _ \<Rightarrow> None)"

lemma stop_of_simps [simp]: "stop_of (Inl h) = Some h" "stop_of (Inr v) = None"
  by (simp_all add: stop_of_def)

text \<open>
  The contract of a handler and its machine: in a sound state an allowed event stops the handler exactly when it stops
  the machine, in the same way, and otherwise leads to a sound state that the machine sees as its own.
\<close>

locale ending_machine =
  fixes step :: "'e \<Rightarrow> 's \<Rightarrow> 's"
    and ok :: "'e \<Rightarrow> 's \<Rightarrow> bool"
    and sound :: "'s \<Rightarrow> bool"
    and halted :: "'s \<Rightarrow> halt option"
    and seen :: "'s \<Rightarrow> 'v"
    and machine :: "'e \<Rightarrow> 'v \<Rightarrow> halt + 'v"
  assumes ok_running: "ok e s \<Longrightarrow> halted s = None"
    and stops: "sound s \<Longrightarrow> ok e s \<Longrightarrow> halted (step e s) = stop_of (machine e (seen s))"
    and goes_on: "sound s \<Longrightarrow> ok e s \<Longrightarrow> machine e (seen s) = Inr v \<Longrightarrow> sound (step e s) \<and> seen (step e s) = v"
begin

lemma run_stops:
  "run_events step ok es s = Some s' \<Longrightarrow> sound s \<Longrightarrow> halted s = None \<Longrightarrow>
     halted s' = stop_of (machine_run machine es (seen s))"
proof (induction es arbitrary: s)
  case (Cons e es)
  from Cons.prems(1) have ok: "ok e s" and run: "run_events step ok es (step e s) = Some s'" by (simp_all split: if_splits)
  show ?case
  proof (cases "machine e (seen s)")
    case (Inl h)
    with stops [OF Cons.prems(2) ok] have "halted (step e s) = Some h" by simp
    moreover from this run have "s' = step e s" by (cases es) (auto split: if_splits dest: ok_running)
    ultimately show ?thesis by (simp add: Inl)
  next
    case (Inr v)
    with goes_on [OF Cons.prems(2) ok] stops [OF Cons.prems(2) ok] Cons.IH [OF run] show ?thesis by simp
  qed
qed simp

end

subsection \<open>What the handlers share\<close>

text \<open>A second of a time-out \<open>T\<close> with \<open>left\<close> seconds left: -1 waits for ever, any other negative one is an exception.\<close>

definition tick_life :: "int \<Rightarrow> int \<Rightarrow> cpp_exn + int option" where
  "tick_life T left =
     (if T = FOREVER then Inr (Some left)
      else if left = 0 then Inr None
      else if left < 0 then Inl (Timer_expired ''The timer timeout has expired'')
      else Inr (Some (left - 1)))"

definition timed :: "int \<Rightarrow> 'a common_handler_scheme \<Rightarrow> bool" where
  "timed T h = (t_timeout (h_timer h) = T \<and> t_name (h_timer h) = ''timeout'' \<and>
     INT_MIN < t_remaining (h_timer h) \<and> t_remaining (h_timer h) \<le> INT_MAX \<and> INT_MIN < T \<and> T \<le> INT_MAX)"

lemma timed_new: "INT_MIN < T \<Longrightarrow> T \<le> INT_MAX \<Longrightarrow> h_timer h = timer_new T ''timeout'' \<Longrightarrow> timed T h"
  by (simp add: timed_def timer_new_def)

lemma timed_same: "timed T h \<Longrightarrow> h_timer h' = h_timer h \<Longrightarrow> timed T h'"
  by (simp add: timed_def)

lemma timed_reset: "timed T h \<Longrightarrow> timed T (reset_timer h) \<and> t_remaining (h_timer (reset_timer h)) = T"
  by (simp add: timed_def reset_timer_def timer_reset_def)

lemma timer_life:
  assumes "timed T h"
  shows "case tick_life T (t_remaining (h_timer h)) of
      Inl e \<Rightarrow> \<not> is_expired (h_timer h) \<and> tick_timer h = crash e h
    | Inr None \<Rightarrow> is_expired (h_timer h)
    | Inr (Some n) \<Rightarrow> \<not> is_expired (h_timer h) \<and> (\<exists>t. tick_timer h = h\<lparr>h_timer := t\<rparr> \<and> t_remaining t = n \<and> timed T (h\<lparr>h_timer := t\<rparr>))"
proof -
  let ?r = "t_remaining (h_timer h)" and ?t = "(h_timer h)\<lparr>t_remaining := t_remaining (h_timer h) - 1\<rparr>"
  have r: "INT_MIN < ?r" "?r \<le> INT_MAX" "t_timeout (h_timer h) = T" "t_name (h_timer h) = ''timeout''"
    "INT_MIN < T" "T \<le> INT_MAX"
    using assms by (simp_all add: timed_def)
  then have w: "wrap32 (?r - 1) = ?r - 1" by (intro wrap32_id) (simp add: int32_def)
  consider (forever) "T = FOREVER" | (over) "T \<noteq> FOREVER" "?r = 0" | (bad) "T \<noteq> FOREVER" "?r < 0"
    | (more) "T \<noteq> FOREVER" "0 < ?r" by linarith
  then show ?thesis
  proof cases
    case forever
    then have "tick_timer h = h" using r(3) by (simp add: tick_timer_def timer_postdec_def)
    then show ?thesis using forever assms r(3)
      by (auto simp: tick_life_def is_expired_def intro!: exI [of _ "h_timer h"])
  next
    case over
    then show ?thesis using r(3) by (simp add: tick_life_def is_expired_def)
  next
    case bad
    then show ?thesis using r(3,4) w
      by (simp add: tick_life_def is_expired_def tick_timer_def timer_postdec_def timer_dec_def Let_def)
  next
    case more
    then have "tick_timer h = h\<lparr>h_timer := ?t\<rparr>" using r(3) w
      by (simp add: tick_timer_def timer_postdec_def timer_dec_def Let_def)
    moreover have "timed T (h\<lparr>h_timer := ?t\<rparr>)" using more r by (simp add: timed_def int_limits)
    ultimately show ?thesis using more r(3) by (auto simp: tick_life_def is_expired_def)
  qed
qed

text \<open>Whether a message can be printed in the format asked for.\<close>

definition print_failure :: "proton_lib \<Rightarrow> string \<Rightarrow> message \<Rightarrow> cpp_exn option" where
  "print_failure L mode m =
     (if mode = ''dict'' then (case dict_print_message L dict_ops m '''' of Inl e \<Rightarrow> Some e | Inr _ \<Rightarrow> None) else None)"

lemma print_life:
  shows "print_failure L (c_log_msgs h) m = Some e \<Longrightarrow> print_in_format L m h = crash e h"
    and "print_failure L (c_log_msgs h) m = None \<Longrightarrow> \<exists>es. print_in_format L m h = act es h"
proof -
  show "print_failure L (c_log_msgs h) m = Some e \<Longrightarrow> print_in_format L m h = crash e h"
    by (auto simp: print_failure_def print_in_format_def print_dict_def split: if_splits sum.splits)
  assume ok: "print_failure L (c_log_msgs h) m = None"
  consider "c_log_msgs h = ''dict''" | "c_log_msgs h = ''interop''" | "c_log_msgs h \<noteq> ''dict''" "c_log_msgs h \<noteq> ''interop''" by blast
  then show "\<exists>es. print_in_format L m h = act es h"
  proof cases
    case 3
    then have "print_in_format L m h = act [] h" by (simp add: print_in_format_def act_def)
    then show ?thesis by blast
  qed (use ok in \<open>auto simp: print_failure_def print_in_format_def print_dict_def print_interop_view_def
        split: sum.splits option.splits prod.splits\<close>)
qed

definition refused :: "string \<Rightarrow> string \<Rightarrow> bool" where
  "refused what word = sublist word what"

lemma find_refused: "find_opt what word 0 = None \<longleftrightarrow> \<not> refused what word"
  using find_at_None [of word what 0] by (simp add: find_opt_def refused_def)

subsection \<open>The sender\<close>

text \<open>What the machine of a sender is told, and what it keeps: the seconds left, the messages sent, whether it waits for credit.\<close>

record sender_terms =
  st_timeout :: int
  st_count :: int
  st_message :: message
  st_mode :: string
  st_no_reconnect :: bool

type_synonym sender_view = "int \<times> int \<times> bool"

definition send_life :: "proton_lib \<Rightarrow> sender_terms \<Rightarrow> int \<Rightarrow> halt + sender_view" where
  "send_life L p n =
     (case print_failure L (st_mode p) (number_message n (st_message p)) of
        Some e \<Rightarrow> Inl (Crashed e)
      | None \<Rightarrow> Inr (st_timeout p, n + 1, False))"

fun sender_life :: "proton_lib \<Rightarrow> sender_terms \<Rightarrow> sender_event \<Rightarrow> sender_view \<Rightarrow> halt + sender_view" where
  "sender_life L p S_timer (left, n, w) =
     (case tick_life (st_timeout p) left of
        Inl e \<Rightarrow> Inl (Crashed e)
      | Inr None \<Rightarrow> Inl (Exited 0)
      | Inr (Some left') \<Rightarrow> Inr (left', n, w))"
| "sender_life L p (S_check credit) (left, n, w) =
     (if n < st_count p then (if 0 < credit then send_life L p n else Inr (left, n, True)) else Inr (left, n, w))"
| "sender_life L p (S_sendable credit) (left, n, w) = (if w then send_life L p n else Inr (left, n, w))"
| "sender_life L p S_reject v = Inl (Exited 1)"
| "sender_life L p (S_transport_error what) v = (if refused what ''unauthorized'' then Inl (Exited 1) else Inr v)"
| "sender_life L p (S_connection_error what) v = (if refused what ''Unable to validate user'' then Inl (Exited 1) else Inr v)"
| "sender_life L p S_transport_close v = (if st_no_reconnect p then Inl (Exited 1) else Inr v)"
| "sender_life L p e v = Inr v"

definition sender_seen :: "sender_handler \<Rightarrow> sender_view" where
  "sender_seen s = (t_remaining (h_timer s), sh_sent s, sh_ready s)"

definition sender_sound :: "sender_terms \<Rightarrow> sender_handler \<Rightarrow> bool" where
  "sender_sound p s =
     (sender_inv (st_count p) (st_message p) s \<and> timed (st_timeout p) s \<and> c_log_msgs s = st_mode p \<and>
      (c_reconnect s = ''false'' \<longleftrightarrow> st_no_reconnect p))"

text \<open>What no statement changes.\<close>

definition settled :: "'a common_handler_scheme \<Rightarrow> 'a common_handler_scheme \<Rightarrow> bool" where
  "settled h h' = (h_timer h' = h_timer h \<and> c_log_msgs h' = c_log_msgs h \<and> c_reconnect h' = c_reconnect h)"

lemma settled_trans: "settled h h' \<Longrightarrow> settled h' h'' \<Longrightarrow> settled h h''"
  by (simp add: settled_def)

lemma settled_statements [simp]:
  "settled h (act es h') = settled h h'" "settled h (schedule d w h') = settled h h'" "settled h (add_work w h') = settled h h'"
  "settled h (take_work w h') = settled h h'" "settled h (exit_with n h') = settled h h'" "settled h (crash e h') = settled h h'"
  by (simp_all add: settled_def statement_defs)

lemma settings_statements [simp]:
  "c_log_msgs (act es h) = c_log_msgs h" "c_reconnect (act es h) = c_reconnect h"
  "c_log_msgs (schedule d w h) = c_log_msgs h" "c_reconnect (schedule d w h) = c_reconnect h"
  "c_log_msgs (take_work w h) = c_log_msgs h" "c_reconnect (take_work w h) = c_reconnect h"
  "c_log_msgs (add_work w h) = c_log_msgs h" "c_reconnect (add_work w h) = c_reconnect h"
  "c_log_msgs (reset_timer h) = c_log_msgs h" "c_reconnect (reset_timer h) = c_reconnect h"
  by (simp_all add: statement_defs)

lemma settled_refl [simp]: "settled h h"
  by (simp add: settled_def)

lemma sender_send_life:
  fixes L :: proton_lib and credit :: int
  assumes "h_halt s = None" and "timed (st_timeout p) s" and "c_log_msgs s = st_mode p" and "sh_message s = st_message p"
    and "int32 (sh_sent s + 1)"
  defines "t \<equiv> sender_send L credit s"
  shows "h_halt t = stop_of (send_life L p (sh_sent s))"
    "send_life L p (sh_sent s) = Inr v \<Longrightarrow> sender_seen t = v \<and> timed (st_timeout p) t \<and> c_log_msgs t = c_log_msgs s \<and>
       c_reconnect t = c_reconnect s"
proof -
  let ?m = "number_message (sh_sent s) (sh_message s)"
  let ?a = "act [Send (u_path (h_broker_url s)) ?m] (act (send_head credit s) s)"
  have a: "h_halt ?a = None" "c_log_msgs ?a = st_mode p" "sh_sent ?a = sh_sent s" "settled s ?a" "h_timer ?a = h_timer s"
    using assms(1,3) by simp_all
  have eq: "t = block [print_in_format L ?m, (\<lambda>s. s\<lparr>sh_sent := wrap32 (sh_sent s + 1)\<rparr>), reset_timer,
      (\<lambda>s. s\<lparr>sh_ready := False\<rparr>)] ?a"
    by (simp add: t_def sender_send_def Let_def assms(1))
  have w: "wrap32 (sh_sent s + 1) = sh_sent s + 1" using assms(5) by (rule wrap32_id)
  have both: "h_halt t = stop_of (send_life L p (sh_sent s)) \<and>
    (case send_life L p (sh_sent s) of Inl h \<Rightarrow> True | Inr v \<Rightarrow> sender_seen t = v \<and> timed (st_timeout p) t \<and>
       c_log_msgs t = c_log_msgs s \<and> c_reconnect t = c_reconnect s)"
  proof (cases "print_failure L (c_log_msgs ?a) ?m")
    case (Some e)
    from print_life(1) [OF this] Some a(1,2) assms(4) show ?thesis by (simp add: eq send_life_def)
  next
    case None
    from print_life(2) [OF this] obtain es where "print_in_format L ?m ?a = act es ?a" by blast
    then have t: "t = (reset_timer ((act es ?a)\<lparr>sh_sent := sh_sent s + 1\<rparr>))\<lparr>sh_ready := False\<rparr>"
      using a(1,3) by (simp add: eq w)
    have "timed (st_timeout p) ((act es ?a)\<lparr>sh_sent := sh_sent s + 1\<rparr>)"
      using assms(2) by (rule timed_same) (simp add: a(5))
    from timed_reset [OF this] None a(1,2,4) assms(4) show ?thesis
      by (simp add: t send_life_def sender_seen_def settled_def reset_timer_def timed_def)
  qed
  then show "h_halt t = stop_of (send_life L p (sh_sent s))"
    "send_life L p (sh_sent s) = Inr v \<Longrightarrow> sender_seen t = v \<and> timed (st_timeout p) t \<and> c_log_msgs t = c_log_msgs s \<and>
       c_reconnect t = c_reconnect s" by auto
qed

lemma sender_seen_statements [simp]:
  "sender_seen (act es s) = sender_seen s" "sender_seen (schedule d w s) = sender_seen s"
  "sender_seen (take_work w s) = sender_seen s"
  by (simp_all add: sender_seen_def statement_defs)

lemma timed_statements [simp]:
  "timed T (act es h) = timed T h" "timed T (schedule d w h) = timed T h" "timed T (take_work w h) = timed T h"
  "timed T (add_work w h) = timed T h"
  by (simp_all add: timed_def statement_defs)

text \<open>What of a sound state is not the sender's invariant.\<close>

definition sender_fits :: "sender_terms \<Rightarrow> sender_handler \<Rightarrow> bool" where
  "sender_fits p s = (timed (st_timeout p) s \<and> c_log_msgs s = st_mode p \<and> (c_reconnect s = ''false'' \<longleftrightarrow> st_no_reconnect p))"

lemma sender_fits_statements [simp]:
  "sender_fits p (act es s) = sender_fits p s" "sender_fits p (schedule d w s) = sender_fits p s"
  "sender_fits p (take_work w s) = sender_fits p s"
  by (simp_all add: sender_fits_def)

definition sender_matches :: "sender_terms \<Rightarrow> halt + sender_view \<Rightarrow> sender_handler \<Rightarrow> bool" where
  "sender_matches p r t = (h_halt t = stop_of r \<and> (case r of Inl h \<Rightarrow> True | Inr v \<Rightarrow> sender_fits p t \<and> sender_seen t = v))"

lemma sender_matches_simps [simp]:
  "sender_matches p (Inl h) t \<longleftrightarrow> h_halt t = Some h"
  "sender_matches p (Inr v) t \<longleftrightarrow> h_halt t = None \<and> sender_fits p t \<and> sender_seen t = v"
  by (simp_all add: sender_matches_def)

lemma sender_send_matches:
  assumes "h_halt s = None" and "sender_fits p s" and "sh_message s = st_message p" and "int32 (sh_sent s + 1)"
  shows "sender_matches p (send_life L p (sh_sent s)) (sender_send L credit s)"
proof -
  have fit: "timed (st_timeout p) s" "c_log_msgs s = st_mode p" using assms(2) by (simp_all add: sender_fits_def)
  from sender_send_life [OF assms(1) fit assms(3,4), where L = L and credit = credit] assms(2) show ?thesis
    by (cases "send_life L p (sh_sent s)") (auto simp: sender_fits_def)
qed

lemma sender_timer_matches:
  assumes "h_halt s = None" and "sender_fits p s" and "sender_seen s = (left, n, w)"
  shows "sender_matches p (sender_life L p S_timer (left, n, w)) (sender_timerEvent s)"
proof -
  have t: "timed (st_timeout p) s" "t_remaining (h_timer s) = left" "sh_sent s = n" "sh_ready s = w"
    using assms(2,3) by (simp_all add: sender_fits_def sender_seen_def)
  note life = timer_life [OF t(1), unfolded t(2)]
  show ?thesis
  proof (cases "tick_life (st_timeout p) left")
    case (Inl e)
    with life assms(1) show ?thesis by (simp add: sender_timerEvent_def)
  next
    case (Inr r)
    then show ?thesis
      using life assms t by (cases r) (auto simp: sender_timerEvent_def sender_fits_def sender_seen_def)
  qed
qed

lemma sender_start_settled:
  assumes "h_halt s = None"
  shows "settled s (sender_start s)"
proof -
  obtain es co where f: "finish_conn_opts s (basic_conn_opts s) = (es, co)" by (cases "finish_conn_opts s (basic_conn_opts s)")
  have parts: "settled s t \<Longrightarrow> settled s (sender_set_interval t)" "settled s t \<Longrightarrow> settled s (sender_first_check t)"
    "settled s t \<Longrightarrow> settled s (t\<lparr>h_work_q := True\<rparr>)" for t
    by (simp_all add: sender_set_interval_def sender_first_check_def Let_def) (simp_all add: settled_def)
  show ?thesis using assms by (simp add: sender_start_def f Let_def parts)
qed

lemma sender_step_matches:
  assumes inv: "sender_inv (st_count p) (st_message p) s" and fit: "sender_fits p s" and ok: "sender_ok e s"
  shows "sender_matches p (sender_life L p e (sender_seen s)) (sender_step L e s)"
proof -
  have h: "h_halt s = None" "h_halt (take_work w s) = None" for w using ok by (simp_all add: sender_ok_def)
  obtain left n w where v: "sender_seen s = (left, n, w)" by (cases "sender_seen s")
  then have n: "sh_sent s = n" "sh_ready s = w" by (simp_all add: sender_seen_def)
  have prog: "sh_message s = st_message p" "sh_count s = st_count p" "w \<Longrightarrow> n < st_count p"
    "n < st_count p \<Longrightarrow> int32 (n + 1)"
    using inv n by (auto simp: sender_inv_def sender_progress_def int32_def int_limits)
  have cfg: "c_reconnect s = ''false'' \<longleftrightarrow> st_no_reconnect p" using fit by (simp add: sender_fits_def)
  show ?thesis
  proof (cases e)
    case S_start
    note st = sender_start_settled [OF h(1)] sender_start_state [OF h(1)]
    then show ?thesis using fit v n S_start by (auto simp: sender_fits_def sender_seen_def settled_def timed_def)
  next
    case S_timer
    with sender_timer_matches [OF h(2), of p Timer_event left n w L] fit v show ?thesis by simp
  next
    case (S_check credit)
    let ?t = "schedule (sh_interval s) Check_if_can_send (take_work Check_if_can_send s)"
    have t: "sh_sent ?t = n" "sh_message ?t = st_message p" "sh_count (take_work Check_if_can_send s) = st_count p"
      "sh_sent (take_work Check_if_can_send s) = n" "sh_interval (take_work Check_if_can_send s) = sh_interval s"
      using n prog by (simp_all add: take_work_def)
    have "sender_matches p (send_life L p n) (sender_send L credit ?t)" if "n < st_count p"
      using sender_send_matches [of ?t p L credit] h fit t prog(4) [OF that] by simp
    moreover have "sender_fits p (?t\<lparr>sh_ready := True\<rparr>)" "sender_seen (?t\<lparr>sh_ready := True\<rparr>) = (left, n, True)"
      using fit v by (simp_all add: sender_fits_def timed_def sender_seen_def) (simp_all add: statement_defs)
    ultimately show ?thesis using h fit v t S_check by (simp add: sender_checkIfCanSend_def)
  next
    case (S_sendable credit)
    with sender_send_matches [OF h(1) fit prog(1), of L credit] prog(3,4) h fit v n show ?thesis
      by (cases w) (simp_all add: sender_sendable_def)
  next
    case S_accept
    then show ?thesis using h fit v
      by (simp add: sender_accept_def guard_def) (simp add: sender_fits_def timed_def sender_seen_def statement_defs)
  qed (use h fit v cfg in \<open>simp_all add: sender_reject_def sender_transport_error_def transport_error_def
      sender_transport_close_def sender_connection_error_def connection_error_def sender_connection_close_def
      find_refused guard_def\<close>)
qed

interpretation sender_ending: ending_machine "sender_step L" sender_ok "sender_sound p" h_halt sender_seen "sender_life L p" for L p
proof unfold_locales
  show "sender_ok e s \<Longrightarrow> h_halt s = None" for e s by (simp add: sender_ok_def)
  fix e s v
  assume "sender_sound p s" and ok: "sender_ok e s"
  then have s: "sender_inv (st_count p) (st_message p) s" "sender_fits p s"
    by (simp_all add: sender_sound_def sender_fits_def)
  note m = sender_step_matches [OF s ok, of L, unfolded sender_matches_def]
  then show "h_halt (sender_step L e s) = stop_of (sender_life L p e (sender_seen s))" by blast
  show "sender_life L p e (sender_seen s) = Inr v \<Longrightarrow> sender_sound p (sender_step L e s) \<and> sender_seen (sender_step L e s) = v"
    using m sender_inv_step [OF s(1) ok] by (simp add: sender_sound_def sender_fits_def)
qed

subsection \<open>The receiver\<close>

text \<open>
  What the machine of a receiver is told, and what it keeps: the seconds left and the messages received. A receiver that
  listens and does not browse opens no receiver of its own.
\<close>

record receiver_terms =
  rt_timeout :: int
  rt_set :: receiver_settings
  rt_topic :: bool
  rt_mode :: string
  rt_no_reconnect :: bool

type_synonym receiver_left = "int \<times> int"

definition unopened :: "receiver_settings \<Rightarrow> bool" where
  "unopened r = (r_recv_listen r = ''true'' \<and> \<not> r_browse r)"

definition unsubscribes :: "receiver_terms \<Rightarrow> bool" where
  "unsubscribes p = (r_subscriber_unsubscribe (rt_set p) \<and> (rt_topic p \<or> r_durable_subscriber_name (rt_set p) \<noteq> ''''))"

text \<open>Why a message ends the program, if it does.\<close>

definition message_failure :: "proton_lib \<Rightarrow> receiver_terms \<Rightarrow> message \<Rightarrow> cpp_exn option" where
  "message_failure L p m =
     (case print_failure L (rt_mode p) m of
        Some e \<Rightarrow> Some e
      | None \<Rightarrow> if r_msg_action_size (rt_set p) = 0 \<or> answers (rt_set p) m \<and> unopened (rt_set p) then Some Bad_access else None)"

fun receiver_life :: "proton_lib \<Rightarrow> receiver_terms \<Rightarrow> receiver_event \<Rightarrow> receiver_left \<Rightarrow> halt + receiver_left" where
  "receiver_life L p (R_start now client_uuid) v =
     (if unsubscribes p \<and> unopened (rt_set p) then Inl (Crashed Bad_access) else Inr v)"
| "receiver_life L p R_timer (left, k) =
     (case tick_life (rt_timeout p) left of
        Inl e \<Rightarrow> Inl (Crashed e)
      | Inr None \<Rightarrow> Inl (Exited 0)
      | Inr (Some left') \<Rightarrow> Inr (left', k))"
| "receiver_life L p (R_message m) (left, k) =
     (case message_failure L p m of
        Some e \<Rightarrow> Inl (Crashed e)
      | None \<Rightarrow> Inr (if \<not> r_process_reply_to (rt_set p) \<and> k + 1 = r_count (rt_set p) then left else rt_timeout p, k + 1))"
| "receiver_life L p R_drain v = (if unopened (rt_set p) then Inl (Crashed Bad_access) else Inr v)"
| "receiver_life L p (R_transport_error what) v = (if refused what ''unauthorized'' then Inl (Exited 1) else Inr v)"
| "receiver_life L p (R_connection_error what) v = (if refused what ''Unable to validate user'' then Inl (Exited 1) else Inr v)"
| "receiver_life L p R_transport_close (left, k) =
     (if rt_no_reconnect p then Inl (Exited 1) else if k = r_count (rt_set p) then Inl (Exited 0) else Inr (left, k))"
| "receiver_life L p e v = Inr v"

subsection \<open>What the parts of a message's handling may throw\<close>

definition steady :: "receiver_handler \<Rightarrow> receiver_handler \<Rightarrow> bool" where
  "steady s t = (same_receiver s t \<and> settled s t \<and> (rh_senders t = rh_senders s \<or> rh_recv s))"

definition throws :: "cpp_exn option \<Rightarrow> (receiver_handler \<Rightarrow> receiver_handler) \<Rightarrow> receiver_handler \<Rightarrow> bool" where
  "throws r f s = (h_halt (f s) = map_option Crashed r \<and> (r = None \<longrightarrow> steady s (f s)))"

lemma steady_refl [simp]: "steady s s"
  by (simp add: steady_def)

lemma steady_trans: "steady s t \<Longrightarrow> steady t u \<Longrightarrow> steady s u"
  by (auto simp: steady_def same_receiver_def settled_def)

lemma steady_statements [simp]:
  "steady s (act es t) = steady s t" "steady s (add_work w t) = steady s t" "steady s (schedule d w t) = steady s t"
  by (simp_all add: steady_def)

lemma throws_Nil: "h_halt s = None \<Longrightarrow> throws None (block []) s"
  by (simp add: throws_def)

lemma throws_Cons:
  assumes "h_halt s = None" and "throws r f s"
    and "r = None \<Longrightarrow> h_halt (f s) = None \<Longrightarrow> steady s (f s) \<Longrightarrow> throws r' (block fs) (f s)"
  shows "throws (case r of None \<Rightarrow> r' | Some e \<Rightarrow> Some e) (block (f # fs)) s"
proof (cases r)
  case None
  then have "h_halt (f s) = None" "steady s (f s)" using assms(2) by (simp_all add: throws_def)
  with assms(1) assms(3) [OF None] None show ?thesis by (auto simp: throws_def intro: steady_trans)
next
  case (Some e)
  then show ?thesis using assms(1,2) block_halted [of "f s" fs] by (simp add: throws_def)
qed

lemma throws_Cons_fine:
  assumes "h_halt s = None" and "throws None f s"
    and "h_halt (f s) = None \<Longrightarrow> steady s (f s) \<Longrightarrow> throws r (block fs) (f s)"
  shows "throws r (block (f # fs)) s"
  using throws_Cons [OF assms(1,2), of r fs] assms(3) by simp

lemma throws_parts:
  assumes "h_halt s = None"
  shows "throws None (act es) s" "throws (print_failure L (c_log_msgs s) m) (print_received L m) s"
    "throws None (wait_for mode notes) s" "throws None schedule_drain s"
    "throws (if r_msg_action_size (rh_set s) = 0 then Some Bad_access else None) act_on_batch s"
proof -
  show "throws None (act es) s" "throws None (wait_for mode notes) s" "throws None schedule_drain s"
    using assms by (simp_all add: throws_def wait_for_def schedule_drain_def guard_def)
  show "throws (if r_msg_action_size (rh_set s) = 0 then Some Bad_access else None) act_on_batch s"
    using assms by (simp add: throws_def act_on_batch_def do_message_action_def guard_def Let_def)
  let ?g = "guard (c_log_msgs s = ''dict'') (act [Log Log_trace [LStr ''Decoding message'']]) s"
  have g: "h_halt ?g = None" "c_log_msgs ?g = c_log_msgs s" "steady s ?g" using assms by (simp_all add: guard_def)
  show "throws (print_failure L (c_log_msgs s) m) (print_received L m) s"
  proof (cases "print_failure L (c_log_msgs s) m")
    case None
    with print_life(2) [of L ?g m] g assms show ?thesis by (auto simp: throws_def print_received_def)
  next
    case (Some e)
    with print_life(1) [of L ?g m e] g assms show ?thesis by (simp add: throws_def print_received_def)
  qed
qed

lemma throws_answer:
  assumes "h_halt s = None" and "\<not> rh_recv s \<Longrightarrow> rh_senders s = []"
  shows "throws (if answers (rh_set s) m \<and> \<not> rh_recv s then Some Bad_access else None) (answer m) s"
proof (cases "answers (rh_set s) m")
  case False
  then show ?thesis using assms(1) by (auto simp: answers_def answer_def throws_def guard_def)
next
  case True
  let ?a = "m_reply_to m"
  let ?g1 = "act [dbg [LStr ''Process-reply-to: '', LBool (r_process_reply_to (rh_set s))]]"
  let ?g2 = "act [dbg [LStr ''Reply-to address: '', LStr ?a]]"
  define t where "t = act [dbg [LStr ''Processing reply-to'']] (?g2 (?g1 s))"
  have t: "h_halt t = None" "rh_senders t = rh_senders s" "steady s t" "rh_recv t = rh_recv s"
    using assms(1) by (simp_all add: t_def)
  have eq: "answer m s = block [find_sender ?a,
      (\<lambda>s. act [dbg [LStr ''Sending reply to '', LStr (m_to (reply_message m))],
           Send (the (smap_get (rh_senders s) ?a)) (reply_message m)] s)] t"
    using True assms(1) by (simp add: t_def answer_def answers_def do_process_reply_to_def Let_def)
  show ?thesis
  proof (cases "rh_recv s")
    case True
    then have "h_halt (find_sender ?a t) = None" "steady t (find_sender ?a t)"
      using t by (simp_all add: find_sender_def) (simp_all add: steady_def same_receiver_def settled_def act_def)
    then show ?thesis using True t(1,3) eq by (auto simp: throws_def intro: steady_trans)
  next
    case False
    with assms(2) t(2) have "smap_get (rh_senders t) ?a = None" by (simp add: smap_get_def)
    then have "h_halt (find_sender ?a t) = Some (Crashed Bad_access)" using t(1,4) False by (simp add: find_sender_def)
    then show ?thesis using False True t(1) by (simp add: throws_def eq)
  qed
qed

lemma throws_message:
  fixes L :: proton_lib
  assumes "h_halt s = None" and "\<not> rh_recv s \<Longrightarrow> rh_senders s = []" and "rh_set s = rt_set p"
    and "c_log_msgs s = rt_mode p" and "rh_recv s \<longleftrightarrow> \<not> unopened (rt_set p)"
  shows "throws (message_failure L p m) (block [act [dbg [LStr ''Processing received message'']], print_received L m,
      wait_for ''after-receive'' [[LStr ''Waiting...'']], act_on_batch, wait_for ''after-receive-action'' [], answer m,
      schedule_drain]) s"
proof -
  have same: "rh_set u = rt_set p" "c_log_msgs u = rt_mode p" "rh_recv u \<longleftrightarrow> \<not> unopened (rt_set p)"
      "\<not> rh_recv u \<Longrightarrow> rh_senders u = []" if "steady s u" for u
    using that assms by (auto simp: steady_def same_receiver_def settled_def)
  let ?e1 = "print_failure L (rt_mode p) m"
    and ?e2 = "if r_msg_action_size (rt_set p) = 0 then Some Bad_access else None"
    and ?e3 = "if answers (rt_set p) m \<and> unopened (rt_set p) then Some Bad_access else None"
  have eq: "message_failure L p m =
      (case ?e1 of None \<Rightarrow> (case ?e2 of None \<Rightarrow> (case ?e3 of None \<Rightarrow> None | Some e \<Rightarrow> Some e) | Some e \<Rightarrow> Some e) | Some e \<Rightarrow> Some e)"
    by (simp add: message_failure_def split: option.split)
  have last: "throws None (block [schedule_drain]) u" if "h_halt u = None" for u
    using throws_Cons_fine [OF that throws_parts(4) [OF that] throws_Nil] by blast
  have reply: "throws (case ?e3 of None \<Rightarrow> None | Some e \<Rightarrow> Some e) (block [answer m, schedule_drain]) u"
    if "h_halt u = None" "steady s u" for u
    using throws_Cons [OF that(1) throws_answer [OF that(1) same(4)] last, of m] same(1,3) [OF that(2)] that(2) by simp
  have wait: "throws (case ?e3 of None \<Rightarrow> None | Some e \<Rightarrow> Some e)
      (block [wait_for ''after-receive-action'' [], answer m, schedule_drain]) u"
    if "h_halt u = None" "steady s u" for u
    using throws_Cons_fine [OF that(1) throws_parts(3) [OF that(1)] reply] steady_trans [OF that(2)] by blast
  have batch: "throws (case ?e2 of None \<Rightarrow> (case ?e3 of None \<Rightarrow> None | Some e \<Rightarrow> Some e) | Some e \<Rightarrow> Some e)
      (block [act_on_batch, wait_for ''after-receive-action'' [], answer m, schedule_drain]) u"
    if "h_halt u = None" "steady s u" for u
    using throws_Cons [OF that(1) throws_parts(5) [OF that(1)] wait] steady_trans [OF that(2)] same(1) [OF that(2)] by simp
  have first: "throws (case ?e2 of None \<Rightarrow> (case ?e3 of None \<Rightarrow> None | Some e \<Rightarrow> Some e) | Some e \<Rightarrow> Some e)
      (block [wait_for ''after-receive'' [[LStr ''Waiting...'']], act_on_batch, wait_for ''after-receive-action'' [], answer m,
        schedule_drain]) u"
    if "h_halt u = None" "steady s u" for u
    using throws_Cons_fine [OF that(1) throws_parts(3) [OF that(1)] batch] steady_trans [OF that(2)] by blast
  have print: "throws (message_failure L p m)
      (block [print_received L m, wait_for ''after-receive'' [[LStr ''Waiting...'']], act_on_batch,
        wait_for ''after-receive-action'' [], answer m, schedule_drain]) u"
    if "h_halt u = None" "steady s u" for u
    unfolding eq
    using throws_Cons [OF that(1) throws_parts(2) [OF that(1), of L m] first] steady_trans [OF that(2)] same(2) [OF that(2)]
    by (simp del: block.simps)
  show ?thesis
    by (rule throws_Cons_fine [OF assms(1) throws_parts(1) [OF assms(1)] print])
qed

definition receiver_seen :: "receiver_handler \<Rightarrow> receiver_left" where
  "receiver_seen s = (t_remaining (h_timer s), rh_msg_received_cnt s)"

definition receiver_sound :: "receiver_terms \<Rightarrow> receiver_handler \<Rightarrow> bool" where
  "receiver_sound p s =
     (receiver_shape (rt_set p) (rt_topic p) s \<and> timed (rt_timeout p) s \<and> c_log_msgs s = rt_mode p \<and>
      (c_reconnect s = ''false'' \<longleftrightarrow> rt_no_reconnect p) \<and> (\<not> rh_recv s \<longrightarrow> rh_senders s = []) \<and>
      (h_work_q s \<or> h_cont s \<longrightarrow> (rh_recv s \<longleftrightarrow> \<not> unopened (rt_set p))) \<and>
      (\<not> (h_work_q s \<or> h_cont s) \<longrightarrow> h_pending s = [] \<and> \<not> rh_recv s))"

definition receiver_matches :: "receiver_terms \<Rightarrow> halt + receiver_left \<Rightarrow> receiver_handler \<Rightarrow> bool" where
  "receiver_matches p r t =
     (h_halt t = stop_of r \<and> (case r of Inl h \<Rightarrow> True | Inr v \<Rightarrow> receiver_sound p t \<and> receiver_seen t = v))"

lemma receiver_matches_simps [simp]:
  "receiver_matches p (Inl h) t \<longleftrightarrow> h_halt t = Some h"
  "receiver_matches p (Inr v) t \<longleftrightarrow> h_halt t = None \<and> receiver_sound p t \<and> receiver_seen t = v"
  by (simp_all add: receiver_matches_def)

text \<open>A step that keeps what the machine does not see keeps the soundness of a started receiver.\<close>

lemma steady_sound:
  assumes "receiver_sound p s" and "h_work_q s \<or> h_cont s" and "steady s u"
    and "t = u \<or> t = reset_timer u"
    and "receiver_shape (rt_set p) (rt_topic p) t"
  shows "receiver_sound p t"
proof -
  have "timed (rt_timeout p) u"
    using assms(1,3) by (auto simp: receiver_sound_def steady_def settled_def timed_def)
  then have "timed (rt_timeout p) t" using assms(4) timed_reset by blast
  moreover have "rh_recv t = rh_recv u" "rh_senders t = rh_senders u" "h_work_q t = h_work_q u" "h_cont t = h_cont u"
    "c_log_msgs t = c_log_msgs u" "c_reconnect t = c_reconnect u"
    using assms(4) by (elim disjE; simp add: reset_timer_def)+
  moreover have "rh_recv u = rh_recv s" "rh_senders u = rh_senders s \<or> rh_recv s" "h_work_q u = h_work_q s" "h_cont u = h_cont s"
    "c_log_msgs u = c_log_msgs s" "c_reconnect u = c_reconnect s"
    using assms(3) by (simp_all add: steady_def settled_def same_receiver_def)
  moreover have "c_log_msgs s = rt_mode p" "c_reconnect s = ''false'' \<longleftrightarrow> rt_no_reconnect p" "\<not> rh_recv s \<Longrightarrow> rh_senders s = []"
    "rh_recv s \<longleftrightarrow> \<not> unopened (rt_set p)"
    using assms(1,2) unfolding receiver_sound_def by blast+
  ultimately show ?thesis using assms(2,5) unfolding receiver_sound_def by metis
qed

lemma steady_seen: "steady s t \<Longrightarrow> receiver_seen t = receiver_seen s"
  by (simp add: steady_def same_receiver_def settled_def receiver_seen_def)

lemma receiver_start_settled:
  fixes s :: receiver_handler
  assumes "h_halt s = None"
  shows "settled s (receiver_start now client_uuid s)"
proof -
  obtain es co where f: "finish_conn_opts s (basic_conn_opts s) = (es, co)" by (cases "finish_conn_opts s (basic_conn_opts s)")
  have upd: "settled s (u\<lparr>h_cont := True\<rparr>) = settled s u" "settled s (u\<lparr>rh_ts := x\<rparr>) = settled s u"
    "settled s (u\<lparr>rh_durable_subscriber_name := n\<rparr>) = settled s u" "settled s (u\<lparr>rh_recv := True, h_work_q := True\<rparr>) = settled s u"
    for u :: receiver_handler and x n
    by (simp_all add: settled_def)
  have step: "settled s (receiver_topic c u)" "settled s (receiver_connect caps co u)" "settled s (receiver_run now u)"
    if "settled s u" for u c caps co
    using that by (simp_all add: receiver_topic_def createSubscriptionName_def receiver_connect_def receiver_open_def
        receiver_listen_def receiver_run_def guard_def upd Let_def)
  have "settled s u \<Longrightarrow> list_all (\<lambda>f. \<forall>u. settled s u \<longrightarrow> settled s (f u)) fs \<Longrightarrow> settled s (block fs u)" for fs u
    by (induction fs arbitrary: u) auto
  then show ?thesis unfolding receiver_start_def f Let_def prod.case by (simp add: step upd del: block.simps)
qed

lemma receiver_message_matches:
  assumes sound: "receiver_sound p s" and ok: "receiver_ok (R_message m) s"
  shows "receiver_matches p (receiver_life L p (R_message m) (receiver_seen s)) (receiver_message L m s)"
proof -
  let ?k = "rh_msg_received_cnt s + 1" and ?t = "receiver_message L m s"
  define s1 where "s1 = s\<lparr>rh_msg_received_cnt := ?k\<rparr>"
  define fs where "fs = [act [dbg [LStr ''Processing received message'']], print_received L m,
      wait_for ''after-receive'' [[LStr ''Waiting...'']], act_on_batch, wait_for ''after-receive-action'' [], answer m,
      schedule_drain]"
  define u where "u = block fs s1"
  have shape: "receiver_shape (rt_set p) (rt_topic p) s" using sound by (simp add: receiver_sound_def)
  have started: "h_work_q s1 \<or> h_cont s1" using ok by (simp add: receiver_ok_def s1_def)
  have s1: "h_halt s1 = None" "\<not> rh_recv s1 \<Longrightarrow> rh_senders s1 = []" "rh_set s1 = rt_set p" "c_log_msgs s1 = rt_mode p"
    "rh_recv s1 \<longleftrightarrow> \<not> unopened (rt_set p)"
    using sound ok by (auto simp: s1_def receiver_sound_def receiver_ok_def receiver_shape_def)
  have w: "wrap32 ?k = ?k" using shape ok by (intro wrap32_id) (simp add: receiver_shape_def receiver_ok_def int32_def int_limits)
  have "h_halt s = None" using ok by (simp add: receiver_ok_def)
  then have "?t = block (fs @ [finish_or_reset]) s1" by (simp add: receiver_message_def fs_def w s1_def)
  then have eq: "?t = (if h_halt u = None then finish_or_reset u else u)" by (simp add: block_append u_def)
  have th: "h_halt u = map_option Crashed (message_failure L p m)" "message_failure L p m = None \<Longrightarrow> steady s1 u"
    using throws_message [OF s1, of L m, folded fs_def] by (simp_all add: throws_def u_def del: block.simps)
  obtain left where v: "receiver_seen s = (left, rh_msg_received_cnt s)" by (simp add: receiver_seen_def)
  show ?thesis
  proof (cases "message_failure L p m")
    case (Some e)
    then show ?thesis using th(1) by (simp add: eq v)
  next
    case None
    note st = th(2) [OF None]
    have u: "h_halt u = None" "rh_set u = rt_set p" "rh_msg_received_cnt u = ?k"
      using th(1) None st s1(3) by (simp_all add: steady_def same_receiver_def) (simp add: s1_def)
    have halt: "h_halt ?t = None" using u(1) by (simp add: eq finish_or_reset_def)
    have shape': "receiver_shape (rt_set p) (rt_topic p) ?t"
      using receiver_message_follows [OF shape ok, of L] halt by (simp add: follows_def)
    have sound1: "receiver_sound p s1"
      using sound shape by (simp add: s1_def receiver_sound_def receiver_shape_def timed_def)
    show ?thesis
    proof (cases "\<not> r_process_reply_to (rt_set p) \<and> ?k = r_count (rt_set p)")
      case True
      then obtain es where t: "?t = act es u" using u by (simp add: eq finish_or_reset_def)
      have "steady s1 ?t" using st by (simp add: t)
      with steady_sound [OF sound1 started this _ shape'] steady_seen [OF this] halt True None v show ?thesis
        by (auto simp: receiver_seen_def s1_def)
    next
      case False
      then have t: "?t = reset_timer u" using u by (auto simp: eq finish_or_reset_def)
      have "timed (rt_timeout p) u" using sound1 st by (simp add: receiver_sound_def steady_def settled_def timed_def)
      then have "receiver_seen ?t = (rt_timeout p, ?k)"
        using timed_reset [of "rt_timeout p" u] u(3) by (simp add: t receiver_seen_def reset_timer_def)
      with steady_sound [OF sound1 started st _ shape'] t halt False None v show ?thesis by auto
    qed
  qed
qed

lemma receiver_act_kept [simp]: "receiver_sound p (act es s) = receiver_sound p s" "receiver_seen (act es s) = receiver_seen s"
  "rh_msg_received_cnt (act es s) = rh_msg_received_cnt s" "rh_set (act es s) = rh_set s"
  by (simp_all add: receiver_sound_def receiver_seen_def) (simp_all add: act_def)

lemma receiver_start_matches:
  assumes sound: "receiver_sound p s" and ok: "receiver_ok (R_start now client_uuid) s"
  shows "receiver_matches p (receiver_life L p (R_start now client_uuid) (receiver_seen s)) (receiver_start now client_uuid s)"
proof -
  let ?t = "receiver_start now client_uuid s"
  have h: "h_halt s = None" "\<not> (h_work_q s \<or> h_cont s)" using ok by (simp_all add: receiver_ok_def)
  have s: "receiver_shape (rt_set p) (rt_topic p) s" "\<not> rh_recv s" "rh_senders s = []" "timed (rt_timeout p) s"
    "c_log_msgs s = rt_mode p" "c_reconnect s = ''false'' \<longleftrightarrow> rt_no_reconnect p"
    using sound h(2) by (simp_all add: receiver_sound_def)
  obtain u where u: "?t = receiver_run now u" "prepared s u" "h_work_q u \<or> h_cont u"
    "rh_durable_subscriber_name u \<noteq> '''' \<longleftrightarrow> rh_durable_subscriber_name s \<noteq> '''' \<or> c_is_topic s \<and> subscribing s"
    "rh_recv u \<longleftrightarrow> rh_recv s \<or> r_browse (rh_set s) \<or> \<not> listening s"
    using receiver_start_prepared [OF h(1)] .
  have recv: "rh_recv u \<longleftrightarrow> \<not> unopened (rt_set p)"
    using u(5) s(1,2) by (auto simp: unopened_def listening_def receiver_shape_def)
  have un: "r_subscriber_unsubscribe (rh_set u) \<and> rh_durable_subscriber_name u \<noteq> '''' \<longleftrightarrow> unsubscribes p"
    using u(2,4) s(1) h(2) by (auto simp: unsubscribes_def prepared_def receiver_shape_def subscribing_def)
  have hu: "h_halt u = None" using u(2) by (rule prepared_halt)
  have t: "?t = (if unsubscribes p then (if rh_recv u then act [Close_receiver, Close_connection] u else crash Bad_access u)
      else schedule Immediate Timer_event (u\<lparr>rh_ts := now\<rparr>))"
    using un hu by (simp add: u(1) receiver_run_def)
  show ?thesis
  proof (cases "unsubscribes p \<and> unopened (rt_set p)")
    case True
    then show ?thesis using recv by (simp add: t)
  next
    case False
    then have halt: "h_halt ?t = None" using recv hu by (simp add: t)
    have "receiver_shape (rt_set p) (rt_topic p) ?t"
      using receiver_start_follows [OF s(1) ok] halt by (simp add: follows_def)
    moreover have "settled s ?t" using h(1) by (rule receiver_start_settled)
    moreover have "rh_recv ?t = rh_recv u" "rh_senders ?t = rh_senders u" "h_work_q ?t = h_work_q u" "h_cont ?t = h_cont u"
      "rh_msg_received_cnt ?t = rh_msg_received_cnt u"
      using False recv by (simp_all add: t) (simp_all add: act_def schedule_def)
    moreover have "rh_senders u = rh_senders s" "rh_msg_received_cnt u = rh_msg_received_cnt s"
      using u(2) by (simp_all add: prepared_def)
    ultimately have "receiver_sound p ?t" "receiver_seen ?t = receiver_seen s"
      using s(3-6) recv u(3) timed_same [OF s(4), of ?t] by (auto simp: receiver_sound_def settled_def receiver_seen_def)
    with halt False show ?thesis by simp
  qed
qed

lemma receiver_timer_matches:
  assumes sound: "receiver_sound p s" and h: "h_halt s = None" and started: "h_work_q s \<or> h_cont s"
  shows "receiver_matches p (receiver_life L p R_timer (receiver_seen s)) (receiver_timerEvent s)"
proof -
  obtain left k where v: "receiver_seen s = (left, k)" by (cases "receiver_seen s")
  have t: "timed (rt_timeout p) s" "t_remaining (h_timer s) = left" "rh_msg_received_cnt s = k"
    using sound v by (simp_all add: receiver_sound_def receiver_seen_def)
  note life = timer_life [OF t(1), unfolded t(2)]
  show ?thesis
  proof (cases "tick_life (rt_timeout p) left")
    case (Inl e)
    with life h v show ?thesis by (simp add: receiver_timerEvent_def)
  next
    case (Inr r)
    show ?thesis
    proof (cases r)
      case None
      with Inr life h v show ?thesis by (simp add: receiver_timerEvent_def)
    next
      case (Some n)
      then obtain x where x: "\<not> is_expired (h_timer s)" "tick_timer s = s\<lparr>h_timer := x\<rparr>" "t_remaining x = n"
        "timed (rt_timeout p) (s\<lparr>h_timer := x\<rparr>)" using life Inr by auto
      have "receiver_sound p (s\<lparr>h_timer := x\<rparr>)" using sound x(4) by (simp add: receiver_sound_def receiver_shape_def)
      then have "receiver_sound p (schedule Second Timer_event (act [dbg [LStr ''Waiting ...'']] (s\<lparr>h_timer := x\<rparr>)))"
        using started by (simp add: receiver_sound_def) (simp add: act_def schedule_def)
      moreover have "receiver_timerEvent s = schedule Second Timer_event (act [dbg [LStr ''Waiting ...'']] (s\<lparr>h_timer := x\<rparr>))"
        using x(1,2) h by (simp add: receiver_timerEvent_def)
      ultimately show ?thesis using x(3) h t(3) Some Inr v
        by (simp add: receiver_seen_def) (simp add: act_def schedule_def)
    qed
  qed
qed

lemma receiver_step_matches:
  assumes sound: "receiver_sound p s" and ok: "receiver_ok e s"
  shows "receiver_matches p (receiver_life L p e (receiver_seen s)) (receiver_step L e s)"
proof -
  have h: "h_halt s = None" "h_halt (take_work w s) = None" for w using ok by (simp_all add: receiver_ok_def)
  obtain left k where v: "receiver_seen s = (left, k)" by (cases "receiver_seen s")
  have shape: "receiver_shape (rt_set p) (rt_topic p) s" and cfg: "c_reconnect s = ''false'' \<longleftrightarrow> rt_no_reconnect p"
    "rh_msg_received_cnt s = k" "rh_set s = rt_set p"
    using sound v by (simp_all add: receiver_sound_def receiver_shape_def receiver_seen_def)
  have taken: "receiver_sound p (take_work w s)" if "h_work_q s \<or> h_cont s" for w
    using sound that by (simp add: receiver_sound_def) (auto simp: take_work_def)
  have started: "h_work_q s \<or> h_cont s" if "h_pending s \<noteq> []" using sound that by (auto simp: receiver_sound_def)
  show ?thesis
  proof (cases e)
    case (R_start now client_uuid)
    with receiver_start_matches [OF sound] ok show ?thesis by simp
  next
    case R_timer
    then have "Timer_event \<in> set (h_pending s)" using ok by (simp add: receiver_ok_def)
    then have "h_work_q s \<or> h_cont s" by (intro started) auto
    then have "receiver_sound p (take_work Timer_event s)" "h_work_q (take_work Timer_event s) \<or> h_cont (take_work Timer_event s)"
      using taken by (simp_all add: take_work_def)
    with receiver_timer_matches [OF _ h(2), of p Timer_event L]
    have "receiver_matches p (receiver_life L p R_timer (receiver_seen (take_work Timer_event s)))
        (receiver_timerEvent (take_work Timer_event s))" by blast
    moreover have "receiver_seen (take_work Timer_event s) = receiver_seen s" by (simp add: receiver_seen_def take_work_def)
    ultimately show ?thesis using R_timer by simp
  next
    case (R_message m)
    with receiver_message_matches [OF sound] ok show ?thesis by simp
  next
    case R_drain
    then have "Run_drain \<in> set (h_pending s)" using ok by (simp add: receiver_ok_def)
    then have st: "h_work_q s \<or> h_cont s" by (intro started) auto
    have "rh_recv s \<longleftrightarrow> \<not> unopened (rt_set p)" using sound st unfolding receiver_sound_def by blast
    moreover have "receiver_sound p (take_work Run_drain s)" "receiver_seen (take_work Run_drain s) = (left, k)"
      using taken [OF st, of Run_drain] v by (simp_all add: receiver_seen_def) (simp add: take_work_def)
    moreover have "rh_recv (take_work w s) = rh_recv s" for w by (simp add: take_work_def)
    ultimately show ?thesis using h R_drain v by (simp add: receiver_drain_def)
  qed (use h sound v cfg in \<open>simp_all add: receiver_drain_finish_def receiver_tracker_accept_def receiver_tracker_reject_def
      receiver_transport_error_def transport_error_def receiver_transport_close_def receiver_connection_error_def
      connection_error_def receiver_connection_close_def find_refused guard_def\<close>)
qed

interpretation receiver_ending: ending_machine "receiver_step L" receiver_ok "receiver_sound p" h_halt receiver_seen
  "receiver_life L p" for L p
proof unfold_locales
  show "receiver_ok e s \<Longrightarrow> h_halt s = None" for e s by (simp add: receiver_ok_def)
  fix e s v
  assume s: "receiver_sound p s" "receiver_ok e s"
  note m = receiver_step_matches [OF s, of L, unfolded receiver_matches_def]
  then show "h_halt (receiver_step L e s) = stop_of (receiver_life L p e (receiver_seen s))" by blast
  show "receiver_life L p e (receiver_seen s) = Inr v \<Longrightarrow> receiver_sound p (receiver_step L e s) \<and> receiver_seen (receiver_step L e s) = v"
    using m by simp
qed

subsection \<open>The connector\<close>

text \<open>
  Its machine has no memory: only its peer can stop a connector, and the first tick of a time-out below -1. When such a
  time-out is given, the rest of the handler is as if there were none.
\<close>

fun connector_life :: "int \<Rightarrow> bool \<Rightarrow> connector_event \<Rightarrow> unit \<Rightarrow> halt + unit" where
  "connector_life timeout no_reconnect C_timer v =
     (if timeout < FOREVER then Inl (Crashed (Timer_expired ''The timer timeout has expired'')) else Inr v)"
| "connector_life timeout no_reconnect (C_transport_error what) v = (if no_reconnect then Inl (Exited 1) else Inr v)"
| "connector_life timeout no_reconnect C_transport_close v = (if no_reconnect then Inl (Exited 1) else Inr v)"
| "connector_life timeout no_reconnect (C_connection_error what) v =
     (if refused what ''Unable to validate user'' then Inl (Exited 1) else Inr v)"
| "connector_life timeout no_reconnect e v = Inr v"

definition unlimited :: "int \<Rightarrow> connector_handler \<Rightarrow> connector_handler" where
  "unlimited timeout s = (if timeout < FOREVER then with_timer (timer_new FOREVER ''timeout'') s else s)"

definition connector_sound :: "int \<Rightarrow> int \<Rightarrow> string \<Rightarrow> bool \<Rightarrow> connector_handler \<Rightarrow> bool" where
  "connector_sound timeout control path no_reconnect s =
     (INT_MIN < timeout \<and> connector_shape control path (unlimited timeout s) \<and>
      (timeout < FOREVER \<longrightarrow> h_timer s = timer_new timeout ''timeout'') \<and> (c_reconnect s = ''false'' \<longleftrightarrow> no_reconnect))"

lemma reconnect_kept [simp]:
  "c_reconnect (open_receiver s) = c_reconnect s" "c_reconnect (open_sender s) = c_reconnect s"
  "c_reconnect (open_session s) = c_reconnect s" "c_reconnect (exit_with n h) = c_reconnect h"
  by (simp_all add: open_receiver_def open_sender_def open_session_def guard_def exit_with_def)

lemma connector_timer_goes_on:
  assumes "connector_shape control path s" and "h_halt s = None" and "Timer_event \<in> set (h_pending s)"
  shows "h_halt (connector_step C_timer s) = None \<and> c_reconnect (connector_step C_timer s) = c_reconnect s"
proof -
  let ?s = "take_work Timer_event s"
  have w: "h_work_q s" "timer_ok (h_timer s)" using assms(1,3) by (simp_all add: connector_shape_def)
  have shape: "connector_shape control path ?s" "h_work_q ?s" "h_timer ?s = h_timer s"
    using assms(1) w(1) by (simp_all add: connector_shape_def) (simp_all add: take_work_def)
  show ?thesis
  proof (cases "is_expired (h_timer s)")
    case True
    let ?u = "act [Log Log_info [LStr ''Timed out'']] ?s"
    have u: "connector_shape control path ?u" "h_work_q ?u" "h_halt ?u = None"
      using alike_shape [OF shape(1), of ?u] shape assms(2) by simp_all (simp add: act_def)
    obtain es where "closeObjects ?u = act es ?u" using closeObjects_eq [OF u] .
    then show ?thesis using True assms(2) shape(3) by (simp add: connector_timerEvent_def)
  next
    case False
    then have "h_halt (tick_timer ?s) = None" using tick_timer_ok [of ?s] w(2) shape(3) assms(2) by simp
    moreover have "c_reconnect (tick_timer ?s) = c_reconnect s"
      by (simp add: tick_timer_def crash_def split: sum.split prod.split)
    ultimately show ?thesis using False assms(2) shape(3) by (simp add: connector_timerEvent_def)
  qed
qed

lemma connector_shape_life:
  assumes s: "connector_shape control path s" "c_reconnect s = ''false'' \<longleftrightarrow> nr" and ok: "connector_ok e s"
    and tick: "e = C_timer \<Longrightarrow> \<not> timeout < FOREVER"
  shows "h_halt (connector_step e s) = stop_of (connector_life timeout nr e v) \<and> c_reconnect (connector_step e s) = c_reconnect s"
proof -
  have h: "h_halt s = None" using ok by (simp add: connector_ok_def)
  show ?thesis
  proof (cases e)
    case C_start
    then show ?thesis using h by (simp add: connector_start_def split_beta)
  next
    case C_open
    then show ?thesis using h by (simp add: connector_open_def)
  next
    case C_timer
    then show ?thesis using connector_timer_goes_on [OF s(1) h] ok tick by (simp add: connector_ok_def)
  next
    case C_session_error
    then have "h_work_q s" using ok by (simp add: connector_ok_def)
    let ?u = "act [Log Log_error (LStr ''The remote peer at '' # peer_name s @ [LStr '' closed the session with an error condition''])] s"
    have u: "connector_shape control path ?u" "h_work_q ?u" "h_halt ?u = None"
      using alike_shape [OF s(1), of ?u] h \<open>h_work_q s\<close> by simp_all (simp add: act_def)
    obtain es where "closeObjects ?u = act es ?u" using closeObjects_eq [OF u] .
    then show ?thesis using C_session_error h by (simp add: connector_session_error_def)
  qed (use h s(2) in \<open>simp_all add: connector_connection_close_def connector_connection_error_def connection_error_def
      connector_transport_error_def connector_transport_close_def find_refused guard_def\<close>)
qed

lemma unlimited_reads [simp]:
  "connector_ok e (unlimited timeout s) = connector_ok e s" "c_reconnect (unlimited timeout s) = c_reconnect s"
  by (simp_all add: unlimited_def)

lemma unlimited_step:
  "e = C_timer \<Longrightarrow> \<not> timeout < FOREVER \<Longrightarrow> connector_step e (unlimited timeout s) = unlimited timeout (connector_step e s)"
  "e \<noteq> C_timer \<Longrightarrow> connector_step e (unlimited timeout s) = unlimited timeout (connector_step e s)"
  by (simp_all add: unlimited_def step_with_timer)

lemma connector_step_life:
  assumes sound: "connector_sound timeout control path nr s" and ok: "connector_ok e s"
  shows "h_halt (connector_step e s) = stop_of (connector_life timeout nr e v)"
    and "connector_life timeout nr e v = Inr v' \<Longrightarrow> connector_sound timeout control path nr (connector_step e s)"
proof -
  let ?u = "unlimited timeout s" and ?e = "connector_step e s"
  have s: "INT_MIN < timeout" "connector_shape control path ?u" "c_reconnect ?u = ''false'' \<longleftrightarrow> nr"
    "timeout < FOREVER \<longrightarrow> h_timer s = timer_new timeout ''timeout''"
    using sound by (simp_all add: connector_sound_def)
  have h: "h_halt s = None" using ok by (simp add: connector_ok_def)
  have "h_halt ?e = stop_of (connector_life timeout nr e v) \<and>
      (connector_life timeout nr e v = Inr v' \<longrightarrow> connector_sound timeout control path nr ?e)"
  proof (cases "e = C_timer \<and> timeout < FOREVER")
    case True
    then have "?e = crash (Timer_expired ''The timer timeout has expired'') (take_work Timer_event s)"
      using negative_tick [OF _ s(1) _ h] s(4) by simp
    with True show ?thesis by simp
  next
    case False
    then have t: "e = C_timer \<Longrightarrow> \<not> timeout < FOREVER" and step: "connector_step e ?u = unlimited timeout ?e"
      using unlimited_step by blast+
    have u: "connector_ok e ?u" using ok by simp
    from connector_shape_life [OF s(2,3) u t] have "h_halt (unlimited timeout ?e) = stop_of (connector_life timeout nr e v)"
      "c_reconnect (unlimited timeout ?e) = c_reconnect ?u" unfolding step by blast+
    moreover have "connector_shape control path (unlimited timeout ?e)"
      using connector_follows_step [OF s(2) u] unfolding step by (simp add: connector_follows_def)
    moreover have "timeout < FOREVER \<Longrightarrow> h_timer ?e = h_timer s" using False by (intro step_keeps_timer) blast
    ultimately show ?thesis using s(1,3,4) by (auto simp: connector_sound_def) (simp_all add: unlimited_def split: if_splits)
  qed
  then show "h_halt ?e = stop_of (connector_life timeout nr e v)"
    "connector_life timeout nr e v = Inr v' \<Longrightarrow> connector_sound timeout control path nr ?e" by blast+
qed

interpretation connector_ending: ending_machine connector_step connector_ok "connector_sound timeout control path nr" h_halt
  "\<lambda>s. ()" "connector_life timeout nr" for timeout control path nr
proof unfold_locales
  show "connector_ok e s \<Longrightarrow> h_halt s = None" for e s by (simp add: connector_ok_def)
  fix e s v
  assume s: "connector_sound timeout control path nr s" "connector_ok e s"
  show "h_halt (connector_step e s) = stop_of (connector_life timeout nr e ())" by (rule connector_step_life(1) [OF s])
  show "connector_life timeout nr e () = Inr v \<Longrightarrow> connector_sound timeout control path nr (connector_step e s) \<and> () = v"
    using connector_step_life(2) [OF s] by simp
qed

end
