(* ===== verification/ExitStatus.thy ===== *)
theory ExitStatus
  imports Endings CommandLine
begin

text \<open>
  The exit status of the clients: what the machines of Endings, started from the options of a command line, say about
  the way a program ends.
\<close>

subsection \<open>How a program ends\<close>

definition program_end :: "halt + 'v \<Rightarrow> ending" where
  "program_end r =
     (case r of
        Inr _ \<Rightarrow> Status 0
      | Inl (Exited n) \<Rightarrow> Status n
      | Inl (Crashed e) \<Rightarrow> if standard_exception e then Status 1 else Uncaught e)"

lemma client_end_stop: "h_halt h = stop_of r \<Longrightarrow> client_end h = program_end r"
  by (cases r) (simp_all add: client_end_def program_end_def split: halt.split)

lemma int_option_max: "int32 n \<Longrightarrow> int_option options d n \<le> INT_MAX"
  using int_option_int32 [of n options d] by (simp add: int32_def)

lemma small_int32: "int32 1" "int32 0" "int32 (- 1)"
  by (simp_all add: int32_def int_limits)

subsection \<open>From the options\<close>

definition sender_told :: "opt_values \<Rightarrow> message \<Rightarrow> sender_terms" where
  "sender_told options m = \<lparr>st_timeout = int_option options ''timeout'' 1, st_count = int_option options ''count'' 1,
     st_message = m, st_mode = text_option options ''log-msgs'' '''',
     st_no_reconnect = (lower_option options ''conn-reconnect'' ''true'' = ''false'')\<rparr>"

lemma sending_client_ends:
  assumes "sending_client forever p logger = Inr cl" and "INT_MIN < int_option (p_values p) ''timeout'' 1"
    and "run_events (sender_step L) sender_ok es (cl_handler cl) = Some s"
  shows "client_end s = program_end (machine_run (sender_life L (sender_told (p_values p) (sh_message (cl_handler cl)))) es
      (int_option (p_values p) ''timeout'' 1, 0, False))"
proof -
  let ?t = "int_option (p_values p) ''timeout'' 1" and ?s = "cl_handler cl" and ?c = "int_option (p_values p) ''count'' 1"
  obtain url d mode u s0 m where s0: "sender_new url ?t d mode (sending_settings forever (p_values p) u) = Inr s0"
    "sending_message p (p_values p) = Inr m" "?s = sender_for s0 ?c m"
    using sending_client_handler [OF assms(1)] .
  note n = sender_new_state [OF s0(1)]
  have fields: "h_timer ?s = timer_new ?t ''timeout''" "c_log_msgs ?s = c_log_msgs s0" "c_reconnect ?s = c_reconnect s0"
    "sh_sent ?s = 0" "sh_ready ?s = False" "h_halt ?s = None" "sh_message ?s = m"
    using n by (simp_all add: s0(3) sender_for_def sender_setCount_def sender_setMessage_def)
  have "timed ?t ?s" using assms(2) int_option_max [OF small_int32(1)] fields(1) by (intro timed_new)
  moreover have "sender_inv ?c m ?s" using sender_for_inv [OF s0(1) int_option_int32 [OF small_int32(1)]] s0(3) by simp
  ultimately have "sender_sound (sender_told (p_values p) m) ?s"
    using n(9,11) fields(2,3) by (simp add: sender_sound_def sender_told_def sending_settings_def client_settings_def Let_def)
  from sender_ending.run_stops [OF assms(3) this fields(6)]
  have "h_halt s = stop_of (machine_run (sender_life L (sender_told (p_values p) m)) es (sender_seen ?s))" .
  moreover have "sender_seen ?s = (?t, 0, False)" using fields(1,4,5) by (simp add: sender_seen_def timer_new_def)
  ultimately show ?thesis using client_end_stop fields(7) by metis
qed

definition receiver_told :: "opt_values \<Rightarrow> receiver_terms" where
  "receiver_told options = \<lparr>rt_timeout = int_option options ''timeout'' (- 1), rt_set = subscriber_settings options,
     rt_topic = snd (topic_address (value_at options ''broker-url'')), rt_mode = text_option options ''log-msgs'' '''',
     rt_no_reconnect = (lower_option options ''conn-reconnect'' ''true'' = ''false'')\<rparr>"

lemma receiving_client_ends:
  assumes "receiving_client forever uuid p logger = Inr cl" and "INT_MIN < int_option (p_values p) ''timeout'' (- 1)"
    and "run_events (receiver_step L) receiver_ok es (cl_handler cl) = Some s"
  shows "client_end s = program_end (machine_run (receiver_life L (receiver_told (p_values p))) es
      (int_option (p_values p) ''timeout'' (- 1), 0))"
proof -
  let ?t = "int_option (p_values p) ''timeout'' (- 1)" and ?s = "cl_handler cl" and ?r = "subscriber_settings (p_values p)"
  obtain url u s0 sel where s0: "receiver_new url ?t (receiving_settings forever (p_values p) u) ?r = Inr s0"
    "?s = receiver_for s0 sel"
    using receiving_client_handler [OF assms(1)] .
  note n = receiver_new_state [OF s0(1), of sel, folded s0(2)]
  have "timed ?t ?s" using assms(2) int_option_max [OF small_int32(3)] n(5) by (intro timed_new)
  then have "receiver_sound (receiver_told (p_values p)) ?s"
    using n by (simp add: receiver_sound_def receiver_told_def receiving_settings_def client_settings_def Let_def)
  from receiver_ending.run_stops [OF assms(3) this n(4)]
  have "h_halt s = stop_of (machine_run (receiver_life L (receiver_told (p_values p))) es (receiver_seen ?s))" .
  moreover have "receiver_seen ?s = (?t, 0)" using n(2,5) by (simp add: receiver_seen_def timer_new_def view_def)
  ultimately show ?thesis using client_end_stop by metis
qed

lemma connecting_client_ends:
  assumes "connecting_client forever p logger = Inr cl" and "INT_MIN < int_option (p_values p) ''timeout'' 0"
    and "run_events connector_step connector_ok es (cl_handler cl) = Some s"
  shows "client_end s = program_end (machine_run (connector_life (int_option (p_values p) ''timeout'' 0)
    (lower_option (p_values p) ''conn-reconnect'' ''true'' = ''false'')) es ())"
proof -
  let ?t = "int_option (p_values p) ''timeout'' 0" and ?s = "cl_handler cl" and ?c = "setConnectionOptions (p_values p)"
  let ?nr = "lower_option (p_values p) ''conn-reconnect'' ''true'' = ''false''"
  obtain url u s0 n where s0: "connector_new url ?t (connecting_settings forever (p_values p) u) = Inr s0"
    "?s = connector_for s0 n ?c"
    using connecting_client_handler [OF assms(1)] .
  have "?t \<le> INT_MAX" using int_option_max [OF small_int32(2)] .
  moreover have "?t < FOREVER \<or> ?t = FOREVER \<or> 0 \<le> ?t" by (auto simp: FOREVER_def)
  moreover have "timer_ok (timer_new FOREVER ''timeout'')" using timer_new_ok [of FOREVER] by (simp add: FOREVER_def int_limits)
  ultimately have "connector_tracks ?c (u_path (h_broker_url s0)) (rest_of ?t) ([], unlimited ?t ?s)"
    using connector_new_timed(2) [OF s0(1), of "timer_new FOREVER ''timeout''" ?c n]
      connector_new_tracks [OF s0(1), of ?c n] by (auto simp: unlimited_def s0(2) rest_of_def timer_rest_def timer_new_def FOREVER_def)
  then have shape: "connector_shape ?c (u_path (h_broker_url s0)) (unlimited ?t ?s)" by (simp add: connector_tracks_def)
  obtain h where h: "common_handler_new url ?t (connecting_settings forever (p_values p) u) = Inr h"
    and "c_reconnect ?s = c_reconnect h" "h_halt ?s = h_halt h"
    using s0 by (auto simp: connector_new_def res_bind_eq_Inr connector_for_def setObjectControl_def connector_setCount_def
        common_handler.defs connector_handler.defs act_def)
  moreover from common_handler_new_state(5,7) [OF h] have "h_halt h = None"
    "c_reconnect h = lower_option (p_values p) ''conn-reconnect'' ''true''"
    by (auto simp: conn_settings.defs connecting_settings_def client_settings_def Let_def)
  moreover have "h_timer ?s = timer_new ?t ''timeout''" unfolding s0(2) by (rule connector_new_timed(1) [OF s0(1)])
  ultimately have "connector_sound ?t ?c (u_path (h_broker_url s0)) ?nr ?s" "h_halt ?s = None"
    using shape assms(2) by (simp_all add: connector_sound_def)
  from connector_ending.run_stops [OF assms(3) this] show ?thesis by (rule client_end_stop)
qed

subsection \<open>The programs\<close>

text \<open>
  \<open>main\<close> of the three programs (src/src/api/qpid-proton/clients): it makes the client and returns what \<open>run\<close> returns. The
  events are the calls the library makes until the container returns; \<open>None\<close> when they are not a run. What is thrown before
  the container is started, is not caught.
\<close>

definition stop_end :: "opt_stop \<Rightarrow> ending" where
  "stop_end stop = (case stop of Exit n _ _ \<Rightarrow> Status n | Throw e \<Rightarrow> Uncaught e)"

definition sender_main :: "proton_lib \<Rightarrow> string option \<Rightarrow> int \<Rightarrow> string list \<Rightarrow> sender_event list \<Rightarrow> ending option" where
  "sender_main L columns forever argv es =
     (case sending_run columns forever argv of
        Inl stop \<Rightarrow> Some (stop_end stop)
      | Inr cl \<Rightarrow> map_option client_end (run_events (sender_step L) sender_ok es (cl_handler cl)))"

definition receiver_main :: "proton_lib \<Rightarrow> string option \<Rightarrow> int \<Rightarrow> string \<Rightarrow> string list \<Rightarrow> receiver_event list \<Rightarrow> ending option" where
  "receiver_main L columns forever uuid argv es =
     (case receiving_run columns forever uuid argv of
        Inl stop \<Rightarrow> Some (stop_end stop)
      | Inr cl \<Rightarrow> map_option client_end (run_events (receiver_step L) receiver_ok es (cl_handler cl)))"

definition connector_main :: "string option \<Rightarrow> int \<Rightarrow> string list \<Rightarrow> connector_event list \<Rightarrow> ending option" where
  "connector_main columns forever argv es =
     (case connecting_run columns forever argv of
        Inl stop \<Rightarrow> Some (stop_end stop)
      | Inr cl \<Rightarrow> map_option client_end (run_events connector_step connector_ok es (cl_handler cl)))"

text \<open>The machines' terms, in terms of the command line.\<close>

definition commanded_sender :: "cmd_item list \<Rightarrow> message \<Rightarrow> sender_terms" where
  "commanded_sender its m =
     \<lparr>st_timeout = given_int sender_table its ''timeout'' 1, st_count = given_int sender_table its ''count'' 1,
      st_message = m, st_mode = given_text sender_table its ''log-msgs'' '''',
      st_no_reconnect = (lower (given_text sender_table its ''conn-reconnect'' ''true'') = ''false'')\<rparr>"

definition commanded_receiver :: "cmd_item list \<Rightarrow> receiver_terms" where
  "commanded_receiver its =
     \<lparr>rt_timeout = given_int receiver_table its ''timeout'' (- 1),
      rt_set = subscriber_settings (option_values receiver_table its),
      rt_topic = snd (topic_address (given_text receiver_table its ''broker-url'' '''')),
      rt_mode = given_text receiver_table its ''log-msgs'' '''',
      rt_no_reconnect = (lower (given_text receiver_table its ''conn-reconnect'' ''true'') = ''false'')\<rparr>"

text \<open>
  C7. The exit status of a sender. For a command line of the sender's options that starts the client, and every sequence of the
  library's calls, the program ends exactly as a small machine says that knows only the time-out, the number of messages, the
  message and two more options: status 0 when the time-out has run out or the container returns, status 1 when a delivery is
  rejected, when the peer refuses the user, or when the transport closes and \<open>--conn-reconnect\<close> is false, and by an exception
  when a message cannot be printed (caught, status 1) or the time-out was negative and not -1 (not caught).
\<close>

theorem sender_exit_status:
  assumes "list_all (table_item sender_table) its" and "INT_MIN < given_int sender_table its ''timeout'' 1"
    and "sending_run columns forever (prog # concat (map item_args its)) = Inr cl"
    and "sender_main L columns forever (prog # concat (map item_args its)) es = Some e"
  shows "e = program_end (machine_run (sender_life L (commanded_sender its (sh_message (cl_handler cl)))) es
    (given_int sender_table its ''timeout'' 1, 0, False))"
proof -
  obtain r where r: "sending_run columns forever (prog # concat (map item_args its)) =
      (case validate_sender r (p_values r) of Inl e \<Rightarrow> Inl e
       | Inr _ \<Rightarrow> sending_client forever r (set_log_level (p_values r) log_world_new))"
    "p_values r = option_values sender_table its"
    using sending_run_table [OF assms(1)] by blast
  have "smap_get (v_map (p_values r)) = given sender_table its" by (simp add: r(2) option_values_get)
  note g = given_readings [OF this]
  have cl: "sending_client forever r (set_log_level (p_values r) log_world_new) = Inr cl"
    using assms(3) r(1) by (simp split: sum.splits)
  from assms(3,4) obtain s where s: "run_events (sender_step L) sender_ok es (cl_handler cl) = Some s" "e = client_end s"
    by (auto simp: sender_main_def)
  have "sender_told (p_values r) m = commanded_sender its m" for m by (simp add: sender_told_def commanded_sender_def g)
  with sending_client_ends [OF cl _ s(1)] assms(2) s(2) show ?thesis by (simp add: g)
qed

text \<open>
  C8. The exit status of a receiver, likewise: status 0 when the time-out has run out, when the transport closes after the
  number of messages asked for, or when the container returns; status 1 when the peer refuses the user, when the transport
  closes and \<open>--conn-reconnect\<close> is false, or when a message cannot be printed; and an undefined access ends a receiver that
  listens when it unsubscribes, has to answer, or is to drain its credit.
\<close>

theorem receiver_exit_status:
  assumes "list_all (table_item receiver_table) its" and "INT_MIN < given_int receiver_table its ''timeout'' (- 1)"
    and "receiving_run columns forever uuid (prog # concat (map item_args its)) = Inr cl"
    and "receiver_main L columns forever uuid (prog # concat (map item_args its)) es = Some e"
  shows "e = program_end (machine_run (receiver_life L (commanded_receiver its)) es
    (given_int receiver_table its ''timeout'' (- 1), 0))"
proof -
  obtain r where r: "receiving_run columns forever uuid (prog # concat (map item_args its)) =
      (case validate_receiver r (p_values r) of Inl e \<Rightarrow> Inl e
       | Inr _ \<Rightarrow> receiving_client forever uuid r (set_log_level (p_values r) log_world_new))"
    "p_values r = option_values receiver_table its"
    using receiving_run_table [OF assms(1)] by blast
  have "smap_get (v_map (p_values r)) = given receiver_table its" by (simp add: r(2) option_values_get)
  note g = given_readings [OF this]
  have cl: "receiving_client forever uuid r (set_log_level (p_values r) log_world_new) = Inr cl"
    using assms(3) r(1) by (simp split: sum.splits)
  from assms(3,4) obtain s where s: "run_events (receiver_step L) receiver_ok es (cl_handler cl) = Some s" "e = client_end s"
    by (auto simp: receiver_main_def)
  have "receiver_told (p_values r) = commanded_receiver its" by (simp add: receiver_told_def commanded_receiver_def g) (simp add: r(2))
  with receiving_client_ends [OF cl _ s(1)] assms(2) s(2) show ?thesis by (simp add: g)
qed

text \<open>
  C9. The exit status of a connector, likewise, for every command line of its options that starts the client and every time-out
  (but the least number of \<open>int\<close>): status 1 when the peer refuses the user, or when the transport fails or closes and
  \<open>--conn-reconnect\<close> is false; by an exception that is not caught at the first tick of a time-out below -1; and status 0
  otherwise. A time-out that runs out closes the connection and leaves the status to the peer's answer.
\<close>

theorem connector_exit_status:
  assumes "list_all (table_item connector_table) its"
    and "INT_MIN < given_int connector_table its ''timeout'' 0"
    and "connecting_run columns forever (prog # concat (map item_args its)) = Inr cl"
    and "connector_main columns forever (prog # concat (map item_args its)) es = Some e"
  shows "e = program_end (machine_run (connector_life (given_int connector_table its ''timeout'' 0)
    (lower (given_text connector_table its ''conn-reconnect'' ''true'') = ''false'')) es ())"
proof -
  obtain r where r: "connecting_run columns forever (prog # concat (map item_args its)) =
      (case validate_connector r (p_values r) of Inl e \<Rightarrow> Inl e
       | Inr _ \<Rightarrow> connecting_client forever r (set_log_level (p_values r) log_world_new))"
    "p_values r = option_values connector_table its"
    using connecting_run_table [OF assms(1)] by blast
  have "smap_get (v_map (p_values r)) = given connector_table its" by (simp add: r(2) option_values_get)
  note g = given_readings [OF this]
  have cl: "connecting_client forever r (set_log_level (p_values r) log_world_new) = Inr cl"
    using assms(3) r(1) by (simp split: sum.splits)
  from assms(3,4) obtain s where s: "run_events connector_step connector_ok es (cl_handler cl) = Some s" "e = client_end s"
    by (auto simp: connector_main_def)
  from connecting_client_ends [OF cl _ s(1)] assms(2) s(2) show ?thesis by (simp add: g)
qed

subsection \<open>Runs of the programs\<close>

lemma sending_client_values:
  assumes "p_values p = p_values q" and "\<And>i. callback_at p i = callback_at q i"
  shows "sending_client forever p logger = sending_client forever q logger"
    "(validate_sender p v = Inr ()) = (validate_sender q v = Inr ())"
proof -
  have "callback_at p = callback_at q" using assms(2) by blast
  then have eq: "sending_message p = sending_message q" by (simp only: fun_eq_iff sending_message_def sending_body_def) simp
  show "sending_client forever p logger = sending_client forever q logger"
    unfolding sending_client_def assms(1) eq by (rule refl)
  have "(validate_modern p v = Inr ()) = (validate_modern q v = Inr ())"
    unfolding validate_modern_def first_failure_ok by (simp add: modern_checks_def Let_def)
  then show "(validate_sender p v = Inr ()) = (validate_sender q v = Inr ())"
    by (auto simp: validate_sender_def split: sum.splits)
qed

definition once_command :: "cmd_item list" where
  "once_command = [Long_eq ''broker-url'' ''h/q'', Long_sp ''conn-reconnect'' ''False'']"

definition once_values :: opt_values where
  "once_values = fold put_pair [(''broker-url'', ''h/q''), (''conn-reconnect'', ''False'')] values_new"

lemma once_items: "list_all (table_item sender_table) once_command"
  by code_simp

lemma once_acts: "table_acts sender_table once_command = map Inl [(''broker-url'', ''h/q''), (''conn-reconnect'', ''False'')]"
  by code_simp

definition started_sender :: "sender_handler client" where
  "started_sender = projr (sending_client 0 ((parser_new None)\<lparr>p_values := once_values\<rparr>) (set_log_level once_values log_world_new))"

lemma once_starts: "sending_run None 0 (''aac3_sender'' # concat (map item_args once_command)) = Inr started_sender"
proof -
  let ?q = "(parser_new None)\<lparr>p_values := once_values\<rparr>"
  obtain r where r: "sending_run None 0 (''aac3_sender'' # concat (map item_args once_command)) =
      (case validate_sender r (p_values r) of Inl e \<Rightarrow> Inl e
       | Inr _ \<Rightarrow> sending_client 0 r (set_log_level (p_values r) log_world_new))"
    "p_values r = option_values sender_table once_command"
    "\<And>i. callback_at r i = cb_all (appended i (table_acts sender_table once_command))"
    using sending_run_table [OF once_items] by blast
  then have v: "p_values r = once_values" by (simp add: option_values_def once_acts once_values_def)
  have "callback_at r i = callback_at ?q i" for i
    by (simp add: r(3) once_acts cb_all_def) (simp add: callback_at_def parser_new_def smap_get_def)
  then have same: "sending_client 0 r l = sending_client 0 ?q l" "(validate_sender r w = Inr ()) = (validate_sender ?q w = Inr ())"
    for l w
    using sending_client_values [of r ?q] v by simp_all
  have "validate_sender ?q once_values = Inr ()" by code_simp
  moreover have "\<not> isl (sending_client 0 ?q (set_log_level once_values log_world_new))" by code_simp
  then have "sending_client 0 ?q (set_log_level once_values log_world_new) = Inr started_sender"
    by (cases "sending_client 0 ?q (set_log_level once_values log_world_new)") (simp_all add: started_sender_def)
  ultimately have "validate_sender r (p_values r) = Inr ()"
    "sending_client 0 r (set_log_level (p_values r) log_world_new) = Inr started_sender"
    using same unfolding v by simp_all
  then show ?thesis by (simp add: r(1))
qed

lemma lower_samples: "lower ''False'' = ''false''" "lower ''true'' = ''true''" "lower [] = []"
  by code_simp+

lemma sender_exit_status_witness:
  "sender_main sample_lib None 0 (''aac3_sender'' # concat (map item_args once_command)) [S_start, S_transport_close] = Some (Status 1)"
proof -
  let ?es = "[S_start, S_transport_close]"
  let ?run = "run_events (sender_step sample_lib) sender_ok ?es (cl_handler started_sender)"
  have "\<not> Option.is_none ?run" by code_simp
  then obtain e where e: "sender_main sample_lib None 0 (''aac3_sender'' # concat (map item_args once_command)) ?es = Some e"
    by (auto simp: sender_main_def once_starts Option.is_none_def simp del: run_events.simps)
  have "INT_MIN < given_int sender_table once_command ''timeout'' 1" by (simp add: given_int_def given_def once_acts int_limits)
  from sender_exit_status [OF once_items this once_starts e] have "e = Status 1"
    by (simp add: commanded_sender_def given_text_def given_def once_acts lower_samples program_end_def)
  with e show ?thesis by simp
qed

lemma receiver_exit_status_witness:
  "receiver_main sample_lib None 0 ''u'' (''aac3_receiver'' # concat (map item_args sample_receiver_command))
     [R_start 0 ''u'', R_transport_error ''amqp:unauthorized-access''] = Some (Status 1)"
proof -
  let ?es = "[R_start 0 ''u'', R_transport_error ''amqp:unauthorized-access'']"
  let ?run = "run_events (receiver_step sample_lib) receiver_ok ?es (cl_handler started_receiver)"
  have "\<not> Option.is_none ?run" by code_simp
  then obtain e where e: "receiver_main sample_lib None 0 ''u'' (''aac3_receiver'' # concat (map item_args sample_receiver_command)) ?es = Some e"
    by (auto simp: receiver_main_def sample_receiver_starts Option.is_none_def simp del: run_events.simps)
  have "INT_MIN < given_int receiver_table sample_receiver_command ''timeout'' (- 1)"
    by (simp add: given_int_def given_def sample_receiver_acts int_limits)
  moreover have "refused ''amqp:unauthorized-access'' ''unauthorized''" by code_simp
  moreover have "\<not> unsubscribes (commanded_receiver sample_receiver_command)"
    by (simp add: unsubscribes_def commanded_receiver_def subscriber_settings_def given_readings(4) [OF option_values_get]
        given_true_def given_text_def given_def sample_receiver_acts lower_samples)
  ultimately have "e = Status 1"
    using receiver_exit_status [OF sample_receiver_items _ sample_receiver_starts e] by (simp add: program_end_def)
  with e show ?thesis by simp
qed

lemma connector_exit_status_witness:
  "connector_main None 0 (''aac3_connector'' # concat (map item_args sample_connector_command))
     [C_start, C_open, C_connection_error ''Unable to validate user''] = Some (Status 1)"
proof -
  let ?es = "[C_start, C_open, C_connection_error ''Unable to validate user'']"
  let ?run = "run_events connector_step connector_ok ?es (cl_handler started_connector)"
  have "\<not> Option.is_none ?run" by code_simp
  then obtain e where e: "connector_main None 0 (''aac3_connector'' # concat (map item_args sample_connector_command)) ?es = Some e"
    by (auto simp: connector_main_def sample_connector_starts Option.is_none_def simp del: run_events.simps)
  have t: "INT_MIN < given_int connector_table sample_connector_command ''timeout'' 0"
    by (simp add: given_int_def given_def sample_connector_acts timeout_sample int_limits)
  have "refused ''Unable to validate user'' ''Unable to validate user''" by (simp add: refused_def)
  with connector_exit_status [OF sample_connector_items t sample_connector_starts e] have "e = Status 1"
    by (simp add: program_end_def)
  with e show ?thesis by simp
qed

end
