(* ===== verification/Typed.thy ===== *)
theory Typed
  imports SendingM ReceivingM ConnectingM
begin

text \<open>
  The C++ types of what the model keeps as unbounded numbers: the settings, the time-out, the counters of the handlers,
  the message, and every number a handler gives to the client library. \<open>typed_state\<close> is the contract of a state whose
  values have their types; it is interpreted on the three handlers.
\<close>

subsection \<open>Values\<close>

definition uint32 :: "int \<Rightarrow> bool" where
  "uint32 x = (0 \<le> x \<and> x \<le> UINT32_MAX)"

definition int64 :: "int \<Rightarrow> bool" where
  "int64 x = (LONG_MIN \<le> x \<and> x \<le> LONG_MAX)"

definition uint64 :: "int \<Rightarrow> bool" where
  "uint64 x = (0 \<le> x \<and> x \<le> ULONG_MAX)"

definition bits :: "nat \<Rightarrow> int \<Rightarrow> bool" where
  "bits n x = (0 \<le> x \<and> x < 2 ^ n)"

definition sbits :: "nat \<Rightarrow> int \<Rightarrow> bool" where
  "sbits n x = (- (2 ^ (n - 1)) \<le> x \<and> x < 2 ^ (n - 1))"

fun value_typed :: "amqp_value \<Rightarrow> bool" where
  "value_typed (VUbyte x) = bits 8 x"
| "value_typed (VByte x) = sbits 8 x"
| "value_typed (VUshort x) = bits 16 x"
| "value_typed (VShort x) = sbits 16 x"
| "value_typed (VUint x) = uint32 x"
| "value_typed (VInt x) = int32 x"
| "value_typed (VChar x) = bits 32 x"
| "value_typed (VUlong x) = uint64 x"
| "value_typed (VLong x) = int64 x"
| "value_typed (VTimestamp x) = int64 x"
| "value_typed (VArray vs) = list_all value_typed vs"
| "value_typed (VList vs) = list_all value_typed vs"
| "value_typed (VMap kvs) = list_all (\<lambda>(k, v). value_typed k \<and> value_typed v) kvs"
| "value_typed _ = True"

definition message_typed :: "message \<Rightarrow> bool" where
  "message_typed m =
     (value_typed (m_id m) \<and> value_typed (m_correlation_id m) \<and> value_typed (m_body m) \<and>
      list_all (\<lambda>(k, v). value_typed v) (m_properties m) \<and>
      int64 (m_expiry_time m) \<and> int64 (m_creation_time m) \<and> int32 (m_group_sequence m) \<and>
      bits 8 (m_priority m) \<and> uint64 (m_ttl m) \<and> uint32 (m_delivery_count m))"

text \<open>A duration: the factors fit their types, and nothing is divided by zero.\<close>

fun duration_typed :: "duration \<Rightarrow> bool" where
  "duration_typed Immediate = True"
| "duration_typed Second = True"
| "duration_typed (Millis n) = int32 n"
| "duration_typed (Scaled n d) = ((int32 n \<or> uint32 n) \<and> duration_typed d)"
| "duration_typed (Divided d n) = (int32 n \<and> n \<noteq> 0 \<and> duration_typed d)"

definition conn_opts_typed :: "conn_opts \<Rightarrow> bool" where
  "conn_opts_typed co =
     (pred_option uint32 (co_max_frame_size co) \<and> pred_option duration_typed (co_idle_timeout co))"

text \<open>What a handler gives to the library; \<open>M\<close> is what holds of the messages it sends.\<close>

fun effect_typed :: "(message \<Rightarrow> bool) \<Rightarrow> effect \<Rightarrow> bool" where
  "effect_typed M (Send _ m) = M m"
| "effect_typed M (Connect _ co) = conn_opts_typed co"
| "effect_typed M (Listen _ co) = conn_opts_typed co"
| "effect_typed M (Open_receiver _ ra) = pred_option (\<lambda>a. pred_option int32 (ra_credit_window a)) ra"
| "effect_typed M (Schedule d _) = duration_typed d"
| "effect_typed M (Log_millis _ _ d _) = duration_typed d"
| "effect_typed M (Sleep_for_next _ n d k) = (int32 n \<and> int32 d \<and> int32 k)"
| "effect_typed M _ = True"

definition settings_typed :: "'a conn_settings_scheme \<Rightarrow> bool" where
  "settings_typed c =
     (int32 (c_reconnect_interval c) \<and> int32 (c_reconnect_limit c) \<and> int32 (c_reconnect_timeout c) \<and>
      uint32 (c_reconnect_first c) \<and> uint32 (c_reconnect_increment c) \<and> uint32 (c_heartbeat c) \<and>
      uint32 (c_max_frame_size c))"

definition timer_typed :: "timer \<Rightarrow> bool" where
  "timer_typed t = (int32 (t_timeout t) \<and> int32 (t_remaining t))"

definition handler_typed :: "(message \<Rightarrow> bool) \<Rightarrow> 'a common_handler_scheme \<Rightarrow> bool" where
  "handler_typed M h =
     (settings_typed h \<and> timer_typed (h_timer h) \<and> int32 (h_timeout h) \<and> list_all (effect_typed M) (h_effects h))"

lemma int32_small [simp]: "int32 0" "int32 1" "int32 (- 1)" "int32 10" "int32 5672"
  by (simp_all add: int32_def int_limits)

lemma effect_typed_dbg [simp]: "effect_typed M (dbg vs)"
  by (simp add: dbg_def)

lemma handler_typed_statements [simp]:
  "handler_typed M (act es h) \<longleftrightarrow> handler_typed M h \<and> list_all (effect_typed M) es"
  "handler_typed M (schedule d w h) \<longleftrightarrow> handler_typed M h \<and> duration_typed d"
  "handler_typed M (add_work w h) = handler_typed M h"
  "handler_typed M (exit_with n h) = handler_typed M h"
  "handler_typed M (crash e h) = handler_typed M h"
  "handler_typed M (take_work w h) = handler_typed M h"
  by (auto simp: handler_typed_def settings_typed_def statement_defs)

lemma timer_reset_typed: "timer_typed t \<Longrightarrow> timer_typed (timer_reset t)"
  by (simp add: timer_typed_def timer_reset_def)

lemma timer_dec_typed: "timer_typed t \<Longrightarrow> timer_dec t = Inr t' \<Longrightarrow> timer_typed t'"
  by (auto simp: timer_typed_def timer_dec_def Let_def wrap32_int32 split: if_splits)

lemma handler_typed_timer:
  "handler_typed M h \<Longrightarrow> handler_typed M (reset_timer h)"
  "handler_typed M h \<Longrightarrow> handler_typed M (tick_timer h)"
proof -
  show "handler_typed M h \<Longrightarrow> handler_typed M (reset_timer h)"
    by (simp add: handler_typed_def settings_typed_def reset_timer_def timer_reset_typed)
  show "handler_typed M (tick_timer h)" if h: "handler_typed M h"
  proof (cases "timer_dec (h_timer h)")
    case (Inr t)
    with h have "timer_typed t" using timer_dec_typed by (auto simp: handler_typed_def)
    with h Inr show ?thesis by (auto simp: tick_timer_def timer_postdec_def handler_typed_def settings_typed_def Let_def)
  next
    case (Inl e)
    with h show ?thesis by (cases "t_timeout (h_timer h) = FOREVER") (simp_all add: tick_timer_def timer_postdec_def Let_def)
  qed
qed

lemma finish_conn_opts_typed:
  assumes "finish_conn_opts h co = (es, co')" and "settings_typed h" and "conn_opts_typed co"
  shows "conn_opts_typed co'" "list_all (effect_typed M) es"
proof -
  have "conn_opts_typed (snd (finish_conn_opts h co))" "list_all (effect_typed M) (fst (finish_conn_opts h co))"
    using assms(2,3)
    by (simp_all add: finish_conn_opts_def configure_reconnect_def heartbeat_opts_def configure_ssl_def conn_opts_typed_def
        settings_typed_def Let_def)
  with assms(1) show "conn_opts_typed co'" "list_all (effect_typed M) es" by simp_all
qed

lemma start_effects_typed [simp]:
  "conn_opts_typed (basic_conn_opts h)" "list_all (effect_typed M) (show_settings h)" "list_all (effect_typed M) (show_caps caps)"
  "conn_opts_typed co \<Longrightarrow> effect_typed M (open_connection h co)"
  by (simp_all add: basic_conn_opts_def conn_opts_typed_def conn_opts_new_def show_settings_def show_caps_def open_connection_def
      list_all_iff)

subsection \<open>The contract of a typed state\<close>

text \<open>
  \<open>own\<close> is what holds of the members a handler adds to \<open>CommonHandler\<close>: it does not depend on those the common
  statements write. Then every common statement keeps the types.
\<close>

locale typed_state =
  fixes typed own :: "'a common_handler_scheme \<Rightarrow> bool" and M :: "message \<Rightarrow> bool"
  assumes typed_iff: "typed h \<longleftrightarrow> handler_typed M h \<and> own h"
    and own_effects: "own (h\<lparr>h_effects := es\<rparr>) = own h"
    and own_pending: "own (h\<lparr>h_pending := ws\<rparr>) = own h"
    and own_halt: "own (h\<lparr>h_halt := x\<rparr>) = own h"
    and own_timer: "own (h\<lparr>h_timer := t\<rparr>) = own h"
begin

lemma statements:
  "typed (act es h) \<longleftrightarrow> typed h \<and> list_all (effect_typed M) es"
  "typed (schedule d w h) \<longleftrightarrow> typed h \<and> duration_typed d"
  "typed (add_work w h) = typed h" "typed (exit_with n h) = typed h" "typed (crash e h) = typed h" "typed (take_work w h) = typed h"
proof -
  have "own (act es h) = own h" "own (schedule d w h) = own h" "own (add_work w h) = own h" "own (exit_with n h) = own h"
    "own (crash e h) = own h" "own (take_work w h) = own h"
    unfolding act_def schedule_def add_work_def exit_with_def crash_def take_work_def
    using own_effects own_pending own_halt by metis+
  then show "typed (act es h) \<longleftrightarrow> typed h \<and> list_all (effect_typed M) es"
    "typed (schedule d w h) \<longleftrightarrow> typed h \<and> duration_typed d"
    "typed (add_work w h) = typed h" "typed (exit_with n h) = typed h" "typed (crash e h) = typed h" "typed (take_work w h) = typed h"
    by (auto simp: typed_iff)
qed

lemma timers: "typed h \<Longrightarrow> typed (reset_timer h)" "typed h \<Longrightarrow> typed (tick_timer h)"
proof -
  have "own (tick_timer h) = own h"
    by (simp add: tick_timer_def crash_def own_timer own_halt split: sum.split prod.split)
  moreover have "own (reset_timer h) = own h" by (simp add: reset_timer_def own_timer)
  ultimately show "typed h \<Longrightarrow> typed (reset_timer h)" "typed h \<Longrightarrow> typed (tick_timer h)"
    by (auto simp: typed_iff handler_typed_timer)
qed

lemma block: "list_all (\<lambda>f. \<forall>h. typed h \<longrightarrow> typed (f h)) fs \<Longrightarrow> typed h \<Longrightarrow> typed (block fs h)"
  by (induction fs arbitrary: h) auto

lemma guarded: "(b \<Longrightarrow> typed h \<Longrightarrow> typed (f h)) \<Longrightarrow> typed h \<Longrightarrow> typed (guard b f h)"
  by (simp add: guard_def)

lemma printing: "typed h \<Longrightarrow> typed (print_in_format L m h)"
  by (simp add: print_in_format_def print_dict_def print_interop_view_def statements split: sum.split prod.split option.split)

lemma errors: "typed h \<Longrightarrow> typed (connection_error what h)" "typed h \<Longrightarrow> typed (transport_error what h)"
  by (auto simp: connection_error_def transport_error_def interrupted_def statements intro!: guarded)

lemma timer_tick:
  "typed h \<Longrightarrow> typed (if is_expired (h_timer h) then block [act [Log Log_info [LStr t]], exit_with 0] h
     else block [tick_timer, act [dbg [LStr u]], schedule Second Timer_event] h)"
  by (auto simp: statements intro!: block timers)

end


subsection \<open>The sender\<close>

definition sender_own :: "sender_handler \<Rightarrow> bool" where
  "sender_own s =
     (int32 (sh_count s) \<and> int32 (sh_duration_time s) \<and> int32 (sh_sent s) \<and> int32 (sh_confirmed s) \<and>
      message_typed (sh_message s) \<and> duration_typed (sh_interval s))"

definition sender_typed :: "sender_handler \<Rightarrow> bool" where
  "sender_typed s = (handler_typed message_typed s \<and> sender_own s)"

interpretation sender_type: typed_state sender_typed sender_own message_typed
  by unfold_locales (simp_all add: sender_typed_def sender_own_def)

lemma number_message_typed: "message_typed m \<Longrightarrow> message_typed (number_message n m)"
  by (cases "m_body m") (simp_all add: number_message_def message_typed_def)

lemma sender_assign_typed [simp]:
  "sender_typed s \<Longrightarrow> sender_typed (s\<lparr>h_work_q := b\<rparr>)"
  "sender_typed s \<Longrightarrow> sender_typed (s\<lparr>sh_ready := b\<rparr>)"
  "sender_typed s \<Longrightarrow> int32 n \<Longrightarrow> sender_typed (s\<lparr>sh_sent := n\<rparr>)"
  "sender_typed s \<Longrightarrow> int32 n \<Longrightarrow> sender_typed (s\<lparr>sh_confirmed := n\<rparr>)"
  "sender_typed s \<Longrightarrow> duration_typed d \<Longrightarrow> sender_typed (s\<lparr>sh_interval := d\<rparr>)"
  by (simp_all add: sender_typed_def sender_own_def handler_typed_def settings_typed_def)

lemma sender_parts: "sender_typed s \<Longrightarrow> message_typed (sh_message s) \<and> duration_typed (sh_interval s) \<and>
    int32 (sh_count s) \<and> int32 (sh_duration_time s) \<and> settings_typed s"
  by (simp add: sender_typed_def sender_own_def handler_typed_def)

lemma send_head_typed: "list_all (effect_typed M) (send_head credit s)"
  by (simp add: send_head_def)

lemma sender_send_typed: "sender_typed s \<Longrightarrow> sender_typed (sender_send L credit s)"
  unfolding sender_send_def Let_def
  by (rule sender_type.block)
    (auto simp: sender_type.statements sender_type.timers sender_type.printing send_head_typed wrap32_int32
      number_message_typed sender_parts)

lemma sender_interval_typed: "sender_typed s \<Longrightarrow> sender_typed (sender_set_interval s)"
  using sender_parts [of s] by (simp add: sender_set_interval_def Let_def sender_type.statements)

lemma sender_check_typed: "sender_typed s \<Longrightarrow> sender_typed (sender_first_check s)"
  using sender_parts [of s] by (simp add: sender_first_check_def sender_type.statements)

lemma sender_start_typed:
  assumes "sender_typed s"
  shows "sender_typed (sender_start s)"
proof -
  obtain es co where f: "finish_conn_opts s (basic_conn_opts s) = (es, co)" by (cases "finish_conn_opts s (basic_conn_opts s)")
  have "conn_opts_typed co" "list_all (effect_typed message_typed) es"
    using finish_conn_opts_typed [OF f] sender_parts [OF assms] by simp_all
  with assms show ?thesis unfolding sender_start_def f Let_def prod.case
    by (intro sender_type.block)
      (simp_all add: sender_type.statements sender_interval_typed sender_check_typed)
qed

lemma sender_step_typed:
  assumes "sender_typed s"
  shows "sender_typed (sender_step L e s)"
proof (cases e)
  case S_timer
  then show ?thesis using assms sender_type.timer_tick [of "take_work Timer_event s"]
    by (simp add: sender_timerEvent_def sender_type.statements)
next
  case (S_check credit)
  let ?t = "take_work Check_if_can_send s"
  have t: "sender_typed ?t" using assms by (simp add: sender_type.statements)
  then have "duration_typed (sh_interval ?t)" using sender_parts by blast
  with t have "sender_typed (sender_checkIfCanSend L credit ?t)"
    unfolding sender_checkIfCanSend_def
    by (auto simp: sender_type.statements sender_send_typed intro!: sender_type.block)
  with S_check show ?thesis by simp
next
  case (S_sendable credit)
  with assms show ?thesis by (auto simp: sender_sendable_def intro!: sender_type.guarded sender_send_typed)
next
  case S_accept
  with assms show ?thesis unfolding S_accept sender_step.simps sender_accept_def
    by (intro sender_type.block) (auto simp: sender_type.statements wrap32_int32 intro!: sender_type.guarded)
qed (use assms in \<open>auto simp: sender_reject_def sender_transport_error_def sender_transport_close_def sender_connection_error_def
    sender_connection_close_def sender_type.statements sender_type.errors sender_start_typed
    intro!: sender_type.block sender_type.guarded\<close>)


subsection \<open>What the options give\<close>

lemma strtol_range: "int64 (strtol s)"
  by (auto simp: strtol_def int64_def int_limits split: option.split)

lemma auto_cast_typed: "value_typed (auto_cast v)"
  by (simp add: auto_cast_def Let_def atof_def strtol_range split: prod.split)

lemma put_typed:
  "list_all (\<lambda>(k, v). value_typed v) m \<Longrightarrow> value_typed v \<Longrightarrow> list_all (\<lambda>(k, v). value_typed v) (smap_put k v m)"
  by (induction k v m rule: smap_put.induct) auto

lemma property_typed: "message_typed m \<Longrightarrow> message_typed (setMessageProperty p m)"
  by (simp add: setMessageProperty_def message_typed_def put_typed auto_cast_typed Let_def split: prod.split)

lemma properties_typed: "message_typed m \<Longrightarrow> message_typed (fold setMessageProperty ps m)"
  by (induction ps arbitrary: m) (simp_all add: property_typed)

lemma list_items_typed: "list_all value_typed vs \<Longrightarrow> list_all value_typed (fold setMessageListItem ps vs)"
proof (induction ps arbitrary: vs)
  case (Cons p ps)
  have "list_all value_typed (setMessageListItem p vs)"
    using Cons.prems by (simp add: setMessageListItem_def Let_def atof_def strtol_range split: prod.split)
  with Cons.IH show ?case by simp
qed simp

lemma map_items_typed: "list_all (\<lambda>(k, v). value_typed v) vs \<Longrightarrow> list_all (\<lambda>(k, v). value_typed v) (fold setMessageMapItem ps vs)"
proof (induction ps arbitrary: vs)
  case (Cons p ps)
  have "list_all (\<lambda>(k, v). value_typed v) (setMessageMapItem p vs)"
    using Cons.prems by (simp add: setMessageMapItem_def Let_def put_typed auto_cast_typed split: prod.split)
  with Cons.IH show ?case by simp
qed simp

lemma map_body_typed: "value_typed (VMap (map (apfst VString) (fold setMessageMapItem ps [])))"
proof -
  have "list_all (\<lambda>(k, v). value_typed v) kvs \<Longrightarrow> value_typed (VMap (map (apfst VString) kvs))" for kvs
    by (induction kvs) auto
  with map_items_typed [of "[]"] show ?thesis by simp
qed

lemma get_duration_uint64: "uint64 (get_duration options d)"
  by (auto simp: get_duration_def uint64_def int_limits split: option.split)

lemma fold_statements: "list_all (\<lambda>f. \<forall>m. P m \<longrightarrow> P (f m)) fs \<Longrightarrow> P m \<Longrightarrow> P (fold (\<lambda>f m. f m) fs m)"
  by (induction fs arbitrary: m) auto

lemma message_options_typed: "message_typed m \<Longrightarrow> message_typed (setMessageOptions options m)"
  unfolding setMessageOptions_def
proof (rule fold_statements)
  have prio: "bits 8 (v mod 256)" for v by (simp add: bits_def)
  have zero: "uint64 0" by (simp add: uint64_def int_limits)
  show "list_all (\<lambda>f. \<forall>m. message_typed m \<longrightarrow> message_typed (f m))
      [os_set options ''msg-reply-to'' (\<lambda>v m. m\<lparr>m_reply_to := v\<rparr>),
       os_set options ''msg-to'' (\<lambda>v m. m\<lparr>m_to := v\<rparr>),
       os_set options ''msg-correlation-id'' (\<lambda>v m. m\<lparr>m_correlation_id := VString v\<rparr>),
       os_set options ''msg-content-type'' (\<lambda>v m. m\<lparr>m_content_type := v\<rparr>),
       os_set options ''msg-subject'' (\<lambda>v m. m\<lparr>m_subject := v\<rparr>),
       os_set options ''msg-id'' (\<lambda>v m. m\<lparr>m_id := VString v\<rparr>),
       os_setNumber_default options ''msg-ttl'' get_duration (\<lambda>v m. m\<lparr>m_ttl := v\<rparr>) 0,
       os_set options ''msg-user-id'' (\<lambda>v m. m\<lparr>m_user := v\<rparr>),
       os_setNumber options ''msg-priority'' (\<lambda>v m. m\<lparr>m_priority := v mod 256\<rparr>),
       os_setBoolean options ''msg-durable'' (\<lambda>v m. m\<lparr>m_durable := v\<rparr>),
       os_set options ''msg-group-id'' (\<lambda>v m. m\<lparr>m_group_id := v\<rparr>),
       os_set options ''reply-to-group-id'' (\<lambda>v m. m\<lparr>m_reply_to_group_id := v\<rparr>)]"
    by (simp add: os_set_def os_setNumber_default_def os_setNumber_def os_setBoolean_def bean_set_def bean_setBoolean_def
        message_typed_def get_duration_uint64 prio zero)
qed

lemma sending_message_typed:
  assumes "sending_message p options = Inr m"
  shows "message_typed m"
proof -
  have "message_typed message_new"
    by (simp add: message_new_def message_typed_def int64_def uint64_def uint32_def bits_def int_limits)
  note start = properties_typed [OF message_options_typed [OF this]]
  from assms obtain ps m2 where body: "sending_body p options (fold setMessageProperty ps (setMessageOptions options message_new)) = Inr m2"
    and m: "m = (if is_set options ''msg-group-seq''
          then m2\<lparr>m_group_sequence := wrap32 (strtol (value_at options ''msg-group-seq''))\<rparr> else m2)"
    unfolding sending_message_def setMessageProperties_def res_bind_eq_Inr sum.inject by blast
  have "message_typed m2"
    using body start [of ps options] list_items_typed [of "[]"] map_body_typed
    by (auto simp: sending_body_def setMessageList_def setMessageMap_def setMessageText_def res_bind_eq_Inr message_typed_def
        split: if_splits)
  with m show ?thesis by (simp add: message_typed_def wrap32_int32)
qed

lemma uwrap32_uint32: "uint32 (uwrap32 x)"
  by (simp add: uwrap32_def uint32_def int_limits)

lemma client_settings_typed: "settings_typed (client_settings forever options u t)"
proof -
  have "uint32 0" "uint32 100" "uint32 UINT32_MAX" by (simp_all add: uint32_def int_limits)
  then show ?thesis
    by (simp add: client_settings_def settings_typed_def Let_def int32_option_def uint32_option_def wrap32_int32 uwrap32_uint32)
qed

lemma common_handler_new_typed:
  assumes "common_handler_new url timeout c = Inr h" and "settings_typed c" and "int32 timeout"
  shows "handler_typed M h"
  using assms
  by (auto simp: common_handler_new_def res_bind_eq_Inr handler_typed_def settings_typed_def common_handler.defs
      conn_settings.defs timer_typed_def timer_new_def)


subsection \<open>Every run of a sending client\<close>

lemma sending_client_typed:
  assumes "sending_client forever p logger = Inr cl"
  shows "sender_typed (cl_handler cl)"
proof -
  let ?o = "p_values p"
  obtain u where u: "client_uri ?o = Inr u" using assms by (auto simp: sending_client_def Let_def split: sum.splits)
  have "res_bind (sending_message p ?o) (\<lambda>msg. res_bind (sending_handler forever ?o u) (\<lambda>handler.
      Inr (sender_setCount (int_option ?o ''count'' 1) (sender_setMessage msg handler)))) = Inr (cl_handler cl)"
    using assms u by (auto simp: sending_client_def Let_def split: sum.splits)
  then obtain m s0 where m: "sending_message p ?o = Inr m" and s0: "sending_handler forever ?o u = Inr s0"
    and h: "sender_setCount (int_option ?o ''count'' 1) (sender_setMessage m s0) = cl_handler cl"
    unfolding res_bind_eq_Inr sum.inject by blast
  from s0 obtain c where c: "common_handler_new (fst (topic_address (value_at ?o ''broker-url''))) (int_option ?o ''timeout'' 1)
      (sending_settings forever ?o u) = Inr c"
    and ext: "common_handler.extend c (sender_handler.fields False 1 (int_option ?o ''duration'' 0)
      (text_option ?o ''duration-mode'' ''after-send'') 0 0 message_new Immediate) = s0"
    unfolding sending_handler_def sender_new_def res_bind_eq_Inr sum.inject by blast
  have "handler_typed message_typed c"
    using common_handler_new_typed [OF c] by (simp add: sending_settings_def client_settings_typed int_option_int32)
  then show ?thesis
    by (simp add: h [symmetric] ext [symmetric] sender_setCount_def sender_setMessage_def common_handler.defs sender_handler.defs sender_typed_def
        sender_own_def handler_typed_def settings_typed_def sending_message_typed [OF m] int_option_int32)
qed

text \<open>
  C10. The model's unbounded numbers never leave their C++ types: whatever the options are, in every state of every run
  of a sending client the settings, the time-out, the counters and the message fit the types they are declared with,
  nothing is divided by zero, and every message, connection option and duration handed to the library is well typed: a
  priority of 8 bits, a time to live of 64, numbers in properties and bodies of 64.
\<close>

theorem sender_values_typed:
  assumes "sending_client forever p logger = Inr cl"
    and "reaches (sender_step L) sender_ok (cl_handler cl) s"
  shows "sender_typed s"
  using assms(2) by (induction rule: reaches.induct) (auto intro: sending_client_typed [OF assms(1)] sender_step_typed)

lemma sender_values_typed_witness:
  "case run_events (sender_step sample_lib) sender_ok [S_start, S_check 1, S_accept] (cl_handler (projr (sending_client 0
      (sample_options [(''broker-url'', ''h/q''), (''msg-priority'', ''1000''), (''msg-ttl'', ''-1'')]) log_world_new))) of
    Some s \<Rightarrow> sender_typed s \<and> sh_confirmed s = 1 \<and> map m_priority (sent_messages (h_effects s)) = [232] | None \<Rightarrow> False"
proof -
  let ?p = "sample_options [(''broker-url'', ''h/q''), (''msg-priority'', ''1000''), (''msg-ttl'', ''-1'')]"
  let ?c = "projr (sending_client 0 ?p log_world_new)"
  let ?r = "run_events (sender_step sample_lib) sender_ok [S_start, S_check 1, S_accept] (cl_handler ?c)"
  have "\<not> isl (sending_client 0 ?p log_world_new)" by code_simp
  then have c: "sending_client 0 ?p log_world_new = Inr ?c" by (cases "sending_client 0 ?p log_world_new") simp_all
  have "case ?r of Some s \<Rightarrow> sh_confirmed s = 1 \<and> map m_priority (sent_messages (h_effects s)) = [232] | None \<Rightarrow> False"
    by code_simp
  then obtain s where s: "?r = Some s" "sh_confirmed s = 1" "map m_priority (sent_messages (h_effects s)) = [232]"
    by (cases ?r) auto
  with sender_values_typed [OF c run_events_reaches [OF s(1)]] show ?thesis unfolding s(1) by simp
qed


subsection \<open>The receiver\<close>

text \<open>The replies carry what the peer sent: their type is the library's. The cache leads every address to itself.\<close>

definition subscriber_typed :: "receiver_settings \<Rightarrow> bool" where
  "subscriber_typed r =
     (int32 (r_msg_action_size r) \<and> int32 (r_count r) \<and> int32 (r_duration_time r) \<and> int32 (r_recv_listen_port r) \<and>
      int32 (r_recv_credit_window r))"

definition receiver_own :: "receiver_handler \<Rightarrow> bool" where
  "receiver_own s =
     (subscriber_typed (rh_set s) \<and> int32 (rh_msg_received_cnt s) \<and> duration_typed (rh_interval s) \<and>
      list_all (\<lambda>(k, a). a = k) (rh_senders s))"

definition receiver_typed :: "receiver_handler \<Rightarrow> bool" where
  "receiver_typed s = (handler_typed (\<lambda>m. True) s \<and> receiver_own s)"

interpretation receiver_type: typed_state receiver_typed receiver_own "\<lambda>m. True"
  by unfold_locales (simp_all add: receiver_typed_def receiver_own_def)

lemma put_same: "list_all (\<lambda>(k, a). a = k) m \<Longrightarrow> list_all (\<lambda>(k, a). a = k) (smap_put r r m)"
  by (induction m) auto

lemma receiver_assign_typed [simp]:
  "receiver_typed s \<Longrightarrow> receiver_typed (s\<lparr>h_work_q := b\<rparr>)"
  "receiver_typed s \<Longrightarrow> receiver_typed (s\<lparr>h_cont := b\<rparr>)"
  "receiver_typed s \<Longrightarrow> receiver_typed (s\<lparr>rh_recv := b\<rparr>)"
  "receiver_typed s \<Longrightarrow> receiver_typed (s\<lparr>rh_ts := t\<rparr>)"
  "receiver_typed s \<Longrightarrow> receiver_typed (s\<lparr>rh_durable_subscriber_name := n\<rparr>)"
  "receiver_typed s \<Longrightarrow> int32 k \<Longrightarrow> receiver_typed (s\<lparr>rh_msg_received_cnt := k\<rparr>)"
  "receiver_typed s \<Longrightarrow> receiver_typed (s\<lparr>rh_senders := smap_put r r (rh_senders s)\<rparr>)"
  by (simp_all add: receiver_typed_def receiver_own_def handler_typed_def settings_typed_def put_same)

lemma receiver_parts: "receiver_typed s \<Longrightarrow> subscriber_typed (rh_set s) \<and> int32 (rh_msg_received_cnt s) \<and> settings_typed s"
  by (simp add: receiver_typed_def receiver_own_def handler_typed_def)

lemma receiver_open_typed:
  assumes "receiver_typed s" and "conn_opts_typed co"
  shows "receiver_typed (receiver_open copy caps co s)"
proof -
  have "pred_option int32 (credit_window_opt s)"
    using receiver_parts [OF assms(1)] by (simp add: credit_window_opt_def subscriber_typed_def)
  with assms show ?thesis by (simp add: receiver_open_def receiver_opts_def receiver_type.statements)
qed

lemma receiver_connect_typed:
  assumes "receiver_typed s" and "conn_opts_typed co"
  shows "receiver_typed (receiver_connect caps co s)"
  unfolding receiver_connect_def
  using assms
  by (auto simp: receiver_type.statements receiver_open_typed receiver_listen_def intro!: receiver_type.block)

lemma receiver_topic_typed: "receiver_typed s \<Longrightarrow> receiver_typed (receiver_topic uuid s)"
  unfolding receiver_topic_def
  by (rule receiver_type.block)
    (auto simp: receiver_type.statements createSubscriptionName_def Let_def intro!: receiver_type.guarded)

lemma receiver_run_typed: "receiver_typed s \<Longrightarrow> receiver_typed (receiver_run now s)"
  by (auto simp: receiver_run_def receiver_type.statements intro!: receiver_type.block)

lemma receiver_start_typed:
  assumes "receiver_typed s"
  shows "receiver_typed (receiver_start now uuid s)"
proof -
  obtain es co where f: "finish_conn_opts s (basic_conn_opts s) = (es, co)" by (cases "finish_conn_opts s (basic_conn_opts s)")
  have "conn_opts_typed co" "list_all (effect_typed (\<lambda>m. True)) es"
    using finish_conn_opts_typed [OF f] receiver_parts [OF assms] by simp_all
  with assms show ?thesis unfolding receiver_start_def f Let_def prod.case
    by (intro receiver_type.block)
      (simp_all add: receiver_type.statements receiver_topic_typed receiver_connect_typed receiver_run_typed)
qed

lemma wait_for_typed: "receiver_typed s \<Longrightarrow> receiver_typed (wait_for mode notes s)"
  using receiver_parts [of s] unfolding wait_for_def
  by (intro receiver_type.guarded) (auto simp: receiver_type.statements subscriber_typed_def list_all_iff)

lemma find_sender_typed: "receiver_typed s \<Longrightarrow> receiver_typed (find_sender r s)"
  by (auto simp: find_sender_def receiver_type.statements intro!: receiver_type.block)

lemma answer_typed: "receiver_typed s \<Longrightarrow> receiver_typed (answer m s)"
proof -
  have reply: "receiver_typed t \<Longrightarrow> receiver_typed (do_process_reply_to m t)" for t
    unfolding do_process_reply_to_def
    by (rule receiver_type.block) (simp_all add: receiver_type.statements find_sender_typed Let_def)
  then have inner: "receiver_typed t \<Longrightarrow> receiver_typed (block [act [dbg vs], do_process_reply_to m] t)" for vs t
    by (intro receiver_type.block) (simp_all add: receiver_type.statements)
  show "receiver_typed s \<Longrightarrow> ?thesis"
    unfolding answer_def
    by (rule receiver_type.block) (simp_all add: receiver_type.statements inner guard_def del: block.simps)
qed

lemma receiver_message_typed:
  assumes "receiver_typed s"
  shows "receiver_typed (receiver_message L m s)"
proof -
  have "receiver_typed (print_received L m t)" if "receiver_typed t" for t
    unfolding print_received_def
    using that by (intro receiver_type.block) (simp_all add: receiver_type.statements receiver_type.printing guard_def)
  moreover have "receiver_typed (act_on_batch t)" "receiver_typed (schedule_drain t)"
      "receiver_typed (finish_or_reset t)" if "receiver_typed t" for t
    using that
    by (auto simp: act_on_batch_def do_message_action_def schedule_drain_def finish_or_reset_def
        receiver_type.statements receiver_type.timers Let_def
        intro!: receiver_type.block receiver_type.guarded)
  ultimately show ?thesis unfolding receiver_message_def
    using assms by (intro receiver_type.block)
      (simp_all add: receiver_type.statements wrap32_int32 wait_for_typed answer_typed)
qed

lemma receiver_step_typed:
  assumes "receiver_typed s"
  shows "receiver_typed (receiver_step L e s)"
proof (cases e)
  case R_timer
  then show ?thesis using assms receiver_type.timer_tick [of "take_work Timer_event s"]
    by (simp add: receiver_timerEvent_def receiver_type.statements)
next
  case R_transport_close
  with assms show ?thesis
    by (auto simp: receiver_transport_close_def receiver_type.statements intro!: receiver_type.block)
qed (use assms in \<open>auto simp: receiver_start_typed receiver_message_typed receiver_drain_def receiver_drain_finish_def
    receiver_tracker_accept_def receiver_tracker_reject_def receiver_transport_error_def receiver_connection_close_def
    receiver_connection_error_def receiver_type.statements receiver_type.errors intro!: receiver_type.block\<close>)

lemma receiving_client_typed:
  assumes "receiving_client forever uuid p logger = Inr cl"
  shows "receiver_typed (cl_handler cl)"
proof -
  let ?o = "p_values p"
  obtain url u s0 sel where s0: "receiver_new url (int_option ?o ''timeout'' (- 1)) (receiving_settings forever ?o u)
      (subscriber_settings ?o) = Inr s0" and h: "cl_handler cl = receiver_for s0 sel"
    using receiving_client_handler [OF assms] .
  obtain c where c: "common_handler_new url (int_option ?o ''timeout'' (- 1)) (receiving_settings forever ?o u) = Inr c"
    and ext: "common_handler.extend c (receiver_handler.fields (subscriber_settings ?o) False 0 None
      (r_durable_subscriber_name (subscriber_settings ?o)) (Scaled (int_option ?o ''timeout'' (- 1)) Second) 0 []) = s0"
    using s0 unfolding receiver_new_def res_bind_eq_Inr sum.inject by blast
  have "handler_typed (\<lambda>m. True) c"
    using common_handler_new_typed [OF c] by (simp add: receiving_settings_def client_settings_typed int_option_int32)
  moreover have "subscriber_typed (subscriber_settings ?o)"
    by (simp add: subscriber_typed_def subscriber_settings_def atoi_option_def atoi_def wrap32_int32 int_option_int32)
  ultimately have "receiver_typed s0"
    by (simp add: ext [symmetric] common_handler.defs receiver_handler.defs receiver_typed_def receiver_own_def handler_typed_def
        settings_typed_def int_option_int32)
  then show ?thesis
    by (simp add: h receiver_for_def setSelector_def receiver_typed_def receiver_own_def handler_typed_def settings_typed_def
        split: option.split)
qed

text \<open>
  C11. The same of a receiver: in every state of every run, whatever arrives, the settings, the time-out, the counter of
  messages and the numbers handed to the library (a credit window, a heartbeat, what the pause between messages is
  computed from) fit their types, and the cache of senders leads every reply address to the sender opened for it.
\<close>

theorem receiver_values_typed:
  assumes "receiving_client forever uuid p logger = Inr cl"
    and "reaches (receiver_step L) receiver_ok (cl_handler cl) s"
  shows "receiver_typed s"
  using assms(2) by (induction rule: reaches.induct) (auto intro: receiving_client_typed [OF assms(1)] receiver_step_typed)


lemma receiver_values_typed_witness:
  "case run_events (receiver_step sample_lib) receiver_ok [R_start 0 ''u'', R_message (message_new\<lparr>m_reply_to := ''r''\<rparr>)]
      (cl_handler (projr (receiving_client 0 ''u''
        (sample_options [(''broker-url'', ''h/q''), (''process-reply-to'', ''1''), (''recv-credit-window'', ''4294967297'')])
        log_world_new))) of
    Some s \<Rightarrow> receiver_typed s \<and> rh_senders s = [(''r'', ''r'')] \<and> r_recv_credit_window (rh_set s) = 1 | None \<Rightarrow> False"
proof -
  let ?p = "sample_options [(''broker-url'', ''h/q''), (''process-reply-to'', ''1''), (''recv-credit-window'', ''4294967297'')]"
  let ?c = "projr (receiving_client 0 ''u'' ?p log_world_new)"
  let ?r = "run_events (receiver_step sample_lib) receiver_ok [R_start 0 ''u'', R_message (message_new\<lparr>m_reply_to := ''r''\<rparr>)] (cl_handler ?c)"
  have "\<not> isl (receiving_client 0 ''u'' ?p log_world_new)" by code_simp
  then have c: "receiving_client 0 ''u'' ?p log_world_new = Inr ?c"
    by (cases "receiving_client 0 ''u'' ?p log_world_new") simp_all
  have "case ?r of Some s \<Rightarrow> rh_senders s = [(''r'', ''r'')] \<and> r_recv_credit_window (rh_set s) = 1 | None \<Rightarrow> False"
    by code_simp
  then obtain s where s: "?r = Some s" "rh_senders s = [(''r'', ''r'')]" "r_recv_credit_window (rh_set s) = 1"
    by (cases ?r) auto
  with receiver_values_typed [OF c run_events_reaches [OF s(1)]] show ?thesis unfolding s(1) by simp
qed

subsection \<open>The connector\<close>

text \<open>The objects asked for are four bits; the count may not have been set.\<close>

definition connector_own :: "connector_handler \<Rightarrow> bool" where
  "connector_own s = (pred_option int32 (ch_count s) \<and> bits 4 (ch_objectControl s))"

definition connector_typed :: "connector_handler \<Rightarrow> bool" where
  "connector_typed s = (handler_typed (\<lambda>m. False) s \<and> connector_own s)"

interpretation connector_type: typed_state connector_typed connector_own "\<lambda>m. False"
  by unfold_locales (simp_all add: connector_typed_def connector_own_def)

lemma connector_assign_typed [simp]:
  "connector_typed (s\<lparr>h_work_q := b\<rparr>) = connector_typed s" "connector_typed (s\<lparr>ch_conn := b\<rparr>) = connector_typed s"
  "connector_typed (s\<lparr>ch_session := b\<rparr>) = connector_typed s" "connector_typed (s\<lparr>ch_sender := b\<rparr>) = connector_typed s"
  "connector_typed (s\<lparr>ch_receiver := b\<rparr>) = connector_typed s"
  by (simp_all add: connector_typed_def connector_own_def handler_typed_def settings_typed_def)

lemma effect_typed_tr [simp]: "effect_typed M (tr t)"
  by (simp add: tr_def)

lemma connector_settings: "connector_typed s \<Longrightarrow> settings_typed s"
  by (simp add: connector_typed_def handler_typed_def)

lemma closeObjects_typed: "connector_typed s \<Longrightarrow> connector_typed (closeObjects s)"
proof -
  have "connector_typed (close_receiver t)" "connector_typed (close_sender t)" "connector_typed (close_session t)"
    "connector_typed (close_connection t)" if "connector_typed t" for t
    using that
    by (simp_all add: close_receiver_def close_sender_def close_session_def close_connection_def guard_def connector_type.statements)
  then show "connector_typed s \<Longrightarrow> ?thesis" unfolding closeObjects_def by (intro connector_type.block) simp_all
qed

lemma connector_start_typed:
  assumes "connector_typed s"
  shows "connector_typed (connector_start s)"
proof -
  let ?co = "(basic_conn_opts s)\<lparr>co_max_frame_size := Some (c_max_frame_size s)\<rparr>"
  obtain es co where f: "finish_conn_opts s ?co = (es, co)" by (cases "finish_conn_opts s ?co")
  have "conn_opts_typed ?co"
    using connector_settings [OF assms] start_effects_typed(1) [of s] by (simp add: conn_opts_typed_def settings_typed_def)
  from finish_conn_opts_typed [OF f connector_settings [OF assms] this] assms show ?thesis
    unfolding connector_start_def f Let_def prod.case
    by (intro connector_type.block) (simp_all add: connector_type.statements)
qed

lemma connector_open_typed: "connector_typed s \<Longrightarrow> connector_typed (connector_open s)"
  unfolding connector_open_def
  by (rule connector_type.block)
    (simp_all add: connector_type.statements open_session_def open_sender_def open_receiver_def guard_def)

lemma connector_timer_typed: "connector_typed s \<Longrightarrow> connector_typed (connector_timerEvent s)"
  by (auto simp: connector_timerEvent_def connector_type.statements closeObjects_typed connector_type.timers
      intro!: connector_type.block)

lemma connector_step_typed: "connector_typed s \<Longrightarrow> connector_typed (connector_step e s)"
  by (cases e)
    (auto simp: connector_start_typed connector_open_typed connector_timer_typed connector_connection_close_def
      connector_connection_error_def connector_transport_error_def connector_transport_close_def connector_session_error_def
      interrupted_def closeObjects_typed connector_type.statements connector_type.errors
      intro!: connector_type.block connector_type.guarded)

lemma control_four_bits: "bits 4 (setConnectionOptions options)"
  by (simp add: setConnectionOptions_def Let_def bits_def)

lemma connecting_client_typed:
  assumes "connecting_client forever p logger = Inr cl"
  shows "connector_typed (cl_handler cl)"
proof -
  let ?o = "p_values p"
  obtain u where "connecting_handler forever ?o u = Inr (cl_handler cl)"
    using assms by (auto simp: connecting_client_def Let_def split: sum.splits)
  then obtain s0 where s0: "connector_new (fst (topic_address (value_at ?o ''broker-url''))) (int_option ?o ''timeout'' 0)
        (connecting_settings forever ?o u) = Inr s0"
    and h: "setObjectControl (setConnectionOptions ?o) (setMessageHandlerOptions ?o s0) = cl_handler cl"
    unfolding connecting_handler_def res_bind_eq_Inr sum.inject by blast
  obtain c where c: "common_handler_new (fst (topic_address (value_at ?o ''broker-url''))) (int_option ?o ''timeout'' 0)
      (connecting_settings forever ?o u) = Inr c"
    and ext: "common_handler.extend (act [dbg [LStr ''Initializing the connector handler''],
             dbg [LStr ''Using connection config file: '', LBool (c_use_config_file c)]] c)
       (connector_handler.fields None (control_bit CONNECTION) False False False False) = s0"
    using s0 unfolding connector_new_def res_bind_eq_Inr sum.inject by blast
  have "handler_typed (\<lambda>m. False) c"
    using common_handler_new_typed [OF c] by (simp add: connecting_settings_def client_settings_typed int_option_int32)
  then have s: "handler_typed (\<lambda>m. False) s0"
    by (simp add: ext [symmetric] common_handler.defs act_def handler_typed_def settings_typed_def)
  have n: "int32 (get_int ?o ''count'')" if "is_set ?o ''count''"
    using int_option_int32 [of 0 ?o "''count''"] that by (simp add: int_option_def)
  from s show ?thesis
    unfolding h [symmetric]
    by (auto simp: setObjectControl_def setMessageHandlerOptions_def os_setNumber_default_def bean_set_def connector_setCount_def
        connector_typed_def connector_own_def handler_typed_def settings_typed_def control_four_bits n)
qed

text \<open>A connecting client never sends, and what it opens and closes is told by four bits.\<close>

lemma connector_values_typed:
  assumes "connecting_client forever p logger = Inr cl"
    and "reaches connector_step connector_ok (cl_handler cl) s"
  shows "connector_typed s"
  using assms(2) by (induction rule: reaches.induct) (auto intro: connecting_client_typed [OF assms(1)] connector_step_typed)

end
