(* ===== verification/ParserApi.thy ===== *)
theory ParserApi
  imports OptLaws
begin

text \<open>
  The rest of the interface of \<open>OptionParser\<close> (src/src/contrib/optparse): the chained setters, the conversions of
  \<open>Value\<close> the clients do not use, printing, and the two modes for arguments between options.
\<close>

subsection \<open>Setters\<close>

text \<open>Each returns the parser, so a chain of calls is a composition; \<open>set_defaults\<close> of a number writes it to a stream.\<close>

definition set_version :: "string \<Rightarrow> opt_parser \<Rightarrow> opt_parser" where
  "set_version v p = p\<lparr>p_version := v\<rparr>"

definition set_description :: "string \<Rightarrow> opt_parser \<Rightarrow> opt_parser" where
  "set_description d p = p\<lparr>p_description := d\<rparr>"

definition set_add_help_option :: "bool \<Rightarrow> opt_parser \<Rightarrow> opt_parser" where
  "set_add_help_option h p = p\<lparr>p_add_help := h\<rparr>"

definition set_add_version_option :: "bool \<Rightarrow> opt_parser \<Rightarrow> opt_parser" where
  "set_add_version_option v p = p\<lparr>p_add_version := v\<rparr>"

definition set_prog :: "string \<Rightarrow> opt_parser \<Rightarrow> opt_parser" where
  "set_prog s p = p\<lparr>p_prog := s\<rparr>"

definition set_epilog :: "string \<Rightarrow> opt_parser \<Rightarrow> opt_parser" where
  "set_epilog e p = p\<lparr>p_epilog := e\<rparr>"

definition set_defaults_int :: "string \<Rightarrow> int \<Rightarrow> opt_parser \<Rightarrow> opt_parser" where
  "set_defaults_int dest t p = p\<lparr>p_defaults := smap_put dest (show_int t) (p_defaults p)\<rparr>"

definition enable_interspersed_args :: "opt_parser \<Rightarrow> opt_parser" where
  "enable_interspersed_args p = p\<lparr>p_interspersed := True\<rparr>"

definition disable_interspersed_args :: "opt_parser \<Rightarrow> opt_parser" where
  "disable_interspersed_args p = p\<lparr>p_interspersed := False\<rparr>"

definition parser_args :: "opt_parser \<Rightarrow> string list" where
  "parser_args p = p_leftover p"

definition print_help :: "opt_parser \<Rightarrow> string result" where
  "print_help p = format_help p"

definition print_version :: "opt_parser \<Rightarrow> string" where
  "print_version p = get_version p @ newline"

subsection \<open>Conversions\<close>

text \<open>An unsigned type of \<open>w\<close> bits reads a minus sign, too: the magnitude has to fit, and is negated in the type.\<close>

definition extract_unsigned :: "nat \<Rightarrow> string \<Rightarrow> int option" where
  "extract_unsigned w s = (case scan_int s of None \<Rightarrow> None | Some v \<Rightarrow> if \<bar>v\<bar> < 2 ^ w then Some (v mod 2 ^ w) else None)"

definition value_read :: "(string \<Rightarrow> int option) \<Rightarrow> opt_values \<Rightarrow> string \<Rightarrow> int" where
  "value_read conv v d =
     (if is_set v d then (case conv (value_at v d) of Some t \<Rightarrow> t | None \<Rightarrow> 0) else 0)"

definition get_short :: "opt_values \<Rightarrow> string \<Rightarrow> int" where
  "get_short = value_read (extract_in (- (2 ^ 15)) (2 ^ 15 - 1))"

definition get_ushort :: "opt_values \<Rightarrow> string \<Rightarrow> int" where
  "get_ushort = value_read (extract_unsigned 16)"

definition get_uint :: "opt_values \<Rightarrow> string \<Rightarrow> int" where
  "get_uint = value_read (extract_unsigned 32)"

definition get_long :: "opt_values \<Rightarrow> string \<Rightarrow> int" where
  "get_long = value_read extract_long"

definition get_ulong :: "opt_values \<Rightarrow> string \<Rightarrow> int" where
  "get_ulong = value_read (extract_unsigned 64)"

lemma value_read_int: "get_int = value_read extract_int"
  by (simp add: fun_eq_iff get_int_def value_read_def)

text \<open>A number written as a default is read back by every type it fits, and as 0 by a signed type it does not fit.\<close>

lemma extract_in_show_int: "extract_in lo hi (show_int n) = (if lo \<le> n \<and> n \<le> hi then Some n else None)"
  by (simp add: extract_in_def)

lemma extract_unsigned_show_int: "extract_unsigned w (show_int n) = (if \<bar>n\<bar> < 2 ^ w then Some (n mod 2 ^ w) else None)"
  by (simp add: extract_unsigned_def)

lemma defaults_read_back:
  assumes "p_defaults p = []"
    and v_def: "v = apply_defaults (p_defaults (set_defaults_int d n p)) values_new"
  shows "get_short v d = (if - (2 ^ 15) \<le> n \<and> n < 2 ^ 15 then n else 0)"
    and "get_int v d = (if int32 n then n else 0)"
    and "get_long v d = (if LONG_MIN \<le> n \<and> n \<le> LONG_MAX then n else 0)"
    and "get_ushort v d = (if \<bar>n\<bar> < 2 ^ 16 then n mod 2 ^ 16 else 0)"
    and "get_uint v d = (if \<bar>n\<bar> < 2 ^ 32 then n mod 2 ^ 32 else 0)"
    and "get_ulong v d = (if \<bar>n\<bar> < 2 ^ 64 then n mod 2 ^ 64 else 0)"
proof -
  have v: "is_set v d" "value_at v d = show_int n"
    by (simp_all add: v_def set_defaults_int_def assms(1) apply_defaults_def default_if_unset_def values_new_def is_set_def
        value_at_def put_value_def smap_get_def)
  show "get_short v d = (if - (2 ^ 15) \<le> n \<and> n < 2 ^ 15 then n else 0)"
    and "get_int v d = (if int32 n then n else 0)"
    and "get_long v d = (if LONG_MIN \<le> n \<and> n \<le> LONG_MAX then n else 0)"
    and "get_ushort v d = (if \<bar>n\<bar> < 2 ^ 16 then n mod 2 ^ 16 else 0)"
    and "get_uint v d = (if \<bar>n\<bar> < 2 ^ 32 then n mod 2 ^ 32 else 0)"
    and "get_ulong v d = (if \<bar>n\<bar> < 2 ^ 64 then n mod 2 ^ 64 else 0)"
    by (simp_all add: get_short_def get_ushort_def get_uint_def get_long_def get_ulong_def value_read_int value_read_def v
        extract_unsigned_show_int extract_in_show_int extract_int_def extract_long_def int32_def)
qed

subsection \<open>Arguments between options\<close>

definition positional :: "string \<Rightarrow> bool" where
  "positional a = (a = ''-'' \<or> take 1 a \<noteq> ''-'')"

lemma names_keep:
  "p_interspersed (snd (snd (add_names i nms (opt, fb, p)))) = p_interspersed p \<and>
   p_leftover (snd (snd (add_names i nms (opt, fb, p)))) = p_leftover p \<and>
   p_remaining (snd (snd (add_names i nms (opt, fb, p)))) = p_remaining p"
proof (induction nms arbitrary: opt fb p)
  case (Cons n nms)
  obtain opt1 fb1 p1 where a: "add_name i n (opt, fb, p) = (opt1, fb1, p1)" by (cases "add_name i n (opt, fb, p)")
  then have "p_interspersed p1 = p_interspersed p \<and> p_leftover p1 = p_leftover p \<and> p_remaining p1 = p_remaining p"
    by (auto simp: add_name_def Let_def split: if_splits)
  with Cons.IH [of opt1 fb1 p1] a show ?case by (simp add: add_names_def)
qed (simp add: add_names_def)

lemma declared_keeps:
  "p_interspersed (declare_option d p) = p_interspersed p" "p_leftover (declare_option d p) = p_leftover p"
  "p_remaining (declare_option d p) = p_remaining p"
  using names_keep [of "p_next p" "fst d" opt_new "''''" p]
  by (auto simp: declare_option_def add_option_def Let_def split: prod.splits)

lemma builtin_keeps: "p_interspersed (add_builtin p) = p_interspersed p" "p_leftover (add_builtin p) = p_leftover p"
    "p_remaining (add_builtin p) = p_remaining p"
proof -
  have "p_interspersed (splice_front q) = p_interspersed q" "p_leftover (splice_front q) = p_leftover q"
    "p_remaining (splice_front q) = p_remaining q" for q by (simp_all add: splice_front_def)
  then show "p_interspersed (add_builtin p) = p_interspersed p" "p_leftover (add_builtin p) = p_leftover p"
    "p_remaining (add_builtin p) = p_remaining p" by (simp_all add: add_builtin_def Let_def declared_keeps)
qed

text \<open>
  Without interspersed arguments the first argument that is not an option ends the options: it and everything behind it
  are left over, options included. With or without them, so does \<open>--\<close>, which is dropped itself.
\<close>

lemma disabled_interspersed:
  assumes "positional a"
  shows "\<exists>q. parse_args (a # rest) (disable_interspersed_args p) = Inr q \<and> parser_args q = p_leftover p @ a # rest"
proof -
  let ?p = "add_builtin ((disable_interspersed_args p)\<lparr>p_remaining := a # rest\<rparr>)"
  have k: "p_remaining ?p = a # rest" "\<not> p_interspersed ?p" "p_leftover ?p = p_leftover p"
    by (simp_all add: builtin_keeps disable_interspersed_args_def)
  have "take 2 a \<noteq> ''--''" "\<not> (take 1 a = ''-'' \<and> 1 < length a)" "a \<noteq> ''--''"
    using assms by (auto simp: positional_def take_Suc split: if_splits) (cases a; simp)+
  then have "parse_loop ?p = Inr (?p\<lparr>p_remaining := rest, p_leftover := p_leftover ?p @ [a]\<rparr>)"
    using k by (subst parse_loop.simps) auto
  then show ?thesis by (simp add: parse_args_def parser_args_def take_rest_def k Let_def)
qed

lemma double_dash_ends:
  "\<exists>q. parse_args (''--'' # rest) p = Inr q \<and> parser_args q = p_leftover p @ rest"
proof -
  let ?p = "add_builtin (p\<lparr>p_remaining := ''--'' # rest\<rparr>)"
  have k: "p_remaining ?p = ''--'' # rest" "p_leftover ?p = p_leftover p" by (simp_all add: builtin_keeps)
  then have "parse_loop ?p = Inr (?p\<lparr>p_remaining := rest\<rparr>)" by (subst parse_loop.simps) simp
  then show ?thesis by (simp add: parse_args_def parser_args_def take_rest_def k Let_def)
qed

end
