(* ===== verification/Exceptions.thy ===== *)
theory Exceptions
  imports ClientM
begin

text \<open>
  The exception classes of the program (src/src/common/exceptions): \<open>BaseException\<close> and the two classes derived from it.
  An object is its message and the class it was made as; \<open>exn_object\<close> is the object behind a value of the model's error
  type. None of the classes is a \<open>std::exception\<close>.
\<close>

datatype exn_class = BaseException | IOException | TimerExpiredException

record exn_object =
  ex_class :: exn_class
  ex_message :: string

definition base_exception_default :: exn_object where
  "base_exception_default = \<lparr>ex_class = BaseException, ex_message = ''''\<rparr>"

definition base_exception_new :: "string \<Rightarrow> exn_object" where
  "base_exception_new m = \<lparr>ex_class = BaseException, ex_message = m\<rparr>"

text \<open>The copy constructor takes the message of an object of any class: the copy is a \<open>BaseException\<close>.\<close>

definition base_exception_copy :: "exn_object \<Rightarrow> exn_object" where
  "base_exception_copy other = \<lparr>ex_class = BaseException, ex_message = ex_message other\<rparr>"

definition setMessage_exn :: "string \<Rightarrow> exn_object \<Rightarrow> exn_object" where
  "setMessage_exn m x = x\<lparr>ex_message := m\<rparr>"

definition getMessage_exn :: "exn_object \<Rightarrow> string" where
  "getMessage_exn x = ex_message x"

definition assign_exn :: "exn_object \<Rightarrow> exn_object \<Rightarrow> exn_object" where
  "assign_exn x rhs = setMessage_exn (getMessage_exn rhs) x"

definition io_exception_new :: "string \<Rightarrow> exn_object" where
  "io_exception_new m = (base_exception_new m)\<lparr>ex_class := IOException\<rparr>"

definition timer_expired_new :: "string \<Rightarrow> exn_object" where
  "timer_expired_new m = (base_exception_new m)\<lparr>ex_class := TimerExpiredException\<rparr>"

fun exn_object_of :: "cpp_exn \<Rightarrow> exn_object option" where
  "exn_object_of (Io_exception m) = Some (io_exception_new m)"
| "exn_object_of (Timer_expired m) = Some (timer_expired_new m)"
| "exn_object_of _ = None"

text \<open>
  The handlers and clients catch \<open>std::exception\<close> only, so an exception of one of these classes always ends the
  program: \<open>client_end\<close> gives no exit status for it.
\<close>

lemma own_exceptions_uncaught:
  assumes "h_halt h = Some (Crashed e)" and "exn_object_of e \<noteq> None"
  shows "client_end h = Uncaught e"
  using assms by (cases e) (simp_all add: client_end_def)

lemma assigned_message: "getMessage_exn (assign_exn x rhs) = getMessage_exn rhs \<and> ex_class (assign_exn x rhs) = ex_class x"
  by (simp add: assign_exn_def setMessage_exn_def getMessage_exn_def)

text \<open>The timer's exception is the one its decrement throws, with the timer's name in the message.\<close>

lemma timer_exception_message:
  "timer_dec t = Inl e \<Longrightarrow> exn_object_of e = Some (timer_expired_new (''The timer '' @ t_name t @ '' has expired''))"
  by (auto simp: timer_dec_def Let_def split: if_splits)

end
