(* ===== verification/TestSupport.thy ===== *)
theory TestSupport
  imports OptionsH
begin

text \<open>
  The helpers of the unit tests (src/src/common/TestUtils.cpp), and the unit tests of the repository run on the model. A
  \<open>const char *\<close> is the array it points to, its terminating null byte included: reading past the end is \<open>Bad_access\<close>.
  The second component of a result is what is written to \<open>stderr\<close>.
\<close>

subsection \<open>Comparing strings\<close>

definition c_text :: "string \<Rightarrow> string" where
  "c_text s = takeWhile (\<lambda>c. c \<noteq> CHR 0x00) s"

definition c_str :: "string \<Rightarrow> string" where
  "c_str s = s @ [CHR 0x00]"

fun strncmp_differs :: "nat \<Rightarrow> string \<Rightarrow> string \<Rightarrow> bool result" where
  "strncmp_differs 0 e a = Inr False"
| "strncmp_differs (Suc n) (x # e) (y # a) =
     (if x \<noteq> y then Inr True else if x = CHR 0x00 then Inr False else strncmp_differs n e a)"
| "strncmp_differs (Suc n) e a = Inl Bad_access"

definition RESET :: string where
  "RESET = CHR 0x1B # ''[00m''"

definition UNDERLINE :: string where
  "UNDERLINE = CHR 0x1B # ''[04m''"

text \<open>The loop that prints the characters of \<open>actual\<close>, the wrong ones marked.\<close>

fun mark_loop :: "nat \<Rightarrow> string \<Rightarrow> string \<Rightarrow> string result" where
  "mark_loop 0 e a = Inr ''''"
| "mark_loop (Suc n) (x # e) (y # a) =
     res_bind (mark_loop n e a) (\<lambda>t. Inr ((if x = y then [y] else UNDERLINE @ [y]) @ t))"
| "mark_loop (Suc n) e a = Inl Bad_access"

definition assertEquals_size :: "string \<Rightarrow> string \<Rightarrow> nat \<Rightarrow> (bool \<times> string) result" where
  "assertEquals_size expected actual n =
     res_bind (strncmp_differs n expected actual) (\<lambda>differs.
       if differs
       then res_bind (mark_loop n expected actual) (\<lambda>t.
              Inr (False, ''The strings are different'' @ newline @ ''E: '' @ c_text expected @ newline @ ''A: '' @ t @ RESET @ newline))
       else Inr (True, RESET @ newline))"

definition assertEquals :: "string \<Rightarrow> string \<Rightarrow> (bool \<times> string) result" where
  "assertEquals expected actual = assertEquals_size expected actual (length (c_text expected))"

text \<open>
  The file system is the argument \<open>files\<close>, and \<open>memory\<close> tells whether \<open>malloc\<close> succeeds. \<open>fread\<close> leaves the zeros
  of the buffer behind a file that is too short. Both labels are reached from above as well: \<open>fclose\<close> is called on the
  null pointer when the file could not be opened.
\<close>

definition assertFileContent :: "(string \<Rightarrow> string option) \<Rightarrow> bool \<Rightarrow> string \<Rightarrow> string \<Rightarrow> nat \<Rightarrow> (bool \<times> string) result" where
  "assertFileContent files memory filename expected n =
     (if \<not> memory then Inr (False, ''Unable to allocate '' @ show_int (int n) @ '' bytes for memory buffer'')
      else case files filename of
        None \<Rightarrow> Inl Bad_access
      | Some content \<Rightarrow>
          let buffer = take n content @ replicate (n + 1 - length (take n content)) (CHR 0x00)
          in res_bind (assertEquals_size expected buffer n) (\<lambda>(ok, err). Inr (ok, err)))"

lemma c_text_c_str [simp]: "CHR 0x00 \<notin> set s \<Longrightarrow> c_text (c_str s) = s"
  by (induction s) (auto simp: c_text_def c_str_def)

lemma length_c_str [simp]: "length (c_str s) = Suc (length s)"
  by (simp add: c_str_def)

lemma strncmp_prefix:
  "CHR 0x00 \<notin> set e \<Longrightarrow> CHR 0x00 \<notin> set a \<Longrightarrow>
     strncmp_differs (length e) (c_str e) (c_str a) = Inr (\<not> prefix e a)"
proof (induction e arbitrary: a)
  case (Cons x e)
  then show ?case by (cases a) (auto simp: c_str_def)
qed simp

lemma mark_loop_ends: "mark_loop n e a = Inl Bad_access \<or> n \<le> length e \<and> n \<le> length a"
  by (induction n e a rule: mark_loop.induct) (auto simp: res_bind_def split: sum.split)

lemma mark_loop_ok: "n \<le> length e \<Longrightarrow> n \<le> length a \<Longrightarrow> \<exists>t. mark_loop n e a = Inr t"
  by (induction n e a rule: mark_loop.induct) auto

text \<open>
  \<open>assertEquals\<close> compares as many characters as the expected text has: a text that only begins with it passes too,
  and any text passes for the empty one. When the texts differ and the actual one is shorter by more than one
  character, printing it reads past its end.
\<close>

theorem assertEquals_prefix:
  assumes "CHR 0x00 \<notin> set e" and "CHR 0x00 \<notin> set a"
  shows "assertEquals (c_str e) (c_str a) = Inr (True, RESET @ newline) \<longleftrightarrow> prefix e a"
    and "assertEquals (c_str e) (c_str a) = Inl Bad_access \<longleftrightarrow> \<not> prefix e a \<and> length a + 1 < length e"
proof -
  note cmp = strncmp_prefix [OF assms] c_text_c_str [OF assms(1)]
  have over: "mark_loop (length e) (c_str e) (c_str a) = Inl Bad_access \<longleftrightarrow> length a + 1 < length e"
    "(\<exists>t. mark_loop (length e) (c_str e) (c_str a) = Inr t) \<longleftrightarrow> length e \<le> length a + 1"
    using mark_loop_ends [of "length e" "c_str e" "c_str a"] mark_loop_ok [of "length e" "c_str e" "c_str a"]
    by (cases "length e \<le> length a + 1", auto)+
  have "assertEquals (c_str e) (c_str a) = Inr (True, RESET @ newline) \<longleftrightarrow> prefix e a"
    by (cases "mark_loop (length e) (c_str e) (c_str a)") (auto simp: assertEquals_def assertEquals_size_def cmp)
  moreover have "assertEquals (c_str e) (c_str a) = Inl Bad_access \<longleftrightarrow> \<not> prefix e a \<and> length a + 1 < length e"
    using over by (auto simp: assertEquals_def assertEquals_size_def cmp)
  ultimately show "assertEquals (c_str e) (c_str a) = Inr (True, RESET @ newline) \<longleftrightarrow> prefix e a"
    and "assertEquals (c_str e) (c_str a) = Inl Bad_access \<longleftrightarrow> \<not> prefix e a \<and> length a + 1 < length e" by auto
qed

text \<open>A file that cannot be opened is not reported as a failed test: the null pointer is closed.\<close>

lemma missing_file_crashes: "files name = None \<Longrightarrow> assertFileContent files True name expected n = Inl Bad_access"
  by (simp add: assertFileContent_def)


subsection \<open>The unit tests\<close>

text \<open>
  The programs of src/src/common/test and the directories beside it, with their exit status; what they print is left out.
  \<open>passes\<close> is an assertion that did not fail.
\<close>

definition passes :: "(bool \<times> string) result \<Rightarrow> bool" where
  "passes r = (case r of Inr (ok, _) \<Rightarrow> ok | Inl _ \<Rightarrow> False)"

definition eq_c :: "string \<Rightarrow> string \<Rightarrow> bool" where
  "eq_c expected actual = passes (assertEquals (c_str expected) (c_str actual))"

definition testSplitEmpty :: int where
  "testSplitEmpty = (let vec = split '''' '';'' in if eq_c '''' (vec ! 0) then 0 else 1)"

definition testSplitSingle :: int where
  "testSplitSingle = (let vec = split ''abc'' '';'' in if eq_c ''abc'' (vec ! 0) then 0 else 1)"

definition testSplitMultiple :: int where
  "testSplitMultiple =
     (let vec = split ''abc;123;456;764'' '';''
      in if eq_c ''abc'' (vec ! 0) \<and> eq_c ''123'' (vec ! 1) \<and> eq_c ''456'' (vec ! 2) \<and> eq_c ''764'' (vec ! 3) then 0 else 1)"

definition at_key :: "(string, string) smap \<Rightarrow> string \<Rightarrow> string" where
  "at_key m k = (case smap_get m k of Some v \<Rightarrow> v | None \<Rightarrow> '''')"

definition testConvertToMap :: int where
  "testConvertToMap =
     (let vec = split ''key1=123;key2=764;key3=999;key4=longervalue'' '';''
      in case convert_properties id ''='' vec [] of
           Inl _ \<Rightarrow> 1
         | Inr properties \<Rightarrow>
             if eq_c ''123'' (at_key properties ''key1'') \<and> eq_c ''764'' (at_key properties ''key2'') \<and>
                eq_c ''999'' (at_key properties ''key3'') \<and> eq_c ''longervalue'' (at_key properties ''key4'') then 0 else 1)"

definition stlutils_main :: int where
  "stlutils_main =
     (if testSplitMultiple \<noteq> 0 then testSplitMultiple
      else if testSplitSingle \<noteq> 0 then testSplitSingle
      else if testSplitEmpty \<noteq> 0 then testSplitEmpty
      else if testConvertToMap \<noteq> 0 then testConvertToMap else 0)"

record FakeBean =
  stringProperty :: string
  booleanProperty :: bool
  intProperty :: int
  mapProperty :: "(string, string) smap"
  listProperty :: "string list"

definition beanutils_main :: "FakeBean \<Rightarrow> int" where
  "beanutils_main fakeBean =
     (let b1 = bean_set ''testString'' (\<lambda>v b. b\<lparr>stringProperty := v\<rparr>) fakeBean
      in if \<not> eq_c ''testString'' (stringProperty b1) then 1
         else let b2 = bean_set 6589 (\<lambda>v b. b\<lparr>intProperty := v\<rparr>) b1
              in if intProperty b2 \<noteq> 6589 then 1
                 else let b3 = bean_set False (\<lambda>v b. b\<lparr>booleanProperty := v\<rparr>) b2
                      in if False \<noteq> booleanProperty b3 then 1 else 0)"

text \<open>The test's parser has one option; its bean is the map it holds.\<close>

definition options_main :: "string list \<Rightarrow> opt_stop + int" where
  "options_main argv =
     (case parse_argv argv (declare_option ([''-m'', ''--map''], [Dest ''map'', Help ''sample-map'']) (parser_new None)) of
        Inl e \<Rightarrow> Inl e
      | Inr p \<Rightarrow>
          (case os_setMap (p_values p) ''map'' (\<lambda>v m. v) '';'' '':'' [] of
             Inl e \<Rightarrow> Inl (Throw e)
           | Inr m \<Rightarrow> Inr (if length m \<noteq> 2 then 1 else if at_key m ''country1'' \<noteq> ''Bahamas'' then 1
                else if at_key m ''country2'' \<noteq> ''Czech Republic'' then 1 else 0)))"

definition printer_main :: int where
  "printer_main =
     (let written = pr_out (print_str ''This is a test'' (printer_new ''''));
          files = [''printer-test.log'' \<mapsto> written]
      in if passes (assertFileContent files True ''printer-test.log'' (c_str ''This is a test'') 14) then 0 else 1)"

definition logger_main :: int where
  "logger_main =
     (let w = log_line Log_info [LStr ''This is a test''] (init_logger Log_info log_world_new);
          message = ''[info ]: This is a test'' @ newline;
          files = [''ut_logger_test.log'' \<mapsto> lw_out w]
      in if passes (assertFileContent files True ''ut_logger_test.log'' (c_str message) (length message)) then 0 else 1)"

definition logger_stdout_text :: string where
  "logger_stdout_text =
     lw_out (log_line Log_debug [LStr ''And a debug after the error message'']
       (log_line Log_error [LStr ''And another log message'']
         (log_line Log_info [LStr ''This is another log message'']
           (log_line Log_trace [LStr ''This shall not appear'']
             (log_line Log_debug [LStr ''This is a test''] (init_logger Log_debug log_world_new))))))"

text \<open>Every unit test of the repository passes on the model.\<close>

theorem unit_tests_pass:
  "stlutils_main = 0 \<and> beanutils_main b = 0 \<and>
   options_main [''ut_options_test'', ''--map'', ''country1:Bahamas;country2:Czech Republic''] = Inr 0 \<and>
   printer_main = 0 \<and> logger_main = 0 \<and>
   logger_stdout_text = ''[debug]: This is a test'' @ newline @ ''[info ]: This is another log message'' @ newline @
     ''[error]: And another log message'' @ newline @ ''[debug]: And a debug after the error message'' @ newline"
proof (intro conjI)
  have "eq_c ''testString'' ''testString''" by code_simp
  then show "beanutils_main b = 0" by (simp add: beanutils_main_def bean_set_def)
qed (code_simp+)

end
