(* ===== verification/Formats.thy ===== *)
theory Formats
  imports UtilsM LoggerM SendingM
begin

text \<open>
  The rest of Utils.cpp (src/src/common): the clock, and what nothing calls, the unbuffered streams and \<open>str_fmt\<close>, which
  hands a text to \<open>sprintf\<close> with one \<open>int\<close>. What C leaves undefined, a conversion that does not take an \<open>int\<close>, a second
  one, a \<open>%\<close> that nothing follows, and a text longer than the buffer, is \<open>Bad_access\<close>.
\<close>

subsection \<open>The clock and the streams\<close>

text \<open>The members of \<open>timeb\<close> as \<open>ftime\<close> fills them.\<close>

definition get_time :: "int \<Rightarrow> int \<Rightarrow> rat" where
  "get_time ts_time ts_millitm = of_int (ts_time mod 2 ^ 64) + of_int ts_millitm / 1000"

record std_streams =
  cout_unitbuf :: bool
  cerr_unitbuf :: bool

definition set_stdx_unbuffered :: "std_streams \<Rightarrow> std_streams" where
  "set_stdx_unbuffered s = s\<lparr>cout_unitbuf := True, cerr_unitbuf := True\<rparr>"

lemma get_time_order:
  assumes "0 \<le> t" and "t < t'" and "t' < 2 ^ 64" and "0 \<le> ms" and "ms < 1000" and "0 \<le> ms'"
  shows "get_time t ms < get_time t' ms'"
proof -
  have "of_int ms / 1000 < (1 :: rat)" using assms(5) by simp
  moreover have "of_int t + 1 \<le> (of_int t' :: rat)" using assms(2) by (metis of_int_1 of_int_add of_int_le_iff zless_imp_add1_zle)
  moreover have "0 \<le> (of_int ms' :: rat) / 1000" using assms(6) by simp
  ultimately show ?thesis using assms(1-3) unfolding get_time_def by simp
qed

subsection \<open>One conversion\<close>

text \<open>The flags, the field width and the precision of a conversion.\<close>

record conv_spec =
  cs_flags :: string
  cs_width :: nat
  cs_precision :: "nat option"

definition parse_spec :: "string \<Rightarrow> conv_spec \<times> string" where
  "parse_spec s =
     (let flags = takeWhile (\<lambda>c. c \<in> set ''-+ 0#'') s; r1 = drop (length flags) s;
          width = takeWhile is_digit r1; r2 = drop (length width) r1
      in if r2 \<noteq> [] \<and> hd r2 = CHR ''.''
         then let prec = takeWhile is_digit (tl r2)
              in (\<lparr>cs_flags = flags, cs_width = nat (digits_value width), cs_precision = Some (nat (digits_value prec))\<rparr>,
                  drop (length prec) (tl r2))
         else (\<lparr>cs_flags = flags, cs_width = nat (digits_value width), cs_precision = None\<rparr>, r2))"

text \<open>Sign or prefix, and digits, filled to the precision and the width.\<close>

definition pad_number :: "conv_spec \<Rightarrow> string \<Rightarrow> string \<Rightarrow> string" where
  "pad_number spec pre ds =
     (let ds1 = (case cs_precision spec of None \<Rightarrow> ds
                 | Some p \<Rightarrow> if p = 0 \<and> ds = ''0'' then '''' else replicate (p - length ds) (CHR ''0'') @ ds);
          fill = cs_width spec - length (pre @ ds1)
      in if CHR ''-'' \<in> set (cs_flags spec) then pre @ ds1 @ replicate fill (CHR '' '')
         else if CHR ''0'' \<in> set (cs_flags spec) \<and> cs_precision spec = None then pre @ replicate fill (CHR ''0'') @ ds1
         else replicate fill (CHR '' '') @ pre @ ds1)"

definition sign_text :: "conv_spec \<Rightarrow> int \<Rightarrow> string" where
  "sign_text spec v =
     (if v < 0 then ''-'' else if CHR ''+'' \<in> set (cs_flags spec) then ''+''
      else if CHR '' '' \<in> set (cs_flags spec) then '' '' else '''')"

definition alternate :: "conv_spec \<Rightarrow> int \<Rightarrow> string \<Rightarrow> string" where
  "alternate spec n t = (if CHR ''#'' \<in> set (cs_flags spec) \<and> n \<noteq> 0 then t else '''')"

definition convert_int :: "conv_spec \<Rightarrow> char \<Rightarrow> int \<Rightarrow> string option" where
  "convert_int spec k v =
     (let u = v mod 2 ^ 32
      in if k = CHR ''d'' \<or> k = CHR ''i'' then Some (pad_number spec (sign_text spec v) (show_nat \<bar>v\<bar>))
         else if k = CHR ''u'' then Some (pad_number spec '''' (show_nat u))
         else if k = CHR ''x'' then Some (pad_number spec (alternate spec u ''0x'') (show_radix 16 u))
         else if k = CHR ''X'' then Some (pad_number spec (alternate spec u ''0X'') (map to_upper (show_radix 16 u)))
         else if k = CHR ''o'' then Some (pad_number spec '''' (alternate spec u ''0'' @ show_radix 8 u))
         else if k = CHR ''c'' then Some (pad_number (spec\<lparr>cs_precision := None, cs_flags := filter (\<lambda>c. c = CHR ''-'') (cs_flags spec)\<rparr>)
                                           '''' [char_of (v mod 256)])
         else None)"

subsection \<open>\<open>sprintf\<close> and \<open>str_fmt\<close>\<close>

lemma parse_spec_shrinks: "parse_spec s = (spec, r) \<Longrightarrow> length r \<le> length s"
  by (auto simp: parse_spec_def Let_def split: if_splits)

function sprintf_int :: "string \<Rightarrow> int option \<Rightarrow> string result" where
  "sprintf_int [] arg = Inr ''''"
| "sprintf_int (c # s) arg =
     (if c \<noteq> CHR ''%'' then res_bind (sprintf_int s arg) (\<lambda>t. Inr (c # t))
      else if prefix ''%'' s then res_bind (sprintf_int (drop 1 s) arg) (\<lambda>t. Inr (c # t))
      else case parse_spec s of (spec, r) \<Rightarrow>
        (case r of
           [] \<Rightarrow> Inl Bad_access
         | k # r' \<Rightarrow>
             (case arg of
                None \<Rightarrow> Inl Bad_access
              | Some v \<Rightarrow>
                  (case convert_int spec k v of
                     None \<Rightarrow> Inl Bad_access
                   | Some u \<Rightarrow> res_bind (sprintf_int r' None) (\<lambda>t. Inr (u @ t))))))"
  by pat_completeness auto
termination
  by (relation "measure (\<lambda>(s, arg). length s)") (auto dest!: parse_spec_shrinks [OF sym])

declare sprintf_int.simps(2) [simp del]

text \<open>\<open>strlen\<close> of the result and its null byte have to fit into the buffer.\<close>

definition str_fmt :: "string \<Rightarrow> int \<Rightarrow> string result" where
  "str_fmt in_str in_indx =
     (let format = takeWhile (\<lambda>c. c \<noteq> CHR 0x00) in_str
      in res_bind (sprintf_int format (Some in_indx)) (\<lambda>written.
           if length in_str + 32 < length written + 1 then Inl Bad_access
           else if length written > 0 then Inr (takeWhile (\<lambda>c. c \<noteq> CHR 0x00) written)
           else Inr in_str))"

lemma sprintf_plain:
  "CHR ''%'' \<notin> set s \<Longrightarrow> sprintf_int (s @ t) arg = res_bind (sprintf_int t arg) (\<lambda>u. Inr (s @ u))"
  by (induction s) (auto simp: sprintf_int.simps(2) res_bind_def split: sum.splits)

lemma parse_spec_d: "parse_spec (CHR ''d'' # s) = (\<lparr>cs_flags = '''', cs_width = 0, cs_precision = None\<rparr>, CHR ''d'' # s)"
  by (simp add: parse_spec_def is_digit_def code_of_def digits_value_def)

lemma convert_d: "convert_int \<lparr>cs_flags = '''', cs_width = 0, cs_precision = None\<rparr> (CHR ''d'') v = Some (show_int v)"
  by (simp add: convert_int_def pad_number_def sign_text_def show_int_def Let_def)

lemma sprintf_d:
  assumes "CHR ''%'' \<notin> set (a @ b)"
  shows "sprintf_int (a @ ''%d'' @ b) (Some v) = Inr (a @ show_int v @ b)"
proof -
  have "sprintf_int (CHR ''%'' # CHR ''d'' # b) (Some v) = Inr (show_int v @ b)"
    using sprintf_plain [of b "[]" None] assms
    by (subst sprintf_int.simps(2)) (simp add: parse_spec_d convert_d)
  then show ?thesis using assms by (simp add: sprintf_plain)
qed

text \<open>
  With one \<open>%d\<close> and no other conversion, \<open>str_fmt\<close> does what the sender does by hand to number its messages. A field
  width writes past the buffer.
\<close>

lemma show_nat_length: "0 < k \<Longrightarrow> n < 10 ^ k \<Longrightarrow> length (show_nat n) \<le> k"
proof (induction k arbitrary: n)
  case (Suc k)
  show ?case
  proof (cases "n < 10")
    case False
    then have "0 < k" using Suc.prems by (cases k) auto
    moreover have "n div 10 < 10 ^ k" using Suc.prems by (simp add: div_less_iff_less_mult)
    ultimately have "length (show_nat (n div 10)) \<le> k" by (rule Suc.IH)
    with False show ?thesis by (subst show_nat.simps) simp
  qed (subst show_nat.simps, simp)
qed simp

lemma show_int_length: "int32 v \<Longrightarrow> length (show_int v) \<le> 11"
  using show_nat_length [of 10 v] show_nat_length [of 10 "- v"] by (auto simp: show_int_def int32_def int_limits)

lemma find_percent: "CHR ''%'' \<notin> set a \<Longrightarrow> find_at ''%d'' (a @ ''%d'' @ b) i = Some (i + length a)"
  by (induction a arbitrary: i) auto

lemma str_fmt_numbers:
  assumes "CHR ''%'' \<notin> set (a @ b)" and "CHR 0x00 \<notin> set (a @ b)" and "int32 v"
  shows "str_fmt (a @ ''%d'' @ b) v = Inr (number_text v (a @ ''%d'' @ b))"
proof -
  have free: "takeWhile (\<lambda>c. c \<noteq> CHR 0x00) (a @ ''%d'' @ b) = a @ ''%d'' @ b"
    using assms(2) by (simp add: takeWhile_eq_all_conv) auto
  have "CHR 0x00 \<notin> set (show_int v)" by (rule show_int_no) (simp_all add: is_digit_def code_of_def)
  then have out: "takeWhile (\<lambda>c. c \<noteq> CHR 0x00) (a @ show_int v @ b) = a @ show_int v @ b"
    using assms(2) by (simp add: takeWhile_eq_all_conv) auto
  have "number_text v (a @ ''%d'' @ b) = a @ show_int v @ b"
    using find_percent [of a b 0] assms(1) by (simp add: number_text_def find_opt_def)
  then show ?thesis
    using show_int_length [OF assms(3)] sprintf_d [OF assms(1), of v]
    unfolding str_fmt_def free Let_def by (simp add: out)
qed

lemma str_fmt_overflows: "str_fmt ''%40d'' 7 = Inl Bad_access"
  by code_simp

end
