(* ===== verification/Spec2Isabelle.thy ===== *)
theory Spec2Isabelle
  imports Uri StdMap StlUtils Callback TimerM OptText OptParse OptLaws Modern LoggerM WriterM Message Dict Decoder UtilsM
    CommonH SenderH ReceiverH ReceiverLaws ConnectorH OptionsH ClientM SendingM ConnectingM ReceivingM
    OptTable CommandLine Endings ExitStatus Typed
    ParserApi Exceptions TestSupport Formats
begin

text \<open>
  A verification library for the qpid-proton command line clients of cli-cpp: \<open>aac3_sender\<close>, \<open>aac3_receiver\<close> and
  \<open>aac3_connector\<close>, C++ programs that send, receive and connect over AMQP as their command line tells them, and print
  messages and statistics as text that test scripts read. All paths below are under src/src.

  \<^bold>\<open>How the program is put together.\<close> A client's \<open>run\<close> (api/qpid-proton/reactor) builds an option parser
  (common/options/modern over contrib/optparse), parses and validates the command line, parses the address
  (common/UriParser), builds the message or the receiver's settings and a handler (api/qpid-proton/reactor/handler), and hands
  the handler to the container of the proton library, which calls its methods one after another until the connection is
  closed, the handler calls \<open>exit\<close>, or an exception leaves it. Handlers print messages through a formatter and a decoder
  (common/formatter, api/qpid-proton/reactor/formatter) and log through common/logger.

  \<^bold>\<open>The theories, in the order of the calls.\<close>

  \<^item> Prelude: strings, searches and \<open>substr\<close> with 64 bit positions, \<open>strtol\<close> and its kin, decimal output, 32 bit \<open>int\<close>s,
    the result type (\<open>Inl\<close> an exception). StdMap: \<open>std::map\<close>; the locales \<open>key_store\<close> and \<open>ordered_store\<close> are the contract of
    its users. StlUtils: \<open>split\<close>, \<open>convertToMap\<close>, \<open>convertPropertiesToMap\<close> (common/STLUtils.h).
  \<^item> Uri: \<open>UriParser\<close>. TimerM: \<open>Timer\<close>, with the locale \<open>countdown\<close>. Callback: \<open>StringAppendCallback\<close>.
  \<^item> OptText, OptParse: \<open>Option\<close>, \<open>OptionGroup\<close>, \<open>OptionParser\<close>, \<open>Values\<close> (contrib/optparse); an option's address is a
    number, a parser's state the record \<open>opt_parser\<close>. OptLaws: the invariant \<open>parser_wf\<close>, the meaning of a command
    line and its proof. Modern: the option tables and \<open>validate\<close> of the four parsers.
  \<^item> OptionsH: \<open>OptionsSetter\<close>, \<open>BeanUtils\<close>, Normalizer.h. LoggerM: \<open>Printer\<close>, \<open>Logger\<close>, \<open>LoggerWrapper\<close>, \<open>ModernClient\<close>.
    UtilsM: Utils.cpp.
  \<^item> Message: AMQP values and messages. WriterM: \<open>DictWriter\<close> and \<open>UpstreamWriter\<close> under the locale \<open>writer\<close>. Dict:
    \<open>DictFormatter\<close> and a reader for the text it writes. Decoder: \<open>AbstractDecoder\<close>, \<open>ReactorDecoder\<close> and \<open>printMessage\<close>.
  \<^item> CommonH: \<open>CommonHandler\<close>, and what the handlers share: the record \<open>common_handler\<close> they extend, the log of
    effects (calls of the library, output, log lines), the callbacks that are scheduled, runs (\<open>reaches\<close>, \<open>run_events\<close>) and
    the locale \<open>event_handler\<close>. SenderH, ReceiverH with ReceiverLaws, ConnectorH: the three handlers, a function per
    method, a step function on the library's events, and the proofs about all runs.
  \<^item> ClientM, SendingM, ReceivingM, ConnectingM: the three \<open>run\<close> methods. \<open>sending_run\<close> and its two counterparts lead from
    \<open>argv\<close> to the prepared handler; \<open>client_end\<close> is how a run ends.
  \<^item> OptTable: what a command line over a table of options stores, for any table. CommandLine: the tables of the three
    clients, and their runs from \<open>argv\<close>. Endings: abstract machines, under the locale \<open>ending_machine\<close>, that say when and how
    a handler stops. ExitStatus: the three \<open>main\<close>s and their exit statuses. Typed: the C++ types of the numbers the
    model keeps unbounded, under the locale \<open>typed_state\<close>.
  \<^item> ParserApi: what the clients do not use of \<open>OptionParser\<close>. Exceptions: the classes of common/exceptions. Formats:
    the clock, and the functions of Utils.cpp that nothing calls. TestSupport: common/TestUtils, and the unit tests of the
    repository run on the model.

  \<^bold>\<open>What is shown.\<close> In every order of the library's calls a sender sends numbered copies of its message without gap or
  repetition, at most as many as asked, keeps trying, can finish, and closes once; a receiver and a connector implement
  abstract specifications over the events, from which follow what is acknowledged, answered and closed and when. These
  are joined with the reading of \<open>argv\<close>: for a command line of a client's own options, what is sent, settled or closed, and
  the exit status, is stated in terms of the options given. The argument loop implements an item by item reading of the
  command line and never follows a dangling pointer; validation is characterised exactly. URIs, option maps, items of
  properties, lists of URLs and printed dictionaries are read back. The errors are exact where the source can fail: a URI,
  a help line, a message that cannot be printed, a negative time-out, a listening receiver that has to answer. What the
  formatter does not escape (quotes in keys, backslashes that end a value) is shown to make a printed dictionary unreadable.
  In every state of every run the numbers of a handler, and those it hands to the library, fit their C++ types.

  \<^bold>\<open>Parameters and bounds.\<close> What is not under src is an argument: \<open>proton_lib\<close> (what the library makes of a
  value; its \<open>get\<close> of whole lists and maps is written out in Message, element by element as documented), the credit and the texts of errors (in the events), the clock's readings, the uuid of a container's name, the
  contents of files, the number \<open>forever\<close> of milliseconds, what \<open>printf\<close> makes of a double. No definition uses fuel:
  loops are structural or have a termination measure, but for one, \<open>str_replace_loop\<close>, which is a \<open>partial_function\<close> whose
  return is proved. Sizes are taken below \<open>2 ^ 63\<close> (\<open>cpp_size\<close>) where a round
  trip needs it. Times are rationals and doubles texts: rounding is not modelled. An undefined read, the use of
  an object that was never assigned, or a division by zero is the exception \<open>Bad_access\<close>.

  \<^bold>\<open>Not modelled.\<close> The proton library and the network; the calls of OpenTelemetry; the log lines of the decoders;
  conversions to floating point; code that no build compiles (\<open>ENABLE_BLOCKING\<close>, \<open>UNSUPPORTED_CONNECTOR_OPTS\<close>, the
  Windows branch of \<open>setNumber\<close>, gettext).
\<close>

end
